theory Spec2Isabelle
  imports Main "HOL-Library.Word"
begin

section \<open>Steadicam: the trip package\<close>

text \<open>
  The severity of a trip, in the order of the Go constants (\<open>iota\<close>).
\<close>

datatype Severity = Stumble | Error | Fall

text \<open>
  Go strings are byte sequences, so they are \<open>string\<close> (a list of 8-bit characters).
  A \<open>rune\<close> is Go's \<open>int32\<close> code point; only its value matters here, so it is an
  \<open>int\<close>.
\<close>

type_synonym rune = int

text \<open>
  The bubbletea messages the harness sends: a \<open>tea.KeyMsg\<close> with its key type and
  runes. Every other \<open>tea.Msg\<close> is \<open>OtherMsg\<close>.
\<close>

datatype KeyType = KeyRunes | KeyEnter | KeyTab | KeyDown | KeyUp | KeyEsc | KeyBackspace

datatype Msg = KeyMsg KeyType "rune list" | OtherMsg

text \<open>
  The values stored in a trip context (\<open>map[string]interface{}\<close>). A string is kept as
  it is. The value recovered from a panic is kept as its \<open>%v\<close> rendering. The results
  of \<open>fmt.Sprintf("%T: %+v", msg, msg)\<close> and \<open>fmt.Sprintf("%T", d.model)\<close> are renderings
  made by the Go runtime and by bubbletea; they are kept symbolically, as is the reading
  of the clock.
\<close>

datatype ctxval =
    CtxString string
  | CtxPanicValue string
  | CtxFormattedMsg Msg
  | CtxModelType
  | CtxTime

type_synonym Context = "string \<rightharpoonup> ctxval"

text \<open>
  \<open>trip.Trip\<close>. The \<open>Timestamp\<close> field is a reading of the wall clock and is left out,
  here and in the other structs.
\<close>

record Trip =
  Type :: string
  Message :: string
  Context :: Context
  Attempt :: int
  Severity :: Severity

definition NewTrip :: "string \<Rightarrow> string \<Rightarrow> Context \<Rightarrow> Trip" where
  "NewTrip errorType message context =
     \<lparr>Type = errorType, Message = message, Context = context, Attempt = 0, Severity = Error\<rparr>"

definition NewStumble :: "string \<Rightarrow> string \<Rightarrow> Context \<Rightarrow> Trip" where
  "NewStumble errorType message context =
     \<lparr>Type = errorType, Message = message, Context = context, Attempt = 0, Severity = Stumble\<rparr>"

definition NewFall :: "string \<Rightarrow> string \<Rightarrow> Context \<Rightarrow> Trip" where
  "NewFall errorType message context =
     \<lparr>Type = errorType, Message = message, Context = context, Attempt = 0, Severity = Fall\<rparr>"

definition CanRecover :: "Trip \<Rightarrow> bool" where
  "CanRecover t = (Severity t = Stumble)"

definition IsFall :: "Trip \<Rightarrow> bool" where
  "IsFall t = (Severity t = Fall)"

record RetryConfig =
  MaxRetries :: int
  Backoff :: int
  Exponential :: bool

record Policy =
  StopOnFall :: bool
  MaxStumbles :: int
  RecoverableTypes :: "string list"
  RetryPolicy :: "string \<rightharpoonup> RetryConfig"

record Handler =
  component :: string
  trips :: "Trip list"
  stumbles :: "Trip list"
  policy :: Policy

text \<open>Durations are counted in milliseconds.\<close>

definition DefaultPolicy :: Policy where
  "DefaultPolicy =
     \<lparr>StopOnFall = True, MaxStumbles = 10,
      RecoverableTypes = [''visual'', ''interaction'', ''timing''],
      RetryPolicy = [''visual'' \<mapsto> \<lparr>MaxRetries = 3, Backoff = 100, Exponential = False\<rparr>,
                     ''interaction'' \<mapsto> \<lparr>MaxRetries = 2, Backoff = 50, Exponential = True\<rparr>,
                     ''timing'' \<mapsto> \<lparr>MaxRetries = 1, Backoff = 25, Exponential = False\<rparr>]\<rparr>"

definition NewHandler :: "string \<Rightarrow> Policy option \<Rightarrow> Handler" where
  "NewHandler cname pol =
     \<lparr>component = cname, trips = [], stumbles = [],
      policy = (case pol of None \<Rightarrow> DefaultPolicy | Some p \<Rightarrow> p)\<rparr>"

definition Record :: "Trip \<Rightarrow> Handler \<Rightarrow> Handler" where
  "Record t h =
     (if Severity t = Stumble then h\<lparr>stumbles := stumbles h @ [t]\<rparr>
      else h\<lparr>trips := trips h @ [t]\<rparr>)"

definition ShouldContinue :: "Handler \<Rightarrow> bool" where
  "ShouldContinue h =
     (if StopOnFall (policy h) \<and> list_ex IsFall (trips h) then False
      else if MaxStumbles (policy h) > 0 \<and> int (length (stumbles h)) > MaxStumbles (policy h)
      then False
      else True)"

section \<open>The stage director\<close>

text \<open>
  The driven program. \<open>REPLModel\<close> is a Go interface; a value of it is a state \<open>'m\<close>
  together with its methods, which are collected in a record of functions. \<open>Update\<close> can
  return a new \<open>REPLModel\<close>, return nil, return a \<open>tea.Model\<close> that is no \<open>REPLModel\<close>,
  or panic; the \<open>tea.Cmd\<close> it also returns is handed back to bubbletea untouched and is
  not modelled.
\<close>

datatype 'm update_result =
    Returns 'm
  | ReturnsNil
  | ReturnsNonREPLModel
  | Panics string

record 'm REPLModel =
  Update :: "'m \<Rightarrow> Msg \<Rightarrow> 'm update_result"
  View :: "'m \<Rightarrow> string"
  CurrentInput :: "'m \<Rightarrow> string"
  CurrentMode :: "'m \<Rightarrow> string"
  CheckCondition :: "'m \<Rightarrow> string \<Rightarrow> bool"

type_synonym int64 = "64 word"

record 'm modelUpdate =
  model :: 'm
  sequence :: int64

text \<open>
  A buffered Go channel: the queued values, oldest first, and the capacity.
\<close>

record 'a chan =
  buf :: "'a list"
  cap :: nat

datatype detail = DString string | DDuration int

record StageAction =
  ActionType :: string
  Details :: detail
  Result :: "detail option"

record StageSnapshot =
  SView :: string
  SMode :: string
  SInput :: string

text \<open>
  \<open>StageConfig\<close>, with durations in milliseconds; its field \<open>MaxRetries\<close> is called
  \<open>MaxRetriesCfg\<close>.
\<close>

record StageConfig =
  Timeout :: int
  TypingSpeed :: int
  CaptureViews :: bool
  MaxRetriesCfg :: int

text \<open>
  \<open>stageModelWrapper\<close>: the wrapped model and whether its \<open>director\<close> pointer is set.
  There is one director per session, so the pointer itself is the director state that
  every function below takes and returns.
\<close>

record 'm stageModelWrapper =
  wrapped :: 'm
  director :: bool

text \<open>
  The \<open>tea.Program\<close> as far as the harness sees it: the model the event loop holds
  (nil after \<open>Update\<close> returned nil), every message given to \<open>Send\<close> in order, and how
  many of them the event loop has handled.
\<close>

record 'm Program =
  pmodel :: "'m stageModelWrapper option"
  sent :: "Msg list"
  handled :: nat
  quit :: bool

text \<open>
  \<open>StageDirector\<close>. \<open>cancelled\<close> says whether \<open>d.cancel()\<close> has been called on the
  session context; \<open>t_errors\<close> are the trips reported through \<open>d.t.Error\<close> (log lines
  are not kept). The mutexes have no state of their own in a sequential model. The
  field \<open>model\<close> is called \<open>dmodel\<close>.
\<close>

record 'm StageDirector =
  dmodel :: 'm
  program :: "'m Program option"
  cancelled :: bool
  interactions :: "StageAction list"
  snapshots :: "StageSnapshot list"
  tripHandler :: Handler
  lastTrip :: "Trip option"
  failed :: bool
  modelChan :: "'m modelUpdate chan option"
  latestModel :: "'m option"
  updateSeq :: int64
  lastProcessedSeq :: int64
  droppedUpdates :: int64
  updatesSent :: int64
  updatesProcessed :: int64
  bufferOverflows :: int64
  sequenceGaps :: int64
  duplicateUpdates :: int64
  config :: StageConfig
  started :: bool
  t_errors :: "Trip list"

definition NewStageDirectorWithConfig :: "'m \<Rightarrow> StageConfig \<Rightarrow> 'm StageDirector" where
  "NewStageDirectorWithConfig m cfg =
     \<lparr>dmodel = m, program = None, cancelled = False, interactions = [], snapshots = [],
      tripHandler = NewHandler ''stage_director'' (Some DefaultPolicy),
      lastTrip = None, failed = False,
      modelChan = Some \<lparr>buf = [], cap = 50\<rparr>, latestModel = Some m,
      updateSeq = 0, lastProcessedSeq = 0, droppedUpdates = 0, updatesSent = 0,
      updatesProcessed = 0, bufferOverflows = 0, sequenceGaps = 0, duplicateUpdates = 0,
      config = cfg, started = False, t_errors = []\<rparr>"

subsection \<open>The background consumer\<close>

text \<open>
  One iteration of the loop of \<open>syncModelUpdates\<close> for an update taken from
  \<open>d.modelChan\<close>. The comparisons are those of \<open>int64\<close>: signed, and \<open>currentSeq+1\<close>
  wraps.
\<close>

definition syncModelUpdates_step :: "'m modelUpdate \<Rightarrow> 'm StageDirector \<Rightarrow> 'm StageDirector" where
  "syncModelUpdates_step update d =
     (let currentSeq = lastProcessedSeq d in
      if sequence update \<le>s currentSeq
      then d\<lparr>duplicateUpdates := duplicateUpdates d + 1\<rparr>
      else
        let d1 = (if currentSeq + 1 <s sequence update
                  then d\<lparr>sequenceGaps := sequenceGaps d + 1\<rparr> else d)
        in d1\<lparr>latestModel := Some (model update),
               lastProcessedSeq := sequence update,
               updatesProcessed := updatesProcessed d1 + 1\<rparr>)"

text \<open>
  The loop itself, run over the updates it receives until the context is done.
\<close>

fun syncModelUpdates :: "'m modelUpdate list \<Rightarrow> 'm StageDirector \<Rightarrow> 'm StageDirector" where
  "syncModelUpdates [] d = d"
| "syncModelUpdates (update # rest) d = syncModelUpdates rest (syncModelUpdates_step update d)"

subsection \<open>Strings and runes\<close>

text \<open>
  \<open>string(r)\<close> for a rune \<open>r\<close>: its UTF-8 encoding, and the encoding of U+FFFD for a
  value that is no Unicode scalar value. \<open>string(rs)\<close> for a slice of runes is the
  concatenation.
\<close>

definition string_of_rune :: "rune \<Rightarrow> string" where
  "string_of_rune r =
     (if 0 \<le> r \<and> r < 0x80 then [char_of r]
      else if 0 \<le> r \<and> r < 0x800 then [char_of (0xC0 + r div 64), char_of (0x80 + r mod 64)]
      else if r < 0 \<or> 0x10FFFF < r \<or> (0xD800 \<le> r \<and> r \<le> 0xDFFF)
      then [char_of (0xEF :: int), char_of (0xBF :: int), char_of (0xBD :: int)]
      else if r < 0x10000
      then [char_of (0xE0 + r div 4096), char_of (0x80 + (r div 64) mod 64),
            char_of (0x80 + r mod 64)]
      else [char_of (0xF0 + r div 262144), char_of (0x80 + (r div 4096) mod 64),
            char_of (0x80 + (r div 64) mod 64), char_of (0x80 + r mod 64)])"

definition string_of_runes :: "rune list \<Rightarrow> string" where
  "string_of_runes rs = concat (map string_of_rune rs)"

text \<open>\<open>strings.Contains\<close>: the second string occurs in the first, byte for byte.\<close>

fun Contains :: "string \<Rightarrow> string \<Rightarrow> bool" where
  "Contains [] substr = (substr = [])"
| "Contains (c # s) substr = (take (length substr) (c # s) = substr \<or> Contains s substr)"

text \<open>\<open>truncateString\<close>; \<open>len\<close> and the slice count bytes.\<close>

definition truncateString :: "string \<Rightarrow> nat \<Rightarrow> string" where
  "truncateString s maxLen = (if length s \<le> maxLen then s else take maxLen s @ ''...'')"

subsection \<open>Configuration and a driven program of the test suite\<close>

definition DefaultStageConfig :: StageConfig where
  "DefaultStageConfig =
     \<lparr>Timeout = 30000, TypingSpeed = 10, CaptureViews = True, MaxRetriesCfg = 3\<rparr>"

text \<open>
  \<open>MockREPL\<close> of the tests. The field \<open>output\<close> is called \<open>output_text\<close>. Reading a
  key that is missing from a Go \<open>map[string]bool\<close> gives \<open>false\<close>. The tests use a
  \<open>MockREPL\<close> through a pointer, so that the model the director holds is the object
  the program updates. Here a model is a value, as it is for a program with value
  receivers, and the director learns of a change only through the consumer. The two
  agree as long as the program handles no message, which is how \<open>MockREPL\<close> is used
  below.
\<close>

record MockREPL =
  input :: string
  mode :: string
  output_text :: string
  conditions :: "string \<rightharpoonup> bool"

definition NewMockREPL :: MockREPL where
  "NewMockREPL = \<lparr>input = [], mode = ''initial'', output_text = [], conditions = Map.empty\<rparr>"

definition MockREPL_Update :: "MockREPL \<Rightarrow> Msg \<Rightarrow> MockREPL update_result" where
  "MockREPL_Update m msg =
     (case msg of
        KeyMsg kt rs \<Rightarrow>
          (case kt of
             KeyRunes \<Rightarrow> Returns (m\<lparr>input := input m @ string_of_runes rs, mode := ''typing''\<rparr>)
           | KeyEnter \<Rightarrow>
               Returns (m\<lparr>output_text := ''processed: '' @ input m, mode := ''result'', input := []\<rparr>)
           | KeyEsc \<Rightarrow> Returns (m\<lparr>input := [], mode := ''initial''\<rparr>)
           | _ \<Rightarrow> Returns m)
      | OtherMsg \<Rightarrow> Returns m)"

definition MockREPL_View :: "MockREPL \<Rightarrow> string" where
  "MockREPL_View m =
     (if output_text m \<noteq> []
      then ''Mode: '' @ mode m @ [CHR 0x0A] @ ''Output: '' @ output_text m @ [CHR 0x0A]
           @ ''Input: '' @ input m @ [CHR 0x0A] @ ''> ''
      else ''Mode: '' @ mode m @ [CHR 0x0A] @ ''Input: '' @ input m @ [CHR 0x0A] @ ''> '')"

definition MockREPL_CheckCondition :: "MockREPL \<Rightarrow> string \<Rightarrow> bool" where
  "MockREPL_CheckCondition m condition =
     (if condition = ''has_output'' then output_text m \<noteq> []
      else if condition = ''empty_input'' then input m = []
      else if condition = ''has_input'' then input m \<noteq> []
      else (case conditions m condition of None \<Rightarrow> False | Some b \<Rightarrow> b))"

definition MockREPL_model :: "MockREPL REPLModel" where
  "MockREPL_model =
     \<lparr>Update = MockREPL_Update, View = MockREPL_View, CurrentInput = input,
      CurrentMode = mode, CheckCondition = MockREPL_CheckCondition\<rparr>"

text \<open>
  \<open>SimpleREPL\<close> of \<open>examples/simple-repl\<close>, a driven program with value receivers:
  \<open>Update\<close> changes a copy and returns it. Its fields \<open>input\<close>, \<open>output\<close> and \<open>mode\<close>
  are called \<open>repl_input\<close>, \<open>repl_output\<close> and \<open>repl_mode\<close>. The harness sends no
  \<open>KeyCtrlC\<close>, so that branch of \<open>Update\<close> is left out. The view begins with U+1F3AC in
  UTF-8.
\<close>

record SimpleREPL =
  repl_input :: string
  repl_output :: string
  repl_mode :: string

definition NewSimpleREPL :: SimpleREPL where
  "NewSimpleREPL = \<lparr>repl_input = [], repl_output = [], repl_mode = ''input''\<rparr>"

definition SimpleREPL_Update :: "SimpleREPL \<Rightarrow> Msg \<Rightarrow> SimpleREPL update_result" where
  "SimpleREPL_Update m msg =
     (case msg of
        KeyMsg kt rs \<Rightarrow>
          (case kt of
             KeyEnter \<Rightarrow>
               if repl_input m \<noteq> []
               then Returns (m\<lparr>repl_output := ''Hello, '' @ repl_input m @ ''! You entered: ''
                                                  @ repl_input m,
                                 repl_input := [], repl_mode := ''result''\<rparr>)
               else Returns m
           | KeyEsc \<Rightarrow> Returns (m\<lparr>repl_input := [], repl_output := [], repl_mode := ''input''\<rparr>)
           | KeyRunes \<Rightarrow> Returns (m\<lparr>repl_input := repl_input m @ string_of_runes rs\<rparr>)
           | KeyBackspace \<Rightarrow>
               if length (repl_input m) > 0
               then Returns (m\<lparr>repl_input := take (length (repl_input m) - 1) (repl_input m)\<rparr>)
               else Returns m
           | _ \<Rightarrow> Returns m)
      | OtherMsg \<Rightarrow> Returns m)"

definition SimpleREPL_View :: "SimpleREPL \<Rightarrow> string" where
  "SimpleREPL_View m =
     [CHR 0xF0, CHR 0x9F, CHR 0x8E, CHR 0xAC] @ '' Simple REPL Example'' @ [CHR 0x0A]
     @ ''======================'' @ [CHR 0x0A, CHR 0x0A]
     @ (if repl_output m \<noteq> [] then ''Output: '' @ repl_output m @ [CHR 0x0A, CHR 0x0A] else [])
     @ ''Mode: '' @ repl_mode m @ [CHR 0x0A]
     @ ''Input: '' @ repl_input m @ [CHR 0x0A]
     @ ''repl> ''
     @ [CHR 0x0A, CHR 0x0A] @ ''(Press Enter to submit, Esc to clear, Ctrl+C to quit)''"

definition SimpleREPL_CheckCondition :: "SimpleREPL \<Rightarrow> string \<Rightarrow> bool" where
  "SimpleREPL_CheckCondition m condition =
     (if condition = ''has_output'' then repl_output m \<noteq> []
      else if condition = ''empty_input'' then repl_input m = []
      else if condition = ''has_input'' then repl_input m \<noteq> []
      else if condition = ''input_mode'' then repl_mode m = ''input''
      else if condition = ''result_mode'' then repl_mode m = ''result''
      else False)"

definition SimpleREPL_model :: "SimpleREPL REPLModel" where
  "SimpleREPL_model =
     \<lparr>Update = SimpleREPL_Update, View = SimpleREPL_View, CurrentInput = repl_input,
      CurrentMode = repl_mode, CheckCondition = SimpleREPL_CheckCondition\<rparr>"

subsection \<open>Reading the synchronized state\<close>

definition getCurrentView :: "'m REPLModel \<Rightarrow> 'm StageDirector \<Rightarrow> string" where
  "getCurrentView M d = (case latestModel d of Some m \<Rightarrow> View M m | None \<Rightarrow> [])"

definition getCurrentInput :: "'m REPLModel \<Rightarrow> 'm StageDirector \<Rightarrow> string" where
  "getCurrentInput M d = (case latestModel d of Some m \<Rightarrow> CurrentInput M m | None \<Rightarrow> [])"

definition getCurrentMode :: "'m REPLModel \<Rightarrow> 'm StageDirector \<Rightarrow> string" where
  "getCurrentMode M d = (case latestModel d of Some m \<Rightarrow> CurrentMode M m | None \<Rightarrow> [])"

subsection \<open>Recording trips, actions and snapshots\<close>

text \<open>
  \<open>newStageTrip\<close> copies the context into a fresh map and calls \<open>trip.NewTrip\<close>.
\<close>

definition newStageTrip :: "string \<Rightarrow> string \<Rightarrow> Context \<Rightarrow> Trip" where
  "newStageTrip errorType message context = NewTrip errorType message (Map.empty ++ context)"

text \<open>
  \<open>recordTrip\<close>. The director is built with a testing handle, so \<open>d.t\<close> is not nil;
  \<open>d.t.Error\<close> is kept in \<open>t_errors\<close> and \<open>d.t.Log\<close> is dropped.
\<close>

definition recordTrip :: "Trip \<Rightarrow> 'm StageDirector \<Rightarrow> 'm StageDirector" where
  "recordTrip t d =
     (let d1 = d\<lparr>tripHandler := Record t (tripHandler d), lastTrip := Some t\<rparr>;
          d2 = (if \<not> CanRecover t then d1\<lparr>failed := True\<rparr> else d1)
      in if IsFall t then d2\<lparr>t_errors := t_errors d2 @ [t]\<rparr> else d2)"

definition recordStageAction :: "string \<Rightarrow> detail \<Rightarrow> 'm StageDirector \<Rightarrow> 'm StageDirector" where
  "recordStageAction actionType details d =
     d\<lparr>interactions := interactions d @ [\<lparr>ActionType = actionType, Details = details, Result = None\<rparr>]\<rparr>"

definition captureSnapshot :: "'m REPLModel \<Rightarrow> string \<Rightarrow> 'm StageDirector \<Rightarrow> 'm StageDirector" where
  "captureSnapshot M reason d =
     (if \<not> CaptureViews (config d) then d
      else d\<lparr>snapshots := snapshots d @
                [\<lparr>SView = getCurrentView M d, SMode = getCurrentMode M d,
                  SInput = getCurrentInput M d\<rparr>]\<rparr>)"

text \<open>
  \<open>captureErrorSnapshot\<close>. The accessors of the model are total functions here, so the
  branches that recover from a panic inside them are not reached.
\<close>

definition captureErrorSnapshot ::
  "'m REPLModel \<Rightarrow> string \<Rightarrow> string \<Rightarrow> 'm StageDirector \<Rightarrow> 'm StageDirector" where
  "captureErrorSnapshot M errorType errorMessage d =
     (let currentView = getCurrentView M d;
          currentInput = getCurrentInput M d;
          errorSnapshot =
            \<lparr>SView = ''ERROR STATE ('' @ errorType @ '')'' @ [CHR 0x0A] @ errorMessage
                     @ [CHR 0x0A, CHR 0x0A] @ ''Last View:'' @ [CHR 0x0A] @ currentView,
             SMode = ''error_'' @ errorType,
             SInput = currentInput\<rparr>
      in d\<lparr>snapshots := snapshots d @ [errorSnapshot]\<rparr>)"

subsection \<open>Fail-fast handlers and the interception wrapper\<close>

text \<open>
  \<open>d.cancel\<close> is set by the constructor and never cleared, so the nil checks on it
  succeed.
\<close>

definition handleModelPanic ::
  "'m REPLModel \<Rightarrow> string \<Rightarrow> Msg \<Rightarrow> 'm StageDirector \<Rightarrow> 'm StageDirector" where
  "handleModelPanic M panicValue msg d =
     (let d1 = captureErrorSnapshot M ''model_panic'' (''Panic: '' @ panicValue) d;
          panicTrip = newStageTrip ''MODEL_PANIC'' (''Model panic during Update: '' @ panicValue)
                        [''panic_value'' \<mapsto> CtxPanicValue panicValue,
                         ''tea_msg'' \<mapsto> CtxFormattedMsg msg,
                         ''model_type'' \<mapsto> CtxModelType,
                         ''timestamp'' \<mapsto> CtxTime];
          d2 = recordTrip panicTrip d1
      in d2\<lparr>cancelled := True\<rparr>)"

definition handleInvalidModelState ::
  "'m REPLModel \<Rightarrow> string \<Rightarrow> Msg \<Rightarrow> 'm StageDirector \<Rightarrow> 'm StageDirector" where
  "handleInvalidModelState M reason msg d =
     (let d1 = captureErrorSnapshot M ''invalid_model_state'' reason d;
          invalidStateTrip = newStageTrip ''INVALID_MODEL_STATE'' reason
                        [''tea_msg'' \<mapsto> CtxFormattedMsg msg,
                         ''model_type'' \<mapsto> CtxModelType,
                         ''timestamp'' \<mapsto> CtxTime];
          d2 = recordTrip invalidStateTrip d1
      in d2\<lparr>cancelled := True\<rparr>)"

text \<open>
  \<open>stageModelWrapper.Update\<close>: the model the wrapper hands back to bubbletea (nil after
  a recovered panic, since the results are unnamed) and the director afterwards. The
  non-blocking send succeeds when the buffer has room.
\<close>

definition Update_wrapper ::
  "'m REPLModel \<Rightarrow> 'm stageModelWrapper \<Rightarrow> Msg \<Rightarrow> 'm StageDirector
     \<Rightarrow> 'm stageModelWrapper option \<times> 'm StageDirector" where
  "Update_wrapper M w msg d =
     (case Update M (wrapped w) msg of
        Panics r \<Rightarrow> (None, if director w then handleModelPanic M r msg d else d)
      | ReturnsNil \<Rightarrow>
          (Some w, if director w
                   then handleInvalidModelState M ''Update returned nil model'' msg d else d)
      | ReturnsNonREPLModel \<Rightarrow>
          (Some w, if director w
                   then handleInvalidModelState M ''Update returned non-REPLModel'' msg d else d)
      | Returns replModel \<Rightarrow>
          (Some \<lparr>wrapped = replModel, director = director w\<rparr>,
           if director w
           then (case modelChan d of
                   None \<Rightarrow> d
                 | Some ch \<Rightarrow>
                     (let seq = updateSeq d + 1;
                          d1 = d\<lparr>updateSeq := seq\<rparr>;
                          update = \<lparr>model = replModel, sequence = seq\<rparr>
                      in if length (buf ch) < cap ch
                         then d1\<lparr>modelChan := Some (ch\<lparr>buf := buf ch @ [update]\<rparr>),
                                updatesSent := updatesSent d1 + 1\<rparr>
                         else d1\<lparr>bufferOverflows := bufferOverflows d1 + 1,
                                droppedUpdates := droppedUpdates d1 + 1\<rparr>))
           else d))"

subsection \<open>The program and the consumer as background activity\<close>

text \<open>
  The harness runs beside two other goroutines: the event loop of the bubbletea program,
  which calls \<open>Update\<close> on the model it holds for each message it was sent, in order,
  and the consumer \<open>syncModelUpdates\<close>, which takes one update at a time from
  \<open>d.modelChan\<close>. They are taken to run while the harness sleeps, and what they do
  during a sleep is given from outside as a list of their steps. A program without a
  model, or one that was told to quit, handles nothing.
\<close>

datatype bg = ProgramStep | ConsumerStep

definition program_step :: "'m REPLModel \<Rightarrow> 'm StageDirector \<Rightarrow> 'm StageDirector" where
  "program_step M d =
     (case program d of
        None \<Rightarrow> d
      | Some p \<Rightarrow>
          if quit p \<or> length (sent p) \<le> handled p then d
          else (case pmodel p of
                  None \<Rightarrow> d
                | Some w \<Rightarrow>
                    (case Update_wrapper M w (sent p ! handled p) d of
                       (w', d') \<Rightarrow>
                          d'\<lparr>program := Some (p\<lparr>pmodel := w', handled := handled p + 1\<rparr>)\<rparr>)))"

definition consumer_step :: "'m StageDirector \<Rightarrow> 'm StageDirector" where
  "consumer_step d =
     (case modelChan d of
        None \<Rightarrow> d
      | Some ch \<Rightarrow>
          (case buf ch of
             [] \<Rightarrow> d
           | update # rest \<Rightarrow>
               syncModelUpdates_step update (d\<lparr>modelChan := Some (ch\<lparr>buf := rest\<rparr>)\<rparr>)))"

fun run_bg :: "'m REPLModel \<Rightarrow> bg list \<Rightarrow> 'm StageDirector \<Rightarrow> 'm StageDirector" where
  "run_bg M [] d = d"
| "run_bg M (ProgramStep # bs) d = run_bg M bs (program_step M d)"
| "run_bg M (ConsumerStep # bs) d = run_bg M bs (consumer_step d)"

text \<open>
  One pass through the \<open>select\<close> of a wait loop sees whether the wait's own timer has
  fired and whether the deadline of the session context has passed; the context is
  also done once it was cancelled. When both channels are ready Go picks one of them,
  and \<open>pick_timer\<close> says which. The \<open>default\<close> case is taken only when neither is
  ready. \<open>during_sleep\<close> is the background activity during the sleep that ends the pass.
\<close>

record poll =
  timer_fired :: bool
  ctx_expired :: bool
  pick_timer :: bool
  during_sleep :: "bg list"

datatype select_case = TimeoutCase | DoneCase | DefaultCase

definition select_of :: "poll \<Rightarrow> 'm StageDirector \<Rightarrow> select_case" where
  "select_of p d =
     (let done = (cancelled d \<or> ctx_expired p) in
      if timer_fired p \<and> (\<not> done \<or> pick_timer p) then TimeoutCase
      else if done then DoneCase
      else DefaultCase)"

subsection \<open>Interactions\<close>

text \<open>
  \<open>for _, char := range text\<close> decodes the bytes of \<open>text\<close> as UTF-8, one rune at a
  time: a byte that starts no valid encoding gives U+FFFD and is one byte wide. The
  accepted ranges are those of the Go language (shortest form, no surrogates, at most
  U+10FFFF).
\<close>

definition is_cont :: "char \<Rightarrow> int \<Rightarrow> int \<Rightarrow> bool" where
  "is_cont c lo hi = (lo \<le> of_char c \<and> (of_char c :: int) \<le> hi)"

text \<open>The first rune of a string and its width in bytes (\<open>utf8.DecodeRuneInString\<close>).\<close>

definition DecodeRune :: "string \<Rightarrow> rune \<times> nat" where
  "DecodeRune s =
     (case s of
        [] \<Rightarrow> (0xFFFD, 0)
      | c0 # s1 \<Rightarrow>
          (let b0 = of_char c0 :: int in
           if b0 < 0x80 then (b0, 1)
           else if 0xC2 \<le> b0 \<and> b0 \<le> 0xDF then
             (case s1 of
                c1 # _ \<Rightarrow>
                  if is_cont c1 0x80 0xBF then ((b0 mod 32) * 64 + of_char c1 mod 64, 2)
                  else (0xFFFD, 1)
              | _ \<Rightarrow> (0xFFFD, 1))
           else if 0xE0 \<le> b0 \<and> b0 \<le> 0xEF then
             (case s1 of
                c1 # c2 # _ \<Rightarrow>
                  if is_cont c1 (if b0 = 0xE0 then 0xA0 else 0x80) (if b0 = 0xED then 0x9F else 0xBF)
                     \<and> is_cont c2 0x80 0xBF
                  then ((b0 mod 16) * 4096 + (of_char c1 mod 64) * 64 + of_char c2 mod 64, 3)
                  else (0xFFFD, 1)
              | _ \<Rightarrow> (0xFFFD, 1))
           else if 0xF0 \<le> b0 \<and> b0 \<le> 0xF4 then
             (case s1 of
                c1 # c2 # c3 # _ \<Rightarrow>
                  if is_cont c1 (if b0 = 0xF0 then 0x90 else 0x80) (if b0 = 0xF4 then 0x8F else 0xBF)
                     \<and> is_cont c2 0x80 0xBF \<and> is_cont c3 0x80 0xBF
                  then ((b0 mod 8) * 262144 + (of_char c1 mod 64) * 4096
                          + (of_char c2 mod 64) * 64 + of_char c3 mod 64, 4)
                  else (0xFFFD, 1)
              | _ \<Rightarrow> (0xFFFD, 1))
           else (0xFFFD, 1)))"

text \<open>
  The loop of \<open>range\<close>: the first rune, then the runes of what follows it. The width
  of a rune is at least one byte, so \<open>w - 1\<close> bytes are dropped after the first.
\<close>

fun runes_of :: "string \<Rightarrow> rune list" where
  "runes_of [] = []"
| "runes_of (c # cs) =
     fst (DecodeRune (c # cs)) # runes_of (drop (snd (DecodeRune (c # cs)) - 1) cs)"

text \<open>\<open>tea.Program.Send\<close> hands the message to the event loop.\<close>

definition Send :: "Msg \<Rightarrow> 'm Program \<Rightarrow> 'm Program" where
  "Send msg p = p\<lparr>sent := sent p @ [msg]\<rparr>"

text \<open>
  \<open>waitForViewChange\<close>: in each pass of its loop the \<open>select\<close> returns when the timer or
  the context is ready, and otherwise the view is read, the loop returns when it differs
  from the previous one, and sleeps for two milliseconds when it does not. The timer
  runs for the configured timeout and for at most one second, so it fires after
  finitely many passes: the passes given are those made until then, and when they are
  used up the timer case is taken. Every way out leaves the director as it is.
\<close>

fun waitForViewChange ::
  "'m REPLModel \<Rightarrow> string \<Rightarrow> poll list \<Rightarrow> 'm StageDirector \<Rightarrow> 'm StageDirector" where
  "waitForViewChange M previousView [] d = d"
| "waitForViewChange M previousView (p # ps) d =
     (case select_of p d of
        TimeoutCase \<Rightarrow> d
      | DoneCase \<Rightarrow> d
      | DefaultCase \<Rightarrow>
          (let currentView = getCurrentView M d in
           if currentView \<noteq> previousView then d
           else waitForViewChange M previousView ps (run_bg M (during_sleep p) d)))"

definition sendMessage ::
  "'m REPLModel \<Rightarrow> Msg \<Rightarrow> poll list \<Rightarrow> 'm StageDirector \<Rightarrow> 'm StageDirector" where
  "sendMessage M msg polls d =
     (case program d of
        None \<Rightarrow> d
      | Some p \<Rightarrow>
          (let currentView = getCurrentView M d;
               d1 = d\<lparr>program := Some (Send msg p)\<rparr>;
               d2 = waitForViewChange M currentView polls d1
           in captureSnapshot M ''interaction'' d2))"

text \<open>
  \<open>Type\<close>, here \<open>Type_text\<close> with its loop \<open>Type_loop\<close>, since \<open>Type\<close> is the field of a
  trip. Each keystroke comes with the passes of its wait for a view change and with the
  background activity during the sleep of \<open>TypingSpeed\<close> after it; for keystrokes beyond
  the end of the given list the timer of the wait fires at once and nothing happens
  during the sleep.
\<close>

fun Type_loop ::
  "'m REPLModel \<Rightarrow> rune list \<Rightarrow> (poll list \<times> bg list) list \<Rightarrow> 'm StageDirector \<Rightarrow> 'm StageDirector" where
  "Type_loop M [] sched d = d"
| "Type_loop M (char # rest) sched d =
     (let (polls, asleep) = (case sched of [] \<Rightarrow> ([], []) | s # _ \<Rightarrow> s);
          msg = KeyMsg KeyRunes [char];
          d1 = sendMessage M msg polls d;
          d2 = recordStageAction ''type'' (DString (string_of_rune char)) d1;
          d3 = (if TypingSpeed (config d2) > 0 then run_bg M asleep d2 else d2)
      in Type_loop M rest (tl sched) d3)"

definition Type_text ::
  "'m REPLModel \<Rightarrow> string \<Rightarrow> (poll list \<times> bg list) list \<Rightarrow> 'm StageDirector \<Rightarrow> 'm StageDirector" where
  "Type_text M text sched d = Type_loop M (runes_of text) sched d"

definition PressEnter :: "'m REPLModel \<Rightarrow> poll list \<Rightarrow> 'm StageDirector \<Rightarrow> 'm StageDirector" where
  "PressEnter M polls d =
     recordStageAction ''keypress'' (DString ''enter'') (sendMessage M (KeyMsg KeyEnter []) polls d)"

definition PressTab :: "'m REPLModel \<Rightarrow> poll list \<Rightarrow> 'm StageDirector \<Rightarrow> 'm StageDirector" where
  "PressTab M polls d =
     recordStageAction ''keypress'' (DString ''tab'') (sendMessage M (KeyMsg KeyTab []) polls d)"

definition PressArrowDown :: "'m REPLModel \<Rightarrow> poll list \<Rightarrow> 'm StageDirector \<Rightarrow> 'm StageDirector" where
  "PressArrowDown M polls d =
     recordStageAction ''keypress'' (DString ''down'') (sendMessage M (KeyMsg KeyDown []) polls d)"

definition PressArrowUp :: "'m REPLModel \<Rightarrow> poll list \<Rightarrow> 'm StageDirector \<Rightarrow> 'm StageDirector" where
  "PressArrowUp M polls d =
     recordStageAction ''keypress'' (DString ''up'') (sendMessage M (KeyMsg KeyUp []) polls d)"

definition PressEscape :: "'m REPLModel \<Rightarrow> poll list \<Rightarrow> 'm StageDirector \<Rightarrow> 'm StageDirector" where
  "PressEscape M polls d =
     recordStageAction ''keypress'' (DString ''escape'') (sendMessage M (KeyMsg KeyEsc []) polls d)"

definition PressBackspace :: "'m REPLModel \<Rightarrow> poll list \<Rightarrow> 'm StageDirector \<Rightarrow> 'm StageDirector" where
  "PressBackspace M polls d =
     recordStageAction ''keypress'' (DString ''backspace'')
       (sendMessage M (KeyMsg KeyBackspace []) polls d)"

text \<open>\<open>Wait\<close>: the sleep, during which the background goes on, then the records.\<close>

definition Wait :: "'m REPLModel \<Rightarrow> int \<Rightarrow> bg list \<Rightarrow> 'm StageDirector \<Rightarrow> 'm StageDirector" where
  "Wait M duration asleep d =
     captureSnapshot M ''wait'' (recordStageAction ''wait'' (DDuration duration) (run_bg M asleep d))"

subsection \<open>Assertions\<close>

definition AssertViewContains :: "'m REPLModel \<Rightarrow> string \<Rightarrow> 'm StageDirector \<Rightarrow> 'm StageDirector" where
  "AssertViewContains M text d =
     (let view = getCurrentView M d in
      if \<not> Contains view text
      then recordTrip (newStageTrip ''assertion'' (''View does not contain expected text: '' @ text)
                         [''expected'' \<mapsto> CtxString text, ''actual_view'' \<mapsto> CtxString view]) d
      else recordStageAction ''assertion'' (DString (''contains='' @ text)) d)"

definition AssertMode :: "'m REPLModel \<Rightarrow> string \<Rightarrow> 'm StageDirector \<Rightarrow> 'm StageDirector" where
  "AssertMode M expectedMode d =
     (let actualMode = getCurrentMode M d in
      if actualMode \<noteq> expectedMode
      then recordTrip (newStageTrip ''assertion''
                         (''Expected mode '' @ expectedMode @ '', got '' @ actualMode)
                         [''expected'' \<mapsto> CtxString expectedMode, ''actual'' \<mapsto> CtxString actualMode]) d
      else recordStageAction ''assertion'' (DString (''mode='' @ expectedMode)) d)"

definition AssertInputEquals :: "'m REPLModel \<Rightarrow> string \<Rightarrow> 'm StageDirector \<Rightarrow> 'm StageDirector" where
  "AssertInputEquals M expected d =
     (let actual = getCurrentInput M d in
      if actual \<noteq> expected
      then recordTrip (newStageTrip ''assertion''
                         (''Expected input '' @ [CHR 0x27] @ expected @ [CHR 0x27] @ '', got ''
                            @ [CHR 0x27] @ actual @ [CHR 0x27])
                         [''expected'' \<mapsto> CtxString expected, ''actual'' \<mapsto> CtxString actual]) d
      else recordStageAction ''assertion'' (DString (''input='' @ expected)) d)"

text \<open>
  \<open>AssertNoSearchResults\<close> calls \<open>CheckCondition\<close> on \<open>d.latestModel\<close> without a nil
  check; on a nil model the call panics, and the result is \<open>None\<close>. A nil context
  given to \<open>newStageTrip\<close> is copied as the empty map.
\<close>

definition AssertNoSearchResults :: "'m REPLModel \<Rightarrow> 'm StageDirector \<Rightarrow> 'm StageDirector option" where
  "AssertNoSearchResults M d =
     (case latestModel d of
        None \<Rightarrow> None
      | Some m \<Rightarrow>
          Some (if CheckCondition M m ''search_results''
                then recordTrip (newStageTrip ''assertion''
                                   ''Expected no search results, but found some'' Map.empty) d
                else recordStageAction ''assertion'' (DString ''no_search_results'') d))"

subsection \<open>Waiting for a condition\<close>

text \<open>
  The wait loops run over the passes that are given; \<open>None\<close> says that the loop is
  still polling when they are used up. The timer of such a wait runs for the whole
  configured timeout, which is also the timeout of the session context.
\<close>

fun WaitForMode_loop ::
  "'m REPLModel \<Rightarrow> string \<Rightarrow> poll list \<Rightarrow> 'm StageDirector \<Rightarrow> 'm StageDirector option" where
  "WaitForMode_loop M expectedMode [] d = None"
| "WaitForMode_loop M expectedMode (p # ps) d =
     (case select_of p d of
        TimeoutCase \<Rightarrow>
          Some (recordTrip
                  (newStageTrip ''WAIT_MODE_TIMEOUT''
                     (''Timeout waiting for mode '' @ [CHR 0x27] @ expectedMode @ [CHR 0x27])
                     [''expected_mode'' \<mapsto> CtxString expectedMode,
                      ''current_mode'' \<mapsto> CtxString (getCurrentMode M d)]) d)
      | DoneCase \<Rightarrow> Some d
      | DefaultCase \<Rightarrow>
          if getCurrentMode M d = expectedMode then Some d
          else WaitForMode_loop M expectedMode ps (run_bg M (during_sleep p) d))"

definition WaitForMode ::
  "'m REPLModel \<Rightarrow> string \<Rightarrow> poll list \<Rightarrow> 'm StageDirector \<Rightarrow> 'm StageDirector option" where
  "WaitForMode M expectedMode polls d =
     (if failed d then Some d else WaitForMode_loop M expectedMode polls d)"

fun WaitForSearchResults_loop ::
  "'m REPLModel \<Rightarrow> poll list \<Rightarrow> 'm StageDirector \<Rightarrow> 'm StageDirector option" where
  "WaitForSearchResults_loop M [] d = None"
| "WaitForSearchResults_loop M (p # ps) d =
     (case select_of p d of
        TimeoutCase \<Rightarrow>
          Some (recordTrip
                  (newStageTrip ''WAIT_RESULTS_TIMEOUT'' ''Timeout waiting for search results''
                     [''current_view'' \<mapsto> CtxString (truncateString (getCurrentView M d) 200)]) d)
      | DoneCase \<Rightarrow> Some d
      | DefaultCase \<Rightarrow>
          (let view = getCurrentView M d in
           if Contains view ''Live Results:'' \<or> Contains view ''Found''
           then Some (run_bg M (during_sleep p) d)
           else WaitForSearchResults_loop M ps (run_bg M (during_sleep p) d)))"

definition WaitForSearchResults ::
  "'m REPLModel \<Rightarrow> poll list \<Rightarrow> 'm StageDirector \<Rightarrow> 'm StageDirector option" where
  "WaitForSearchResults M polls d =
     (if failed d then Some d else WaitForSearchResults_loop M polls d)"

fun WaitForText_loop ::
  "'m REPLModel \<Rightarrow> string \<Rightarrow> poll list \<Rightarrow> 'm StageDirector \<Rightarrow> 'm StageDirector option" where
  "WaitForText_loop M text [] d = None"
| "WaitForText_loop M text (p # ps) d =
     (case select_of p d of
        TimeoutCase \<Rightarrow>
          Some (recordTrip
                  (newStageTrip ''WAIT_TEXT_TIMEOUT''
                     (''Timeout waiting for text '' @ [CHR 0x27] @ text @ [CHR 0x27])
                     [''expected_text'' \<mapsto> CtxString text,
                      ''current_view'' \<mapsto> CtxString (getCurrentView M d)]) d)
      | DoneCase \<Rightarrow> Some d
      | DefaultCase \<Rightarrow>
          if Contains (getCurrentView M d) text then Some d
          else WaitForText_loop M text ps (run_bg M (during_sleep p) d))"

definition WaitForText ::
  "'m REPLModel \<Rightarrow> string \<Rightarrow> poll list \<Rightarrow> 'm StageDirector \<Rightarrow> 'm StageDirector option" where
  "WaitForText M text polls d =
     (if failed d then Some d else WaitForText_loop M text polls d)"

subsection \<open>Stopping\<close>

text \<open>
  \<open>strings.ToLower\<close> replaces each rune of the string by its lower case and encodes the
  result, so that a byte which starts no valid encoding becomes U+FFFD.
  \<open>unicode.ToLower\<close> adds 32 to the ASCII letters \<open>A\<close> to \<open>Z\<close> and to the upper case
  letters of Latin-1, which are U+00C0 to U+00DE without the multiplication sign
  U+00D7. Beyond U+00FF it follows the case tables of the Unicode standard, which are
  not reproduced here: such a rune is left as it is, which is its lower case unless it
  is an upper case letter. The trip types of the director are ASCII.
\<close>

definition unicode_ToLower :: "rune \<Rightarrow> rune" where
  "unicode_ToLower r =
     (if (0x41 \<le> r \<and> r \<le> 0x5A) \<or> (0xC0 \<le> r \<and> r \<le> 0xDE \<and> r \<noteq> 0xD7) then r + 0x20
      else r)"

definition ToLower :: "string \<Rightarrow> string" where
  "ToLower s = string_of_runes (map unicode_ToLower (runes_of s))"

definition getErrorMessage :: "'m StageDirector \<Rightarrow> string" where
  "getErrorMessage d =
     (case lastTrip d of
        Some t \<Rightarrow> ''['' @ ToLower (Type t) @ ''] '' @ Message t
      | None \<Rightarrow> [])"

definition getError :: "'m StageDirector \<Rightarrow> string option" where
  "getError d =
     (case lastTrip d of
        Some t \<Rightarrow> Some (''['' @ Type t @ ''] '' @ Message t)
      | None \<Rightarrow> None)"

text \<open>
  \<open>StageResult\<close> without \<open>Duration\<close> (a clock reading) and without the two report
  strings \<open>ErrorDetails\<close> and \<open>TripReport\<close>, whose text follows the iteration order of
  Go maps. The field \<open>Error\<close> is called \<open>Error_of\<close> and holds the text of the error.
\<close>

record StageResult =
  Actions :: "StageAction list"
  Snapshots :: "StageSnapshot list"
  Success :: bool
  ErrorMessage :: string
  Error_of :: "string option"

definition Stop :: "'m REPLModel \<Rightarrow> 'm StageDirector \<Rightarrow> StageResult \<times> 'm StageDirector" where
  "Stop M d =
     (let d1 = (if CaptureViews (config d) \<and> started d
                then d\<lparr>snapshots := snapshots d @
                         [\<lparr>SView = getCurrentView M d, SMode = getCurrentMode M d,
                           SInput = getCurrentInput M d\<rparr>]\<rparr>
                else d);
          d2 = d1\<lparr>cancelled := True\<rparr>;
          d3 = (case program d2 of
                  None \<Rightarrow> d2
                | Some p \<Rightarrow> d2\<lparr>program := Some (p\<lparr>quit := True\<rparr>)\<rparr>);
          success = (\<not> failed d3 \<and> lastTrip d3 = None)
      in (\<lparr>Actions = interactions d3, Snapshots = snapshots d3, Success = success,
           ErrorMessage = getErrorMessage d3, Error_of = getError d3\<rparr>, d3))"

definition HasFailed :: "'m StageDirector \<Rightarrow> bool" where
  "HasFailed d = (failed d \<or> \<not> ShouldContinue (tripHandler d))"

subsection \<open>Starting\<close>

text \<open>
  \<open>waitForProgramReady\<close>: at most 50 passes, each through the same \<open>select\<close>; the
  result is the error, if any, and the director after the sleeps.
\<close>

fun waitForProgramReady ::
  "'m REPLModel \<Rightarrow> nat \<Rightarrow> poll list \<Rightarrow> 'm StageDirector
     \<Rightarrow> (string option \<times> 'm StageDirector) option" where
  "waitForProgramReady M 0 polls d = Some (Some ''program never became ready'', d)"
| "waitForProgramReady M (Suc n) [] d = None"
| "waitForProgramReady M (Suc n) (p # ps) d =
     (case select_of p d of
        TimeoutCase \<Rightarrow> Some (Some ''timeout waiting for program to be ready'', d)
      | DoneCase \<Rightarrow> Some (Some ''context cancelled while waiting for program'', d)
      | DefaultCase \<Rightarrow>
          if length (getCurrentView M d) > 0 then Some (None, d)
          else waitForProgramReady M n ps (run_bg M (during_sleep p) d))"

definition Start ::
  "'m REPLModel \<Rightarrow> poll list \<Rightarrow> 'm StageDirector \<Rightarrow> 'm StageDirector option" where
  "Start M polls d =
     (if started d then Some d
      else
        let wrappedModel = \<lparr>wrapped = dmodel d, director = True\<rparr>;
            d1 = d\<lparr>program := Some \<lparr>pmodel = Some wrappedModel, sent = [], handled = 0,
                                   quit = False\<rparr>\<rparr>
        in case waitForProgramReady M 50 polls d1 of
             None \<Rightarrow> None
           | Some (Some err, d2) \<Rightarrow>
               Some (recordTrip (newStageTrip ''STARTUP_FAILED'' err
                                   [''error'' \<mapsto> CtxString err]) d2)
           | Some (None, d2) \<Rightarrow>
               (let d3 = d2\<lparr>started := True\<rparr> in
                Some (if CaptureViews (config d3)
                      then d3\<lparr>snapshots := snapshots d3 @
                                 [\<lparr>SView = getCurrentView M d3, SMode = getCurrentMode M d3,
                                   SInput = getCurrentInput M d3\<rparr>]\<rparr>
                      else d3)))"

subsection \<open>A session\<close>

text \<open>
  A session is a sequence of calls on the director, each with the background activity
  and the \<open>select\<close> passes it meets, interleaved with activity of the background alone.
  A call whose wait loop is still polling at the end of its passes has no result, nor
  has one that panics, and then neither has the session. \<open>GetTripHandler\<close> returns
  the handler itself, so its \<open>Record\<close> is open to the caller; \<open>Call_Record\<close> is
  \<open>GetTripHandler().Record\<close>. \<open>recordTrip\<close> is not exported and is called from within
  the package.
\<close>

datatype call =
    Call_Start "poll list"
  | Call_Type string "(poll list \<times> bg list) list"
  | Call_PressEnter "poll list"
  | Call_PressTab "poll list"
  | Call_PressArrowDown "poll list"
  | Call_PressArrowUp "poll list"
  | Call_PressEscape "poll list"
  | Call_PressBackspace "poll list"
  | Call_Wait int "bg list"
  | Call_AssertViewContains string
  | Call_AssertMode string
  | Call_AssertInputEquals string
  | Call_AssertNoSearchResults
  | Call_WaitForMode string "poll list"
  | Call_WaitForSearchResults "poll list"
  | Call_WaitForText string "poll list"
  | Call_Record Trip
  | Call_recordTrip Trip
  | Call_Stop
  | Background "bg list"

fun exec :: "'m REPLModel \<Rightarrow> call \<Rightarrow> 'm StageDirector \<Rightarrow> 'm StageDirector option" where
  "exec M (Call_Start polls) d = Start M polls d"
| "exec M (Call_Type text sched) d = Some (Type_text M text sched d)"
| "exec M (Call_PressEnter bs) d = Some (PressEnter M bs d)"
| "exec M (Call_PressTab bs) d = Some (PressTab M bs d)"
| "exec M (Call_PressArrowDown bs) d = Some (PressArrowDown M bs d)"
| "exec M (Call_PressArrowUp bs) d = Some (PressArrowUp M bs d)"
| "exec M (Call_PressEscape bs) d = Some (PressEscape M bs d)"
| "exec M (Call_PressBackspace bs) d = Some (PressBackspace M bs d)"
| "exec M (Call_Wait duration bs) d = Some (Wait M duration bs d)"
| "exec M (Call_AssertViewContains text) d = Some (AssertViewContains M text d)"
| "exec M (Call_AssertMode expectedMode) d = Some (AssertMode M expectedMode d)"
| "exec M (Call_AssertInputEquals expected) d = Some (AssertInputEquals M expected d)"
| "exec M Call_AssertNoSearchResults d = AssertNoSearchResults M d"
| "exec M (Call_WaitForMode expectedMode polls) d = WaitForMode M expectedMode polls d"
| "exec M (Call_WaitForSearchResults polls) d = WaitForSearchResults M polls d"
| "exec M (Call_WaitForText text polls) d = WaitForText M text polls d"
| "exec M (Call_Record t) d = Some (d\<lparr>tripHandler := Record t (tripHandler d)\<rparr>)"
| "exec M (Call_recordTrip t) d = Some (recordTrip t d)"
| "exec M Call_Stop d = Some (snd (Stop M d))"
| "exec M (Background bs) d = Some (run_bg M bs d)"

fun session :: "'m REPLModel \<Rightarrow> call list \<Rightarrow> 'm StageDirector \<Rightarrow> 'm StageDirector option" where
  "session M [] d = Some d"
| "session M (c # cs) d = (case exec M c d of None \<Rightarrow> None | Some d' \<Rightarrow> session M cs d')"

subsection \<open>Passes and programs used in examples\<close>

text \<open>
  The director after the sleeps of the given passes, which is where a wait loop stands
  when none of them ended it.
\<close>

fun after_sleeps :: "'m REPLModel \<Rightarrow> poll list \<Rightarrow> 'm StageDirector \<Rightarrow> 'm StageDirector" where
  "after_sleeps M [] d = d"
| "after_sleeps M (p # ps) d = after_sleeps M ps (run_bg M (during_sleep p) d)"

text \<open>
  A pass on which nothing is ready and nothing happens, and passes at the deadline. The
  constructor gives the session context the timeout of the configuration, and a wait
  starts its own timer with the same timeout when it is called, which is later. So
  when the timer of a wait has fired, the context has expired as well and the \<open>select\<close>
  chooses: \<open>deadline_pass\<close> is the pass on which it takes the timer, and
  \<open>deadline_pass_done\<close> the one on which it takes the context. On \<open>context_first_pass\<close>
  the context has expired and the timer has not fired yet.
\<close>

definition quiet_pass :: poll where
  "quiet_pass = \<lparr>timer_fired = False, ctx_expired = False, pick_timer = False, during_sleep = []\<rparr>"

definition deadline_pass :: poll where
  "deadline_pass = \<lparr>timer_fired = True, ctx_expired = True, pick_timer = True, during_sleep = []\<rparr>"

definition deadline_pass_done :: poll where
  "deadline_pass_done =
     \<lparr>timer_fired = True, ctx_expired = True, pick_timer = False, during_sleep = []\<rparr>"

definition context_first_pass :: poll where
  "context_first_pass =
     \<lparr>timer_fired = False, ctx_expired = True, pick_timer = False, during_sleep = []\<rparr>"

text \<open>Driven programs whose \<open>Update\<close> panics, or returns nil.\<close>

definition PanickingREPL_model :: "MockREPL REPLModel" where
  "PanickingREPL_model = MockREPL_model\<lparr>Update := (\<lambda>m msg. Panics ''boom'')\<rparr>"

definition NilREPL_model :: "MockREPL REPLModel" where
  "NilREPL_model = MockREPL_model\<lparr>Update := (\<lambda>m msg. ReturnsNil)\<rparr>"

subsection \<open>Notions used to state the properties\<close>

text \<open>
  The runes that have an encoding of their own (Unicode scalar values), the messages
  that were given to \<open>Send\<close> so far, and the state in which program, consumer and
  harness agree: every message sent was handled, the queue is empty and has room, the
  wrapper has its director, \<open>latestModel\<close> is the model the program holds, and the
  consumer is not ahead of the sequence counter.
\<close>

definition valid_rune :: "rune \<Rightarrow> bool" where
  "valid_rune r = (0 \<le> r \<and> r \<le> 0x10FFFF \<and> \<not> (0xD800 \<le> r \<and> r \<le> 0xDFFF))"

definition sent_messages :: "'m StageDirector \<Rightarrow> Msg list" where
  "sent_messages d = (case program d of None \<Rightarrow> [] | Some p \<Rightarrow> sent p)"

definition in_sync :: "'m StageDirector \<Rightarrow> bool" where
  "in_sync d =
     (case program d of
        None \<Rightarrow> False
      | Some p \<Rightarrow>
          (case (pmodel p, modelChan d) of
             (Some w, Some ch) \<Rightarrow>
                \<not> quit p \<and> handled p = length (sent p) \<and> buf ch = [] \<and> 0 < cap ch
                \<and> director w \<and> latestModel d = Some (wrapped w)
                \<and> lastProcessedSeq d \<le>s updateSeq d
           | _ \<Rightarrow> False))"

text \<open>
  The background keeps up with a keystroke when, while \<open>Type\<close> waits for the view to
  change, the program handles the keystroke and the consumer then applies the update,
  and neither the timer of that wait has fired nor the context has expired on the
  passes up to then. \<open>caught_up\<close> says that a sleep sees both steps in this order;
  the flag of \<open>keeps_up\<close> says that the program has handled the keystroke already.
\<close>

definition caught_up :: "bg list \<Rightarrow> bool" where
  "caught_up bs = (ConsumerStep \<in> set (dropWhile (\<lambda>b. b \<noteq> ProgramStep) bs))"

fun keeps_up :: "bool \<Rightarrow> poll list \<Rightarrow> bool" where
  "keeps_up handled_already [] = False"
| "keeps_up handled_already (p # ps) =
     (\<not> timer_fired p \<and> \<not> ctx_expired p \<and>
      (if handled_already
       then ConsumerStep \<in> set (during_sleep p) \<or> keeps_up True ps
       else caught_up (during_sleep p)
            \<or> keeps_up (ProgramStep \<in> set (during_sleep p)) ps))"

text \<open>
  Every caller of \<open>recordTrip\<close> builds its trip with \<open>newStageTrip\<close> or \<open>trip.NewTrip\<close>,
  which give severity \<open>Error\<close>, or, in \<open>Operator.CaptureTrackingShot\<close>, with
  \<open>trip.NewFall\<close>. \<open>package_call\<close> says of a call of a session that it is no
  \<open>recordTrip\<close> of a \<open>Stumble\<close>.
\<close>

fun package_call :: "call \<Rightarrow> bool" where
  "package_call (Call_recordTrip t) = (Severity t \<noteq> Stumble)"
| "package_call c = True"

text \<open>
  What \<open>recordTrip\<close> maintains when it is given no \<open>Stumble\<close>: \<open>failed\<close> is set exactly
  when there is a last trip, and the last trip is no \<open>Stumble\<close> and is among the trips
  of the handler.
\<close>

definition trip_inv :: "'m StageDirector \<Rightarrow> bool" where
  "trip_inv d =
     (case lastTrip d of
        None \<Rightarrow> \<not> failed d
      | Some t \<Rightarrow> failed d \<and> Severity t \<noteq> Stumble \<and> t \<in> set (trips (tripHandler d)))"

text \<open>The director over \<open>MockREPL\<close> after a \<open>Start\<close> that found the program ready.\<close>

definition started_mock :: "MockREPL StageDirector" where
  "started_mock =
     (NewStageDirectorWithConfig NewMockREPL DefaultStageConfig)
       \<lparr>program := Some \<lparr>pmodel = Some \<lparr>wrapped = NewMockREPL, director = True\<rparr>,
                            sent = [], handled = 0, quit = False\<rparr>,
        started := True,
        snapshots := [\<lparr>SView = ''Mode: initial'' @ [CHR 0x0A] @ ''Input: '' @ [CHR 0x0A] @ ''> '',
                       SMode = ''initial'', SInput = []\<rparr>]\<rparr>"

text \<open>The same over \<open>SimpleREPL\<close>.\<close>

definition started_simple :: "SimpleREPL StageDirector" where
  "started_simple =
     (NewStageDirectorWithConfig NewSimpleREPL DefaultStageConfig)
       \<lparr>program := Some \<lparr>pmodel = Some \<lparr>wrapped = NewSimpleREPL, director = True\<rparr>,
                            sent = [], handled = 0, quit = False\<rparr>,
        started := True,
        snapshots := [\<lparr>SView = SimpleREPL_View NewSimpleREPL, SMode = ''input'', SInput = []\<rparr>]\<rparr>"

section \<open>The earlier director\<close>

text \<open>
  \<open>InteractiveTestDirector\<close>, the director that \<open>StageDirector\<close> was written from, as
  far as its \<open>Stop\<close> and its \<open>WaitForText\<close> read and write it. Its errors are \<open>TestError\<close> values; the last
  one is kept as the text of its \<open>Error()\<close>.
\<close>

record InteractiveTestDirector =
  itd_interactions :: "StageAction list"
  itd_snapshots :: "StageSnapshot list"
  itd_lastError :: "string option"
  itd_failed :: bool
  itd_cancelled :: bool
  itd_quit :: bool
  itd_started :: bool

definition InteractiveTestDirector_Stop ::
  "InteractiveTestDirector \<Rightarrow> StageResult \<times> InteractiveTestDirector" where
  "InteractiveTestDirector_Stop d =
     (if \<not> itd_started d
      then (\<lparr>Actions = [], Snapshots = [], Success = False,
             ErrorMessage = ''Test director was never started'', Error_of = None\<rparr>, d)
      else
        let d1 = d\<lparr>itd_cancelled := True, itd_quit := True\<rparr>;
            success = (\<not> itd_failed d1);
            errorMessage = (case itd_lastError d1 of None \<Rightarrow> [] | Some e \<Rightarrow> e)
        in (\<lparr>Actions = itd_interactions d1, Snapshots = itd_snapshots d1, Success = success,
             ErrorMessage = errorMessage, Error_of = itd_lastError d1\<rparr>, d1))"

text \<open>
  \<open>InteractiveTestDirector.WaitForText\<close>. Its \<open>select\<close> has the timer and a ticker of
  ten milliseconds, and no case for the context. A pass is the timer, or a tick; each
  comes with the view that \<open>getCurrentView\<close> returns on it. The error is a \<open>TestError\<close>
  of type \<open>timeout\<close>, whose \<open>Error()\<close> is the type, a colon and the message.
\<close>

datatype itd_pass = Itd_timer string | Itd_tick string

fun InteractiveTestDirector_WaitForText ::
  "string \<Rightarrow> itd_pass list \<Rightarrow> InteractiveTestDirector \<Rightarrow> InteractiveTestDirector option" where
  "InteractiveTestDirector_WaitForText text [] d = None"
| "InteractiveTestDirector_WaitForText text (Itd_timer currentView # ps) d =
     Some (d\<lparr>itd_lastError := Some (''timeout'' @ '': '' @ ''Timeout waiting for text ''
                                        @ [CHR 0x27] @ text @ [CHR 0x27]),
             itd_failed := True\<rparr>)"
| "InteractiveTestDirector_WaitForText text (Itd_tick view # ps) d =
     (if Contains view text
      then Some (d\<lparr>itd_interactions := itd_interactions d @
                       [\<lparr>ActionType = ''wait_condition'', Details = DString (''text='' @ text),
                         Result = None\<rparr>]\<rparr>)
      else InteractiveTestDirector_WaitForText text ps d)"

section \<open>Properties of the consumer\<close>

lemma sint_succ_no_wrap:
  fixes a s :: int64
  assumes "sint a < sint s"
  shows "sint (a + 1) = sint a + 1"
proof -
  have "sint s < 2 ^ 63"
    using sint_lt [of s] by simp
  moreover have "- (2 ^ 63) \<le> sint a"
    using sint_ge [of a] by simp
  ultimately have "- (2 ^ 63) \<le> sint a + 1" and "sint a + 1 < 2 ^ 63"
    using assms by linarith+
  then have "signed_take_bit 63 (sint a + 1) = sint a + 1"
    by (simp add: signed_take_bit_int_eq_self)
  then show ?thesis
    by (simp add: sint_word_add)
qed

lemma step_duplicate:
  "sint (sequence u) \<le> sint (lastProcessedSeq d) \<Longrightarrow>
   syncModelUpdates_step u d = d\<lparr>duplicateUpdates := duplicateUpdates d + 1\<rparr>"
  by (simp add: syncModelUpdates_step_def word_sle_eq)

lemma step_gap:
  assumes "sint (lastProcessedSeq d) + 1 < sint (sequence u)"
  shows "syncModelUpdates_step u d =
           d\<lparr>sequenceGaps := sequenceGaps d + 1,
             latestModel := Some (model u),
             lastProcessedSeq := sequence u,
             updatesProcessed := updatesProcessed d + 1\<rparr>"
proof -
  from assms have lt: "sint (lastProcessedSeq d) < sint (sequence u)"
    by simp
  then have "sint (lastProcessedSeq d + 1) = sint (lastProcessedSeq d) + 1"
    by (rule sint_succ_no_wrap)
  with assms lt show ?thesis
    by (simp add: syncModelUpdates_step_def word_sle_eq word_sless_alt)
qed

lemma step_next:
  assumes "sint (sequence u) = sint (lastProcessedSeq d) + 1"
  shows "syncModelUpdates_step u d =
           d\<lparr>latestModel := Some (model u),
             lastProcessedSeq := sequence u,
             updatesProcessed := updatesProcessed d + 1\<rparr>"
proof -
  from assms have lt: "sint (lastProcessedSeq d) < sint (sequence u)"
    by simp
  then have "sint (lastProcessedSeq d + 1) = sint (lastProcessedSeq d) + 1"
    by (rule sint_succ_no_wrap)
  with assms lt show ?thesis
    by (simp add: syncModelUpdates_step_def word_sle_eq word_sless_alt)
qed

text \<open>
  Claim C1. For an update with sequence number \<open>s\<close> taken from the queue: if \<open>s\<close> is at
  most \<open>lastProcessedSeq\<close> the consumer adds one to \<open>duplicateUpdates\<close> and changes
  nothing else; if \<open>s\<close> is greater than \<open>lastProcessedSeq + 1\<close> it adds one to
  \<open>sequenceGaps\<close> and applies the update; otherwise it applies the update and touches
  neither counter. Applying sets \<open>latestModel\<close> to the update's model,
  \<open>lastProcessedSeq\<close> to \<open>s\<close> and adds one to \<open>updatesProcessed\<close>. Processing sequence 5
  and then sequence 3 (from a state that has not yet reached 5) leaves \<open>latestModel\<close>
  at the model of sequence 5 and adds exactly one to \<open>duplicateUpdates\<close>. The numbers
  are compared as the signed integers they are.
\<close>

theorem C1_consumer_step:
  "(sint (sequence u) \<le> sint (lastProcessedSeq d) \<longrightarrow>
      syncModelUpdates_step u d = d\<lparr>duplicateUpdates := duplicateUpdates d + 1\<rparr>) \<and>
   (sint (lastProcessedSeq d) + 1 < sint (sequence u) \<longrightarrow>
      syncModelUpdates_step u d =
        d\<lparr>sequenceGaps := sequenceGaps d + 1,
          latestModel := Some (model u),
          lastProcessedSeq := sequence u,
          updatesProcessed := updatesProcessed d + 1\<rparr>) \<and>
   (sint (sequence u) = sint (lastProcessedSeq d) + 1 \<longrightarrow>
      syncModelUpdates_step u d =
        d\<lparr>latestModel := Some (model u),
          lastProcessedSeq := sequence u,
          updatesProcessed := updatesProcessed d + 1\<rparr>) \<and>
   (sint (lastProcessedSeq d) < 5 \<longrightarrow>
      latestModel (syncModelUpdates [\<lparr>model = m5, sequence = 5\<rparr>, \<lparr>model = m3, sequence = 3\<rparr>] d)
        = Some m5 \<and>
      lastProcessedSeq (syncModelUpdates [\<lparr>model = m5, sequence = 5\<rparr>, \<lparr>model = m3, sequence = 3\<rparr>] d)
        = 5 \<and>
      duplicateUpdates (syncModelUpdates [\<lparr>model = m5, sequence = 5\<rparr>, \<lparr>model = m3, sequence = 3\<rparr>] d)
        = duplicateUpdates d + 1)"
proof (intro conjI impI)
  assume "sint (sequence u) \<le> sint (lastProcessedSeq d)"
  then show "syncModelUpdates_step u d = d\<lparr>duplicateUpdates := duplicateUpdates d + 1\<rparr>"
    by (rule step_duplicate)
next
  assume "sint (lastProcessedSeq d) + 1 < sint (sequence u)"
  then show "syncModelUpdates_step u d =
        d\<lparr>sequenceGaps := sequenceGaps d + 1,
          latestModel := Some (model u),
          lastProcessedSeq := sequence u,
          updatesProcessed := updatesProcessed d + 1\<rparr>"
    by (rule step_gap)
next
  assume "sint (sequence u) = sint (lastProcessedSeq d) + 1"
  then show "syncModelUpdates_step u d =
        d\<lparr>latestModel := Some (model u),
          lastProcessedSeq := sequence u,
          updatesProcessed := updatesProcessed d + 1\<rparr>"
    by (rule step_next)
next
  assume lt: "sint (lastProcessedSeq d) < 5"
  let ?u5 = "\<lparr>model = m5, sequence = 5 :: int64\<rparr>"
  let ?u3 = "\<lparr>model = m3, sequence = 3 :: int64\<rparr>"
  let ?d1 = "syncModelUpdates_step ?u5 d"
  from lt have a: "latestModel ?d1 = Some m5"
    and b: "lastProcessedSeq ?d1 = 5"
    and c: "duplicateUpdates ?d1 = duplicateUpdates d"
    by (simp_all add: syncModelUpdates_step_def word_sle_eq Let_def)
  from b have dup: "syncModelUpdates_step ?u3 ?d1 = ?d1\<lparr>duplicateUpdates := duplicateUpdates ?d1 + 1\<rparr>"
    by (intro step_duplicate) simp
  show "latestModel (syncModelUpdates [?u5, ?u3] d) = Some m5"
    using a dup by simp
  show "lastProcessedSeq (syncModelUpdates [?u5, ?u3] d) = 5"
    using b dup by simp
  show "duplicateUpdates (syncModelUpdates [?u5, ?u3] d) = duplicateUpdates d + 1"
    using c dup by simp
qed

theorem C1_consumer_step_witness:
  "syncModelUpdates_step \<lparr>model = ''b'', sequence = 0\<rparr> (NewStageDirectorWithConfig ''a'' DefaultStageConfig)
     = (NewStageDirectorWithConfig ''a'' DefaultStageConfig)\<lparr>duplicateUpdates := 1\<rparr> \<and>
   syncModelUpdates_step \<lparr>model = ''b'', sequence = 7\<rparr> (NewStageDirectorWithConfig ''a'' DefaultStageConfig)
     = (NewStageDirectorWithConfig ''a'' DefaultStageConfig)
         \<lparr>sequenceGaps := 1, latestModel := Some ''b'', lastProcessedSeq := 7, updatesProcessed := 1\<rparr> \<and>
   syncModelUpdates_step \<lparr>model = ''b'', sequence = 1\<rparr> (NewStageDirectorWithConfig ''a'' DefaultStageConfig)
     = (NewStageDirectorWithConfig ''a'' DefaultStageConfig)
         \<lparr>latestModel := Some ''b'', lastProcessedSeq := 1, updatesProcessed := 1\<rparr> \<and>
   latestModel (syncModelUpdates [\<lparr>model = ''five'', sequence = 5\<rparr>, \<lparr>model = ''three'', sequence = 3\<rparr>]
      (NewStageDirectorWithConfig ''a'' DefaultStageConfig)) = Some ''five'' \<and>
   duplicateUpdates (syncModelUpdates [\<lparr>model = ''five'', sequence = 5\<rparr>, \<lparr>model = ''three'', sequence = 3\<rparr>]
      (NewStageDirectorWithConfig ''a'' DefaultStageConfig)) = 1"
  using C1_consumer_step [of "\<lparr>model = ''b'', sequence = 0\<rparr>" "NewStageDirectorWithConfig ''a'' DefaultStageConfig" "''five''" "''three''"]
        C1_consumer_step [of "\<lparr>model = ''b'', sequence = 7\<rparr>" "NewStageDirectorWithConfig ''a'' DefaultStageConfig" "''five''" "''three''"]
        C1_consumer_step [of "\<lparr>model = ''b'', sequence = 1\<rparr>" "NewStageDirectorWithConfig ''a'' DefaultStageConfig" "''five''" "''three''"]
  by (simp add: NewStageDirectorWithConfig_def)

subsection \<open>The invariant of the synchronized state\<close>

lemma step_stale:
  "sint (sequence u) \<le> sint (lastProcessedSeq d) \<Longrightarrow>
   latestModel (syncModelUpdates_step u d) = latestModel d \<and>
   lastProcessedSeq (syncModelUpdates_step u d) = lastProcessedSeq d"
  by (simp add: syncModelUpdates_step_def word_sle_eq)

lemma step_newer:
  "sint (lastProcessedSeq d) < sint (sequence u) \<Longrightarrow>
   latestModel (syncModelUpdates_step u d) = Some (model u) \<and>
   lastProcessedSeq (syncModelUpdates_step u d) = sequence u"
  by (simp add: syncModelUpdates_step_def word_sle_eq Let_def)

lemma step_mono: "sint (lastProcessedSeq d) \<le> sint (lastProcessedSeq (syncModelUpdates_step u d))"
proof (cases "sint (sequence u) \<le> sint (lastProcessedSeq d)")
  case True
  then show ?thesis using step_stale [of u d] by simp
next
  case False
  then show ?thesis using step_newer [of d u] by simp
qed

lemma run_mono: "sint (lastProcessedSeq d) \<le> sint (lastProcessedSeq (syncModelUpdates us d))"
proof (induction us arbitrary: d)
  case Nil
  show ?case by simp
next
  case (Cons u us)
  have "sint (lastProcessedSeq d) \<le> sint (lastProcessedSeq (syncModelUpdates_step u d))"
    by (rule step_mono)
  also have "\<dots> \<le> sint (lastProcessedSeq (syncModelUpdates us (syncModelUpdates_step u d)))"
    by (rule Cons.IH)
  finally show ?case by simp
qed

lemma run_append: "syncModelUpdates (xs @ ys) d = syncModelUpdates ys (syncModelUpdates xs d)"
  by (induction xs arbitrary: d) simp_all

lemma run_none_newer:
  "\<forall>u\<in>set us. sint (sequence u) \<le> sint (lastProcessedSeq d) \<Longrightarrow>
   latestModel (syncModelUpdates us d) = latestModel d \<and>
   lastProcessedSeq (syncModelUpdates us d) = lastProcessedSeq d"
proof (induction us arbitrary: d)
  case Nil
  show ?case by simp
next
  case (Cons u us)
  from Cons.prems have st: "sint (sequence u) \<le> sint (lastProcessedSeq d)" by simp
  note s = step_stale [OF st]
  from Cons.prems s have "\<forall>v\<in>set us. sint (sequence v) \<le> sint (lastProcessedSeq (syncModelUpdates_step u d))"
    by simp
  from Cons.IH [OF this] s show ?case by simp
qed

lemma run_some_newer:
  "\<exists>u\<in>set us. sint (lastProcessedSeq d) < sint (sequence u) \<Longrightarrow>
   \<exists>u\<in>set us. latestModel (syncModelUpdates us d) = Some (model u) \<and>
               lastProcessedSeq (syncModelUpdates us d) = sequence u \<and>
               (\<forall>v\<in>set us. sint (sequence v) \<le> sint (sequence u))"
proof (induction us arbitrary: d)
  case Nil
  then show ?case by simp
next
  case (Cons u us)
  let ?d1 = "syncModelUpdates_step u d"
  show ?case
  proof (cases "\<exists>v\<in>set us. sint (lastProcessedSeq ?d1) < sint (sequence v)")
    case True
    from Cons.IH [OF True] obtain w where w: "w \<in> set us"
      "latestModel (syncModelUpdates us ?d1) = Some (model w)"
      "lastProcessedSeq (syncModelUpdates us ?d1) = sequence w"
      "\<forall>v\<in>set us. sint (sequence v) \<le> sint (sequence w)"
      by blast
    have "sint (lastProcessedSeq ?d1) \<le> sint (sequence w)"
      using run_mono [of ?d1 us] w(3) by simp
    moreover have "sint (sequence u) \<le> sint (lastProcessedSeq ?d1)"
      using step_stale [of u d] step_newer [of d u] by (cases "sint (sequence u) \<le> sint (lastProcessedSeq d)") simp_all
    ultimately have "sint (sequence u) \<le> sint (sequence w)" by simp
    with w show ?thesis by auto
  next
    case False
    then have all: "\<forall>v\<in>set us. sint (sequence v) \<le> sint (lastProcessedSeq ?d1)"
      by (simp add: not_less)
    note r = run_none_newer [OF all]
    have nu: "sint (lastProcessedSeq d) < sint (sequence u)"
    proof (rule ccontr)
      assume "\<not> ?thesis"
      then have st: "sint (sequence u) \<le> sint (lastProcessedSeq d)" by simp
      from step_stale [OF st] all have "\<forall>v\<in>set (u # us). sint (sequence v) \<le> sint (lastProcessedSeq d)"
        using st by simp
      with Cons.prems show False by (auto simp: not_less [symmetric])
    qed
    note n = step_newer [OF nu]
    from r n all show ?thesis by simp
  qed
qed

text \<open>
  Claim C3. \<open>lastProcessedSeq\<close> never decreases: not over one step of the consumer, and
  not from the state after some updates to the state after more of them, so a reader
  of \<open>latestModel\<close> never sees the state of a lower sequence number after that of a
  higher one. After the consumer has processed the updates \<open>us\<close>: if one of them is
  newer than the sequence number it started from, \<open>latestModel\<close> is the model of an
  update of \<open>us\<close> whose sequence number is the highest of all and equals
  \<open>lastProcessedSeq\<close>; if none is, the cell is as it was.
\<close>

theorem C3_consumer_invariant:
  "sint (lastProcessedSeq d) \<le> sint (lastProcessedSeq (syncModelUpdates_step u d)) \<and>
   sint (lastProcessedSeq (syncModelUpdates xs d)) \<le> sint (lastProcessedSeq (syncModelUpdates (xs @ ys) d)) \<and>
   ((\<exists>u\<in>set us. sint (lastProcessedSeq d) < sint (sequence u)) \<longrightarrow>
      (\<exists>u\<in>set us. latestModel (syncModelUpdates us d) = Some (model u) \<and>
                   lastProcessedSeq (syncModelUpdates us d) = sequence u \<and>
                   (\<forall>v\<in>set us. sint (sequence v) \<le> sint (sequence u)))) \<and>
   ((\<forall>u\<in>set us. sint (sequence u) \<le> sint (lastProcessedSeq d)) \<longrightarrow>
      latestModel (syncModelUpdates us d) = latestModel d \<and>
      lastProcessedSeq (syncModelUpdates us d) = lastProcessedSeq d)"
  using step_mono [of d u] run_mono [of "syncModelUpdates xs d" ys] run_append [of xs ys d]
        run_some_newer [of us d] run_none_newer [of us d]
  by simp


theorem C3_consumer_invariant_witness:
  "latestModel (syncModelUpdates [\<lparr>model = ''x'', sequence = 2\<rparr>, \<lparr>model = ''y'', sequence = 1\<rparr>]
      (NewStageDirectorWithConfig ''a'' DefaultStageConfig)) = Some ''x'' \<and>
   lastProcessedSeq (syncModelUpdates [\<lparr>model = ''x'', sequence = 2\<rparr>, \<lparr>model = ''y'', sequence = 1\<rparr>]
      (NewStageDirectorWithConfig ''a'' DefaultStageConfig)) = 2 \<and>
   latestModel (syncModelUpdates [\<lparr>model = ''z'', sequence = 0\<rparr>]
      (NewStageDirectorWithConfig ''a'' DefaultStageConfig)) = Some ''a'' \<and>
   lastProcessedSeq (syncModelUpdates [\<lparr>model = ''z'', sequence = 0\<rparr>]
      (NewStageDirectorWithConfig ''a'' DefaultStageConfig)) = 0"
  using C3_consumer_invariant
          [of "NewStageDirectorWithConfig ''a'' DefaultStageConfig" "\<lparr>model = ''x'', sequence = 2\<rparr>"
              "[]" "[]" "[\<lparr>model = ''x'', sequence = 2\<rparr>, \<lparr>model = ''y'', sequence = 1\<rparr>]"]
        C3_consumer_invariant
          [of "NewStageDirectorWithConfig ''a'' DefaultStageConfig" "\<lparr>model = ''x'', sequence = 2\<rparr>"
              "[]" "[]" "[\<lparr>model = ''z'', sequence = 0\<rparr>]"]
  by (auto simp: NewStageDirectorWithConfig_def)

section \<open>Properties of the interception wrapper\<close>

text \<open>
  Claim C2. When the driven program's \<open>Update\<close> returns a \<open>REPLModel\<close> and the wrapper
  has its director and the director its channel, the wrapper never waits: it adds one
  to the one counter \<open>updateSeq\<close> and stamps the update with the new value; if the
  queue is full the update is dropped, \<open>bufferOverflows\<close> and \<open>droppedUpdates\<close> each
  grow by one and \<open>updatesSent\<close> and the queue stay as they were; if the queue has room
  the update is put at its end and \<open>updatesSent\<close> grows by one. Nothing else changes.
\<close>

theorem C2_publish_nonblocking:
  assumes "Update M (wrapped w) msg = Returns m'" and "director w" and "modelChan d = Some ch"
  shows "fst (Update_wrapper M w msg d) = Some \<lparr>wrapped = m', director = True\<rparr> \<and>
         updateSeq (snd (Update_wrapper M w msg d)) = updateSeq d + 1 \<and>
         (cap ch \<le> length (buf ch) \<longrightarrow>
            snd (Update_wrapper M w msg d) =
              d\<lparr>updateSeq := updateSeq d + 1,
                bufferOverflows := bufferOverflows d + 1,
                droppedUpdates := droppedUpdates d + 1\<rparr> \<and>
            modelChan (snd (Update_wrapper M w msg d)) = Some ch \<and>
            updatesSent (snd (Update_wrapper M w msg d)) = updatesSent d) \<and>
         (length (buf ch) < cap ch \<longrightarrow>
            snd (Update_wrapper M w msg d) =
              d\<lparr>updateSeq := updateSeq d + 1,
                modelChan := Some (ch\<lparr>buf := buf ch @ [\<lparr>model = m', sequence = updateSeq d + 1\<rparr>]\<rparr>),
                updatesSent := updatesSent d + 1\<rparr> \<and>
            bufferOverflows (snd (Update_wrapper M w msg d)) = bufferOverflows d \<and>
            droppedUpdates (snd (Update_wrapper M w msg d)) = droppedUpdates d)"
  using assms by (simp add: Update_wrapper_def Let_def)

theorem C2_publish_nonblocking_witness:
  "snd (Update_wrapper MockREPL_model \<lparr>wrapped = NewMockREPL, director = True\<rparr> (KeyMsg KeyRunes [0x68])
          (NewStageDirectorWithConfig NewMockREPL DefaultStageConfig))
     = (NewStageDirectorWithConfig NewMockREPL DefaultStageConfig)
          \<lparr>updateSeq := 1,
            modelChan := Some \<lparr>buf = [\<lparr>model = NewMockREPL\<lparr>input := ''h'', mode := ''typing''\<rparr>, sequence = 1\<rparr>], cap = 50\<rparr>,
            updatesSent := 1\<rparr> \<and>
   snd (Update_wrapper MockREPL_model \<lparr>wrapped = NewMockREPL, director = True\<rparr> (KeyMsg KeyEnter [])
          ((NewStageDirectorWithConfig NewMockREPL DefaultStageConfig)\<lparr>modelChan := Some \<lparr>buf = [\<lparr>model = NewMockREPL, sequence = 1\<rparr>], cap = 1\<rparr>\<rparr>))
     = (NewStageDirectorWithConfig NewMockREPL DefaultStageConfig)
          \<lparr>modelChan := Some \<lparr>buf = [\<lparr>model = NewMockREPL, sequence = 1\<rparr>], cap = 1\<rparr>, updateSeq := 1, bufferOverflows := 1, droppedUpdates := 1\<rparr>"
proof -
  let ?w = "\<lparr>wrapped = NewMockREPL, director = True\<rparr>"
  let ?d = "NewStageDirectorWithConfig NewMockREPL DefaultStageConfig"
  have u1: "Update MockREPL_model (wrapped ?w) (KeyMsg KeyRunes [0x68])
              = Returns (NewMockREPL\<lparr>input := ''h'', mode := ''typing''\<rparr>)"
    by (simp add: MockREPL_model_def MockREPL_Update_def NewMockREPL_def
          string_of_runes_def string_of_rune_def char_of_def)
  have u2: "Update MockREPL_model (wrapped ?w) (KeyMsg KeyEnter [])
              = Returns (NewMockREPL\<lparr>output_text := ''processed: '', mode := ''result'', input := []\<rparr>)"
    by (simp add: MockREPL_model_def MockREPL_Update_def NewMockREPL_def)
  have dw: "director ?w" by simp
  have c1: "modelChan ?d = Some \<lparr>buf = [], cap = 50\<rparr>"
    by (simp add: NewStageDirectorWithConfig_def)
  have c2: "modelChan (?d\<lparr>modelChan := Some \<lparr>buf = [\<lparr>model = NewMockREPL, sequence = 1\<rparr>], cap = 1\<rparr>\<rparr>) = Some \<lparr>buf = [\<lparr>model = NewMockREPL, sequence = 1\<rparr>], cap = 1\<rparr>"
    by simp
  from C2_publish_nonblocking [OF u1 dw c1] C2_publish_nonblocking [OF u2 dw c2]
  show ?thesis
    by (simp add: NewStageDirectorWithConfig_def)
qed
section \<open>The failed flag and the waits\<close>

text \<open>No operation of a session clears the \<open>failed\<close> flag.\<close>

lemma failed_recordTrip: "failed d \<Longrightarrow> failed (recordTrip t d)"
  by (simp add: recordTrip_def Let_def)

lemma failed_recordStageAction: "failed (recordStageAction a x d) = failed d"
  by (simp add: recordStageAction_def)

lemma failed_captureSnapshot: "failed (captureSnapshot M r d) = failed d"
  by (simp add: captureSnapshot_def)

lemma failed_captureErrorSnapshot: "failed (captureErrorSnapshot M a b d) = failed d"
  by (simp add: captureErrorSnapshot_def Let_def)

lemma failed_handleModelPanic: "failed d \<Longrightarrow> failed (handleModelPanic M r msg d)"
  by (simp add: handleModelPanic_def Let_def failed_recordTrip failed_captureErrorSnapshot)

lemma failed_handleInvalidModelState: "failed d \<Longrightarrow> failed (handleInvalidModelState M r msg d)"
  by (simp add: handleInvalidModelState_def Let_def failed_recordTrip failed_captureErrorSnapshot)

lemma failed_Update_wrapper: "failed d \<Longrightarrow> failed (snd (Update_wrapper M w msg d))"
  by (simp add: Update_wrapper_def Let_def failed_handleModelPanic failed_handleInvalidModelState
           split: update_result.splits option.splits)

lemma failed_program_step: "failed d \<Longrightarrow> failed (program_step M d)"
proof -
  assume f: "failed d"
  show ?thesis
  proof (cases "program d")
    case None
    with f show ?thesis by (simp add: program_step_def)
  next
    case (Some p)
    show ?thesis
    proof (cases "pmodel p")
      case None
      with Some f show ?thesis by (simp add: program_step_def)
    next
      case (Some w)
      obtain w' d' where u: "Update_wrapper M w (sent p ! handled p) d = (w', d')"
        by (cases "Update_wrapper M w (sent p ! handled p) d")
      with failed_Update_wrapper [OF f, of M w "sent p ! handled p"] have "failed d'" by simp
      with \<open>program d = Some p\<close> Some u f show ?thesis by (simp add: program_step_def)
    qed
  qed
qed

lemma failed_syncModelUpdates_step: "failed (syncModelUpdates_step u d) = failed d"
  by (simp add: syncModelUpdates_step_def Let_def)

lemma failed_consumer_step: "failed (consumer_step d) = failed d"
  by (simp add: consumer_step_def failed_syncModelUpdates_step split: option.splits list.splits)

lemma failed_run_bg: "failed d \<Longrightarrow> failed (run_bg M bs d)"
  by (induction M bs d rule: run_bg.induct) (simp_all add: failed_program_step failed_consumer_step)

lemma failed_waitForViewChange: "failed d \<Longrightarrow> failed (waitForViewChange M v ps d)"
  by (induction M v ps d rule: waitForViewChange.induct)
     (auto simp: Let_def failed_run_bg split: select_case.splits)

lemma failed_sendMessage: "failed d \<Longrightarrow> failed (sendMessage M msg ps d)"
  by (simp add: sendMessage_def Let_def failed_captureSnapshot failed_waitForViewChange
           split: option.splits)

lemma failed_Type_loop: "failed d \<Longrightarrow> failed (Type_loop M rs sched d)"
proof (induction rs arbitrary: sched d)
  case Nil
  then show ?case by simp
next
  case (Cons r rs)
  obtain mw asl where s: "(case sched of [] \<Rightarrow> ([], []) | s # _ \<Rightarrow> s) = (mw, asl)"
    by (cases "case sched of [] \<Rightarrow> ([], []) | s # _ \<Rightarrow> s")
  have "failed (recordStageAction ''type'' (DString (string_of_rune r)) (sendMessage M (KeyMsg KeyRunes [r]) mw d))"
    using Cons.prems by (simp add: failed_recordStageAction failed_sendMessage)
  then show ?case
    using s by (simp add: Let_def Cons.IH failed_run_bg)
qed

lemma failed_wait_loops:
  "failed d \<Longrightarrow> WaitForMode M e polls d = Some d"
  "failed d \<Longrightarrow> WaitForText M text polls d = Some d"
  "failed d \<Longrightarrow> WaitForSearchResults M polls d = Some d"
  by (simp_all add: WaitForMode_def WaitForText_def WaitForSearchResults_def)

lemma failed_waitForProgramReady:
  "failed d \<Longrightarrow> waitForProgramReady M n polls d = Some (e, d') \<Longrightarrow> failed d'"
  by (induction M n polls d rule: waitForProgramReady.induct)
     (auto simp: failed_run_bg split: select_case.splits if_splits)

lemma failed_Start: "failed d \<Longrightarrow> Start M polls d = Some d' \<Longrightarrow> failed d'"
  by (auto simp: Start_def Let_def failed_recordTrip split: if_splits option.splits prod.splits
           dest!: failed_waitForProgramReady [rotated])

lemma failed_Stop: "failed d \<Longrightarrow> failed (snd (Stop M d))"
  by (simp add: Stop_def Let_def split: option.splits)

lemma failed_asserts:
  "failed d \<Longrightarrow> failed (AssertViewContains M text d)"
  "failed d \<Longrightarrow> failed (AssertMode M e d)"
  "failed d \<Longrightarrow> failed (AssertInputEquals M e d)"
  by (simp_all add: AssertViewContains_def AssertMode_def AssertInputEquals_def Let_def
        failed_recordTrip failed_recordStageAction)

lemma failed_AssertNoSearchResults:
  "failed d \<Longrightarrow> AssertNoSearchResults M d = Some d' \<Longrightarrow> failed d'"
  by (auto simp: AssertNoSearchResults_def failed_recordTrip failed_recordStageAction
           split: option.splits)

lemma failed_exec: "failed d \<Longrightarrow> exec M c d = Some d' \<Longrightarrow> failed d'"
  by (cases c)
     (auto simp: failed_wait_loops failed_asserts failed_Stop failed_recordTrip failed_run_bg
        failed_Type_loop Type_text_def PressEnter_def PressTab_def PressArrowDown_def PressArrowUp_def
        PressEscape_def PressBackspace_def Wait_def failed_recordStageAction failed_sendMessage
        failed_captureSnapshot dest: failed_Start failed_AssertNoSearchResults)

lemma failed_session: "failed d \<Longrightarrow> session M cs d = Some d' \<Longrightarrow> failed d'"
proof (induction cs arbitrary: d)
  case Nil
  then show ?case by simp
next
  case (Cons c cs)
  then show ?case
    by (auto split: option.splits dest: failed_exec)
qed

lemma recordTrip_sets_failed: "Severity t \<noteq> Stumble \<Longrightarrow> failed (recordTrip t d)"
  by (simp add: recordTrip_def Let_def CanRecover_def IsFall_def)

text \<open>
  Claim C7. After a trip of severity \<open>Fall\<close> has been recorded, and after whatever calls
  and background activity follow it, each of \<open>WaitForMode\<close>, \<open>WaitForText\<close> and
  \<open>WaitForSearchResults\<close> returns at once: its result does not depend on the passes of
  its loop (it is there even when no pass is given), and it is the director unchanged,
  so no further trip is recorded.
\<close>

theorem C7_fall_halts_waits:
  assumes "Severity t = Fall" and "session M cs (recordTrip t d) = Some d'"
  shows "WaitForMode M expectedMode polls d' = Some d' \<and>
         WaitForText M text polls d' = Some d' \<and>
         WaitForSearchResults M polls d' = Some d'"
proof -
  from assms(1) have "failed (recordTrip t d)"
    by (intro recordTrip_sets_failed) simp
  from this assms(2) have "failed d'"
    by (rule failed_session)
  then show ?thesis
    by (simp add: failed_wait_loops)
qed


theorem C7_fall_halts_waits_witness:
  "Severity (NewFall ''visual'' ''Camera seizure during frame capture'' Map.empty) = Fall \<and>
   session MockREPL_model [Call_AssertMode ''initial'']
     (recordTrip (NewFall ''visual'' ''Camera seizure during frame capture'' Map.empty)
        (NewStageDirectorWithConfig NewMockREPL DefaultStageConfig))
     = Some (AssertMode MockREPL_model ''initial''
              (recordTrip (NewFall ''visual'' ''Camera seizure during frame capture'' Map.empty)
                 (NewStageDirectorWithConfig NewMockREPL DefaultStageConfig))) \<and>
   WaitForMode MockREPL_model ''anything'' []
     (AssertMode MockREPL_model ''initial''
        (recordTrip (NewFall ''visual'' ''Camera seizure during frame capture'' Map.empty)
           (NewStageDirectorWithConfig NewMockREPL DefaultStageConfig)))
     = Some (AssertMode MockREPL_model ''initial''
        (recordTrip (NewFall ''visual'' ''Camera seizure during frame capture'' Map.empty)
           (NewStageDirectorWithConfig NewMockREPL DefaultStageConfig)))"
proof -
  have s: "Severity (NewFall ''visual'' ''Camera seizure during frame capture'' Map.empty) = Fall"
    by (simp add: NewFall_def)
  have r: "session MockREPL_model [Call_AssertMode ''initial'']
     (recordTrip (NewFall ''visual'' ''Camera seizure during frame capture'' Map.empty)
        (NewStageDirectorWithConfig NewMockREPL DefaultStageConfig))
     = Some (AssertMode MockREPL_model ''initial''
              (recordTrip (NewFall ''visual'' ''Camera seizure during frame capture'' Map.empty)
                 (NewStageDirectorWithConfig NewMockREPL DefaultStageConfig)))"
    by simp
  from C7_fall_halts_waits [OF s r, of "''anything''" "[]"] s r show ?thesis
    by simp
qed



section \<open>Timeouts of the waits\<close>

lemma text_loop_continue:
  "WaitForText_loop M tx ps d = None \<Longrightarrow>
   WaitForText_loop M tx (ps @ qs) d = WaitForText_loop M tx qs (after_sleeps M ps d)"
  by (induction M tx ps d rule: WaitForText_loop.induct)
     (auto split: select_case.splits if_splits)

lemma mode_loop_continue:
  "WaitForMode_loop M e ps d = None \<Longrightarrow>
   WaitForMode_loop M e (ps @ qs) d = WaitForMode_loop M e qs (after_sleeps M ps d)"
  by (induction M e ps d rule: WaitForMode_loop.induct)
     (auto split: select_case.splits if_splits)

lemma results_loop_continue:
  "WaitForSearchResults_loop M ps d = None \<Longrightarrow>
   WaitForSearchResults_loop M (ps @ qs) d = WaitForSearchResults_loop M qs (after_sleeps M ps d)"
  by (induction M ps d rule: WaitForSearchResults_loop.induct)
     (auto simp: Let_def split: select_case.splits if_splits)

lemma recordTrip_error:
  "Severity t = Error \<Longrightarrow>
   recordTrip t d = d\<lparr>tripHandler := (tripHandler d)\<lparr>trips := trips (tripHandler d) @ [t]\<rparr>,
                     lastTrip := Some t, failed := True\<rparr>"
  by (simp add: recordTrip_def Let_def Record_def CanRecover_def IsFall_def)

lemma newStageTrip_eq:
  "newStageTrip ty msg ctx = \<lparr>Type = ty, Message = msg, Context = ctx, Attempt = 0, Severity = Error\<rparr>"
  by (simp add: newStageTrip_def NewTrip_def)

text \<open>
  When a pass of a wait loop takes the timeout case, on a director that had not failed
  when the wait began and after passes that left the loop polling, the wait returns
  with exactly one trip added to the handler, which is also the last trip, and with
  \<open>failed\<close> set. The trip has severity \<open>Error\<close>. Its type is \<open>WAIT_TEXT_TIMEOUT\<close>,
  \<open>WAIT_MODE_TIMEOUT\<close> or \<open>WAIT_RESULTS_TIMEOUT\<close>, after the wait. Its context holds the
  searched text and the current view for \<open>WaitForText\<close>, the expected and the current
  mode for \<open>WaitForMode\<close>, and for \<open>WaitForSearchResults\<close> the current view cut to 200
  bytes.
\<close>

lemma timeout_case_records_trip:
  "(\<not> failed d \<and> WaitForText_loop M text ps d = None \<and>
      select_of p (after_sleeps M ps d) = TimeoutCase \<longrightarrow>
      WaitForText M text (ps @ p # rest) d =
        Some ((after_sleeps M ps d)
               \<lparr>tripHandler := (tripHandler (after_sleeps M ps d))
                  \<lparr>trips := trips (tripHandler (after_sleeps M ps d)) @
                     [\<lparr>Type = ''WAIT_TEXT_TIMEOUT'',
                       Message = ''Timeout waiting for text '' @ [CHR 0x27] @ text @ [CHR 0x27],
                       Context = [''expected_text'' \<mapsto> CtxString text,
                                  ''current_view'' \<mapsto>
                                     CtxString (getCurrentView M (after_sleeps M ps d))],
                       Attempt = 0, Severity = Error\<rparr>]\<rparr>,
                lastTrip :=
                  Some \<lparr>Type = ''WAIT_TEXT_TIMEOUT'',
                        Message = ''Timeout waiting for text '' @ [CHR 0x27] @ text @ [CHR 0x27],
                        Context = [''expected_text'' \<mapsto> CtxString text,
                                   ''current_view'' \<mapsto>
                                      CtxString (getCurrentView M (after_sleeps M ps d))],
                        Attempt = 0, Severity = Error\<rparr>,
                failed := True\<rparr>)) \<and>
   (\<not> failed d \<and> WaitForMode_loop M expectedMode ps d = None \<and>
      select_of p (after_sleeps M ps d) = TimeoutCase \<longrightarrow>
      WaitForMode M expectedMode (ps @ p # rest) d =
        Some ((after_sleeps M ps d)
               \<lparr>tripHandler := (tripHandler (after_sleeps M ps d))
                  \<lparr>trips := trips (tripHandler (after_sleeps M ps d)) @
                     [\<lparr>Type = ''WAIT_MODE_TIMEOUT'',
                       Message = ''Timeout waiting for mode '' @ [CHR 0x27] @ expectedMode @ [CHR 0x27],
                       Context = [''expected_mode'' \<mapsto> CtxString expectedMode,
                                  ''current_mode'' \<mapsto>
                                     CtxString (getCurrentMode M (after_sleeps M ps d))],
                       Attempt = 0, Severity = Error\<rparr>]\<rparr>,
                lastTrip :=
                  Some \<lparr>Type = ''WAIT_MODE_TIMEOUT'',
                        Message = ''Timeout waiting for mode '' @ [CHR 0x27] @ expectedMode @ [CHR 0x27],
                        Context = [''expected_mode'' \<mapsto> CtxString expectedMode,
                                   ''current_mode'' \<mapsto>
                                      CtxString (getCurrentMode M (after_sleeps M ps d))],
                        Attempt = 0, Severity = Error\<rparr>,
                failed := True\<rparr>)) \<and>
   (\<not> failed d \<and> WaitForSearchResults_loop M ps d = None \<and>
      select_of p (after_sleeps M ps d) = TimeoutCase \<longrightarrow>
      WaitForSearchResults M (ps @ p # rest) d =
        Some ((after_sleeps M ps d)
               \<lparr>tripHandler := (tripHandler (after_sleeps M ps d))
                  \<lparr>trips := trips (tripHandler (after_sleeps M ps d)) @
                     [\<lparr>Type = ''WAIT_RESULTS_TIMEOUT'',
                       Message = ''Timeout waiting for search results'',
                       Context = [''current_view'' \<mapsto>
                                     CtxString (truncateString
                                                  (getCurrentView M (after_sleeps M ps d)) 200)],
                       Attempt = 0, Severity = Error\<rparr>]\<rparr>,
                lastTrip :=
                  Some \<lparr>Type = ''WAIT_RESULTS_TIMEOUT'',
                        Message = ''Timeout waiting for search results'',
                        Context = [''current_view'' \<mapsto>
                                      CtxString (truncateString
                                                   (getCurrentView M (after_sleeps M ps d)) 200)],
                        Attempt = 0, Severity = Error\<rparr>,
                failed := True\<rparr>))"
proof (intro conjI impI)
  assume a: "\<not> failed d \<and> WaitForText_loop M text ps d = None \<and>
      select_of p (after_sleeps M ps d) = TimeoutCase"
  then have "WaitForText M text (ps @ p # rest) d
               = WaitForText_loop M text (p # rest) (after_sleeps M ps d)"
    by (simp add: WaitForText_def text_loop_continue)
  with a show "WaitForText M text (ps @ p # rest) d =
        Some ((after_sleeps M ps d)
               \<lparr>tripHandler := (tripHandler (after_sleeps M ps d))
                  \<lparr>trips := trips (tripHandler (after_sleeps M ps d)) @
                     [\<lparr>Type = ''WAIT_TEXT_TIMEOUT'',
                       Message = ''Timeout waiting for text '' @ [CHR 0x27] @ text @ [CHR 0x27],
                       Context = [''expected_text'' \<mapsto> CtxString text,
                                  ''current_view'' \<mapsto>
                                     CtxString (getCurrentView M (after_sleeps M ps d))],
                       Attempt = 0, Severity = Error\<rparr>]\<rparr>,
                lastTrip :=
                  Some \<lparr>Type = ''WAIT_TEXT_TIMEOUT'',
                        Message = ''Timeout waiting for text '' @ [CHR 0x27] @ text @ [CHR 0x27],
                        Context = [''expected_text'' \<mapsto> CtxString text,
                                   ''current_view'' \<mapsto>
                                      CtxString (getCurrentView M (after_sleeps M ps d))],
                        Attempt = 0, Severity = Error\<rparr>,
                failed := True\<rparr>)"
    by (simp add: newStageTrip_eq recordTrip_error)
next
  assume a: "\<not> failed d \<and> WaitForMode_loop M expectedMode ps d = None \<and>
      select_of p (after_sleeps M ps d) = TimeoutCase"
  then have "WaitForMode M expectedMode (ps @ p # rest) d
               = WaitForMode_loop M expectedMode (p # rest) (after_sleeps M ps d)"
    by (simp add: WaitForMode_def mode_loop_continue)
  with a show "WaitForMode M expectedMode (ps @ p # rest) d =
        Some ((after_sleeps M ps d)
               \<lparr>tripHandler := (tripHandler (after_sleeps M ps d))
                  \<lparr>trips := trips (tripHandler (after_sleeps M ps d)) @
                     [\<lparr>Type = ''WAIT_MODE_TIMEOUT'',
                       Message = ''Timeout waiting for mode '' @ [CHR 0x27] @ expectedMode @ [CHR 0x27],
                       Context = [''expected_mode'' \<mapsto> CtxString expectedMode,
                                  ''current_mode'' \<mapsto>
                                     CtxString (getCurrentMode M (after_sleeps M ps d))],
                       Attempt = 0, Severity = Error\<rparr>]\<rparr>,
                lastTrip :=
                  Some \<lparr>Type = ''WAIT_MODE_TIMEOUT'',
                        Message = ''Timeout waiting for mode '' @ [CHR 0x27] @ expectedMode @ [CHR 0x27],
                        Context = [''expected_mode'' \<mapsto> CtxString expectedMode,
                                   ''current_mode'' \<mapsto>
                                      CtxString (getCurrentMode M (after_sleeps M ps d))],
                        Attempt = 0, Severity = Error\<rparr>,
                failed := True\<rparr>)"
    by (simp add: newStageTrip_eq recordTrip_error)
next
  assume a: "\<not> failed d \<and> WaitForSearchResults_loop M ps d = None \<and>
      select_of p (after_sleeps M ps d) = TimeoutCase"
  then have "WaitForSearchResults M (ps @ p # rest) d
               = WaitForSearchResults_loop M (p # rest) (after_sleeps M ps d)"
    by (simp add: WaitForSearchResults_def results_loop_continue)
  with a show "WaitForSearchResults M (ps @ p # rest) d =
        Some ((after_sleeps M ps d)
               \<lparr>tripHandler := (tripHandler (after_sleeps M ps d))
                  \<lparr>trips := trips (tripHandler (after_sleeps M ps d)) @
                     [\<lparr>Type = ''WAIT_RESULTS_TIMEOUT'',
                       Message = ''Timeout waiting for search results'',
                       Context = [''current_view'' \<mapsto>
                                     CtxString (truncateString
                                                  (getCurrentView M (after_sleeps M ps d)) 200)],
                       Attempt = 0, Severity = Error\<rparr>]\<rparr>,
                lastTrip :=
                  Some \<lparr>Type = ''WAIT_RESULTS_TIMEOUT'',
                        Message = ''Timeout waiting for search results'',
                        Context = [''current_view'' \<mapsto>
                                      CtxString (truncateString
                                                   (getCurrentView M (after_sleeps M ps d)) 200)],
                        Attempt = 0, Severity = Error\<rparr>,
                failed := True\<rparr>)"
    by (simp add: newStageTrip_eq recordTrip_error)
qed


lemma mock_fresh:
  "getCurrentView MockREPL_model (NewStageDirectorWithConfig NewMockREPL DefaultStageConfig)
     = ''Mode: initial'' @ [CHR 0x0A] @ ''Input: '' @ [CHR 0x0A] @ ''> ''"
  "getCurrentMode MockREPL_model (NewStageDirectorWithConfig NewMockREPL DefaultStageConfig) = ''initial''"
  "getCurrentInput MockREPL_model (NewStageDirectorWithConfig NewMockREPL DefaultStageConfig) = []"
  "\<not> failed (NewStageDirectorWithConfig NewMockREPL DefaultStageConfig)"
  "\<not> cancelled (NewStageDirectorWithConfig NewMockREPL DefaultStageConfig)"
  by (simp_all add: getCurrentView_def getCurrentMode_def getCurrentInput_def
        NewStageDirectorWithConfig_def MockREPL_model_def MockREPL_View_def NewMockREPL_def)

lemma timeout_case_example:
  "map_option (map Type \<circ> trips \<circ> tripHandler)
     (WaitForText MockREPL_model ''never'' [quiet_pass, deadline_pass]
        (NewStageDirectorWithConfig NewMockREPL DefaultStageConfig)) = Some [''WAIT_TEXT_TIMEOUT''] \<and>
   map_option (map Severity \<circ> trips \<circ> tripHandler)
     (WaitForText MockREPL_model ''never'' [quiet_pass, deadline_pass]
        (NewStageDirectorWithConfig NewMockREPL DefaultStageConfig)) = Some [Error] \<and>
   map_option (map Type \<circ> trips \<circ> tripHandler)
     (WaitForMode MockREPL_model ''anything'' [quiet_pass, deadline_pass]
        (NewStageDirectorWithConfig NewMockREPL DefaultStageConfig)) = Some [''WAIT_MODE_TIMEOUT''] \<and>
   map_option (map Type \<circ> trips \<circ> tripHandler)
     (WaitForSearchResults MockREPL_model [quiet_pass, deadline_pass]
        (NewStageDirectorWithConfig NewMockREPL DefaultStageConfig)) = Some [''WAIT_RESULTS_TIMEOUT'']"
proof -
  let ?d = "NewStageDirectorWithConfig NewMockREPL DefaultStageConfig"
  have sel: "select_of quiet_pass ?d = DefaultCase"
    by (simp add: select_of_def quiet_pass_def mock_fresh)
  have slp: "after_sleeps MockREPL_model [quiet_pass] ?d = ?d"
    by (simp add: quiet_pass_def)
  have dl: "select_of deadline_pass (after_sleeps MockREPL_model [quiet_pass] ?d) = TimeoutCase"
    by (simp add: slp) (simp add: select_of_def deadline_pass_def)
  have t: "WaitForText_loop MockREPL_model ''never'' [quiet_pass] ?d = None"
    by (simp add: sel mock_fresh)
  have m: "WaitForMode_loop MockREPL_model ''anything'' [quiet_pass] ?d = None"
    by (simp add: sel mock_fresh)
  have r: "WaitForSearchResults_loop MockREPL_model [quiet_pass] ?d = None"
    by (simp add: sel mock_fresh)
  have h: "trips (tripHandler ?d) = []"
    by (simp add: NewStageDirectorWithConfig_def NewHandler_def)
  from timeout_case_records_trip [of ?d MockREPL_model "''never''" "[quiet_pass]" deadline_pass "[]" "''anything''"]
       mock_fresh(4) dl t m r
  show ?thesis
    by (simp add: slp h del: after_sleeps.simps)
qed

text \<open>
  After \<open>Start\<close>, a \<open>WaitForText\<close> whose \<open>select\<close> takes the timer at the deadline records
  one trip, and its type is not \<open>timeout\<close>.
\<close>

lemma timeout_trip_type_example:
  "map_option (map Type \<circ> trips \<circ> tripHandler)
     (session MockREPL_model
        [Call_Start [quiet_pass], Call_WaitForText ''never'' [quiet_pass, deadline_pass]]
        (NewStageDirectorWithConfig NewMockREPL DefaultStageConfig)) = Some [''WAIT_TEXT_TIMEOUT''] \<and>
   ''WAIT_TEXT_TIMEOUT'' \<noteq> ''timeout''"
proof -
  let ?d = "NewStageDirectorWithConfig NewMockREPL DefaultStageConfig"
  let ?p = "\<lparr>pmodel = Some \<lparr>wrapped = NewMockREPL, director = True\<rparr>, sent = [], handled = 0, quit = False\<rparr>"
  let ?v = "''Mode: initial'' @ [CHR 0x0A] @ ''Input: '' @ [CHR 0x0A] @ ''> ''"
  let ?s = "?d\<lparr>program := Some ?p, started := True,
              snapshots := [\<lparr>SView = ?v, SMode = ''initial'', SInput = []\<rparr>]\<rparr>"
  have st: "Start MockREPL_model [quiet_pass] ?d = Some ?s"
    by (simp add: Start_def Let_def select_of_def quiet_pass_def getCurrentView_def getCurrentMode_def
          getCurrentInput_def NewStageDirectorWithConfig_def MockREPL_model_def MockREPL_View_def
          NewMockREPL_def DefaultStageConfig_def eval_nat_numeral)
  have v: "getCurrentView MockREPL_model ?s = ?v"
    by (simp add: getCurrentView_def NewStageDirectorWithConfig_def MockREPL_model_def
          MockREPL_View_def NewMockREPL_def)
  have sel1: "select_of quiet_pass ?s = DefaultCase"
    by (simp add: select_of_def quiet_pass_def NewStageDirectorWithConfig_def)
  have sel2: "select_of deadline_pass ?s = TimeoutCase"
    by (simp add: select_of_def deadline_pass_def)
  have nf: "\<not> failed ?s"
    by (simp add: NewStageDirectorWithConfig_def)
  have qs: "during_sleep quiet_pass = []"
    by (simp add: quiet_pass_def)
  have nc: "\<not> Contains ?v ''never''"
    by simp
  have w: "WaitForText MockREPL_model ''never'' [quiet_pass, deadline_pass] ?s
             = Some (recordTrip (newStageTrip ''WAIT_TEXT_TIMEOUT''
                        (''Timeout waiting for text '' @ [CHR 0x27] @ ''never'' @ [CHR 0x27])
                        [''expected_text'' \<mapsto> CtxString ''never'', ''current_view'' \<mapsto> CtxString ?v]) ?s)"
    using nc by (simp only: WaitForText_def WaitForText_loop.simps sel1 sel2 nf qs v
                   select_case.case if_False run_bg.simps)
  have ses: "session MockREPL_model
        [Call_Start [quiet_pass], Call_WaitForText ''never'' [quiet_pass, deadline_pass]] ?d
      = Some (recordTrip (newStageTrip ''WAIT_TEXT_TIMEOUT''
                        (''Timeout waiting for text '' @ [CHR 0x27] @ ''never'' @ [CHR 0x27])
                        [''expected_text'' \<mapsto> CtxString ''never'', ''current_view'' \<mapsto> CtxString ?v]) ?s)"
    by (simp only: session.simps exec.simps st w option.case)
  have "trips (tripHandler ?s) = []"
    by (simp add: NewStageDirectorWithConfig_def NewHandler_def)
  then show ?thesis
    by (simp only: ses) (simp add: recordTrip_error newStageTrip_eq)
qed

lemma mock_Start:
  "Start MockREPL_model [quiet_pass] (NewStageDirectorWithConfig NewMockREPL DefaultStageConfig)
     = Some ((NewStageDirectorWithConfig NewMockREPL DefaultStageConfig)
          \<lparr>program := Some \<lparr>pmodel = Some \<lparr>wrapped = NewMockREPL, director = True\<rparr>,
                               sent = [], handled = 0, quit = False\<rparr>,
            started := True,
            snapshots := [\<lparr>SView = ''Mode: initial'' @ [CHR 0x0A] @ ''Input: '' @ [CHR 0x0A] @ ''> '',
                           SMode = ''initial'', SInput = []\<rparr>]\<rparr>)"
  by (simp add: Start_def Let_def select_of_def quiet_pass_def getCurrentView_def getCurrentMode_def
        getCurrentInput_def NewStageDirectorWithConfig_def MockREPL_model_def MockREPL_View_def
        NewMockREPL_def DefaultStageConfig_def eval_nat_numeral)

lemma mock_Start_started:
  "Start MockREPL_model [quiet_pass] (NewStageDirectorWithConfig NewMockREPL DefaultStageConfig)
     = Some started_mock"
  by (simp only: mock_Start started_mock_def)

lemma Stop_Success: "Success (fst (Stop M d)) = (\<not> failed d \<and> lastTrip d = None)"
  by (simp add: Stop_def Let_def split: option.splits)

lemma wait_done_case:
  "\<not> failed d \<Longrightarrow> WaitForText_loop M tx ps d = None \<Longrightarrow>
   select_of p (after_sleeps M ps d) = DoneCase \<Longrightarrow>
   WaitForText M tx (ps @ p # rest) d = Some (after_sleeps M ps d)"
  "\<not> failed d \<Longrightarrow> WaitForMode_loop M e ps d = None \<Longrightarrow>
   select_of p (after_sleeps M ps d) = DoneCase \<Longrightarrow>
   WaitForMode M e (ps @ p # rest) d = Some (after_sleeps M ps d)"
  "\<not> failed d \<Longrightarrow> WaitForSearchResults_loop M ps d = None \<Longrightarrow>
   select_of p (after_sleeps M ps d) = DoneCase \<Longrightarrow>
   WaitForSearchResults M (ps @ p # rest) d = Some (after_sleeps M ps d)"
  by (simp_all add: WaitForText_def WaitForMode_def WaitForSearchResults_def
        text_loop_continue mode_loop_continue results_loop_continue)

lemma started_mock_fields:
  "getCurrentView MockREPL_model started_mock
     = ''Mode: initial'' @ [CHR 0x0A] @ ''Input: '' @ [CHR 0x0A] @ ''> ''"
  "getCurrentMode MockREPL_model started_mock = ''initial''"
  "\<not> failed started_mock"
  "\<not> cancelled started_mock"
  "lastTrip started_mock = None"
  "trips (tripHandler started_mock) = []"
  by (simp_all add: getCurrentView_def getCurrentMode_def started_mock_def
        NewStageDirectorWithConfig_def MockREPL_model_def MockREPL_View_def NewMockREPL_def
        NewHandler_def)

text \<open>
  The \<open>WaitForText\<close> of the earlier director has no way out at its deadline but the
  timer: when the text never shows, it ends with the error of type \<open>timeout\<close> and with
  \<open>failed\<close> set.
\<close>

lemma InteractiveTestDirector_WaitForText_timeout:
  "\<forall>v\<in>set views. \<not> Contains v text \<Longrightarrow>
   InteractiveTestDirector_WaitForText text (map Itd_tick views @ Itd_timer v' # rest) d =
     Some (d\<lparr>itd_lastError := Some (''timeout: Timeout waiting for text '' @ [CHR 0x27] @ text
                                        @ [CHR 0x27]),
             itd_failed := True\<rparr>)"
  by (induction views) simp_all

text \<open>
  Claim C6 says that a wait which reaches its deadline without its condition coming
  true records one trip. The code at that input: after \<open>Start\<close>, on a view that never
  shows the text, \<open>WaitForText\<close> polls once and then stands at its deadline, where its
  timer has fired and the session context, which is older and has the same timeout,
  has expired. When the \<open>select\<close> takes the context, the wait returns the director as it
  was: no trip is recorded, \<open>failed\<close> is not set, and \<open>Stop\<close> reports success. The same
  holds for \<open>WaitForMode\<close> and \<open>WaitForSearchResults\<close>, and for a pass on which the
  context has expired shortly before the timer fires.
\<close>

theorem C6_deadline_without_trip:
  "timer_fired deadline_pass_done \<and>
   \<not> Contains (getCurrentView MockREPL_model started_mock) ''never'' \<and>
   session MockREPL_model
     [Call_Start [quiet_pass], Call_WaitForText ''never'' [quiet_pass, deadline_pass_done]]
     (NewStageDirectorWithConfig NewMockREPL DefaultStageConfig) = Some started_mock \<and>
   session MockREPL_model
     [Call_Start [quiet_pass], Call_WaitForMode ''anything'' [quiet_pass, deadline_pass_done]]
     (NewStageDirectorWithConfig NewMockREPL DefaultStageConfig) = Some started_mock \<and>
   session MockREPL_model
     [Call_Start [quiet_pass], Call_WaitForSearchResults [quiet_pass, deadline_pass_done]]
     (NewStageDirectorWithConfig NewMockREPL DefaultStageConfig) = Some started_mock \<and>
   session MockREPL_model
     [Call_Start [quiet_pass], Call_WaitForText ''never'' [quiet_pass, context_first_pass]]
     (NewStageDirectorWithConfig NewMockREPL DefaultStageConfig) = Some started_mock \<and>
   trips (tripHandler started_mock) = [] \<and>
   lastTrip started_mock = None \<and>
   \<not> failed started_mock \<and>
   Success (fst (Stop MockREPL_model started_mock)) \<and>
   ErrorMessage (fst (Stop MockREPL_model started_mock)) = []"
proof -
  let ?d = "NewStageDirectorWithConfig NewMockREPL DefaultStageConfig"
  have sel: "select_of quiet_pass started_mock = DefaultCase"
    by (simp add: select_of_def quiet_pass_def started_mock_fields)
  have slp: "after_sleeps MockREPL_model [quiet_pass] started_mock = started_mock"
    by (simp add: quiet_pass_def)
  have dl: "select_of deadline_pass_done (after_sleeps MockREPL_model [quiet_pass] started_mock)
              = DoneCase"
    by (simp only: slp) (simp add: select_of_def deadline_pass_done_def)
  have cf: "select_of context_first_pass (after_sleeps MockREPL_model [quiet_pass] started_mock)
              = DoneCase"
    by (simp only: slp) (simp add: select_of_def context_first_pass_def)
  have nc: "\<not> Contains (getCurrentView MockREPL_model started_mock) ''never''"
    by (simp add: started_mock_fields)
  have t: "WaitForText_loop MockREPL_model ''never'' [quiet_pass] started_mock = None"
    using nc by (simp add: sel)
  have m: "WaitForMode_loop MockREPL_model ''anything'' [quiet_pass] started_mock = None"
    by (simp add: sel started_mock_fields)
  have r: "WaitForSearchResults_loop MockREPL_model [quiet_pass] started_mock = None"
    by (simp add: sel started_mock_fields)
  have w1: "WaitForText MockREPL_model ''never'' [quiet_pass, deadline_pass_done] started_mock
              = Some started_mock"
    using wait_done_case(1) [OF started_mock_fields(3) t dl, of "[]"] by (simp only: slp append.simps)
  have w2: "WaitForMode MockREPL_model ''anything'' [quiet_pass, deadline_pass_done] started_mock
              = Some started_mock"
    using wait_done_case(2) [OF started_mock_fields(3) m dl, of "[]"] by (simp only: slp append.simps)
  have w3: "WaitForSearchResults MockREPL_model [quiet_pass, deadline_pass_done] started_mock
              = Some started_mock"
    using wait_done_case(3) [OF started_mock_fields(3) r dl, of "[]"] by (simp only: slp append.simps)
  have w4: "WaitForText MockREPL_model ''never'' [quiet_pass, context_first_pass] started_mock
              = Some started_mock"
    using wait_done_case(1) [OF started_mock_fields(3) t cf, of "[]"] by (simp only: slp append.simps)
  have s: "Success (fst (Stop MockREPL_model started_mock))"
    by (simp add: Stop_Success started_mock_fields)
  have e: "ErrorMessage (fst (Stop MockREPL_model started_mock)) = []"
    by (simp add: Stop_def Let_def getErrorMessage_def started_mock_fields split: option.splits)
  have tf: "timer_fired deadline_pass_done"
    by (simp add: deadline_pass_done_def)
  show ?thesis
    using tf nc s e started_mock_fields(3,5,6)
    by (simp only: session.simps exec.simps mock_Start_started option.case w1 w2 w3 w4 simp_thms)
qed

section \<open>The result of a session\<close>

lemma recordTrip_lastTrip: "lastTrip (recordTrip t d) = Some t"
  by (simp add: recordTrip_def Let_def)

lemma trip_inv_recordTrip: "Severity t \<noteq> Stumble \<Longrightarrow> trip_inv (recordTrip t d)"
  by (simp add: trip_inv_def recordTrip_def Let_def Record_def CanRecover_def IsFall_def)

lemma trip_inv_newStageTrip: "trip_inv (recordTrip (newStageTrip ty msg ctx) d)"
  by (rule trip_inv_recordTrip) (simp add: newStageTrip_eq)

lemma trip_inv_recordStageAction: "trip_inv (recordStageAction a x d) = trip_inv d"
  by (simp add: trip_inv_def recordStageAction_def split: option.splits)

lemma trip_inv_captureSnapshot: "trip_inv (captureSnapshot M r d) = trip_inv d"
  by (simp add: trip_inv_def captureSnapshot_def split: option.splits)

lemma trip_inv_cancelled: "trip_inv (d\<lparr>cancelled := c\<rparr>) = trip_inv d"
  by (simp add: trip_inv_def split: option.splits)

lemma trip_inv_program: "trip_inv (d\<lparr>program := p\<rparr>) = trip_inv d"
  by (simp add: trip_inv_def split: option.splits)

lemma trip_inv_handleModelPanic: "trip_inv (handleModelPanic M r msg d)"
  by (simp add: handleModelPanic_def Let_def trip_inv_cancelled trip_inv_newStageTrip)

lemma trip_inv_handleInvalidModelState: "trip_inv (handleInvalidModelState M r msg d)"
  by (simp add: handleInvalidModelState_def Let_def trip_inv_cancelled trip_inv_newStageTrip)

lemma trip_inv_publish:
  "trip_inv (d\<lparr>updateSeq := s, modelChan := c, updatesSent := u\<rparr>) = trip_inv d"
  "trip_inv (d\<lparr>updateSeq := s, bufferOverflows := b, droppedUpdates := u\<rparr>) = trip_inv d"
  by (simp_all add: trip_inv_def split: option.splits)

lemma trip_inv_Update_wrapper: "trip_inv d \<Longrightarrow> trip_inv (snd (Update_wrapper M w msg d))"
  by (simp add: Update_wrapper_def Let_def trip_inv_handleModelPanic
        trip_inv_handleInvalidModelState trip_inv_publish
        split: update_result.splits option.splits)

lemma trip_inv_program_step: "trip_inv d \<Longrightarrow> trip_inv (program_step M d)"
proof -
  assume f: "trip_inv d"
  show ?thesis
  proof (cases "program d")
    case None
    with f show ?thesis by (simp add: program_step_def)
  next
    case (Some p)
    show ?thesis
    proof (cases "pmodel p")
      case None
      with Some f show ?thesis by (simp add: program_step_def)
    next
      case (Some w)
      obtain w' d' where u: "Update_wrapper M w (sent p ! handled p) d = (w', d')"
        by (cases "Update_wrapper M w (sent p ! handled p) d")
      with trip_inv_Update_wrapper [OF f, of M w "sent p ! handled p"] have "trip_inv d'" by simp
      with \<open>program d = Some p\<close> Some u f show ?thesis
        by (simp add: program_step_def trip_inv_program)
    qed
  qed
qed

lemma trip_inv_syncModelUpdates_step: "trip_inv (syncModelUpdates_step u d) = trip_inv d"
  by (simp add: syncModelUpdates_step_def Let_def trip_inv_def split: option.splits)

lemma trip_inv_modelChan: "trip_inv (d\<lparr>modelChan := c\<rparr>) = trip_inv d"
  by (simp add: trip_inv_def split: option.splits)

lemma trip_inv_consumer_step: "trip_inv (consumer_step d) = trip_inv d"
  by (simp add: consumer_step_def trip_inv_syncModelUpdates_step trip_inv_modelChan
           split: option.splits list.splits)

lemma trip_inv_run_bg: "trip_inv d \<Longrightarrow> trip_inv (run_bg M bs d)"
  by (induction M bs d rule: run_bg.induct)
     (simp_all add: trip_inv_program_step trip_inv_consumer_step)

lemma trip_inv_waitForViewChange: "trip_inv d \<Longrightarrow> trip_inv (waitForViewChange M v ps d)"
  by (induction M v ps d rule: waitForViewChange.induct)
     (auto simp: Let_def trip_inv_run_bg split: select_case.splits)

lemma trip_inv_sendMessage: "trip_inv d \<Longrightarrow> trip_inv (sendMessage M msg ps d)"
  by (simp add: sendMessage_def Let_def trip_inv_captureSnapshot trip_inv_waitForViewChange
        trip_inv_program split: option.splits)

lemma trip_inv_Type_loop: "trip_inv d \<Longrightarrow> trip_inv (Type_loop M rs sched d)"
proof (induction rs arbitrary: sched d)
  case Nil
  then show ?case by simp
next
  case (Cons r rs)
  obtain ps asl where s: "(case sched of [] \<Rightarrow> ([], []) | s # _ \<Rightarrow> s) = (ps, asl)"
    by (cases "case sched of [] \<Rightarrow> ([], []) | s # _ \<Rightarrow> s")
  have "trip_inv (recordStageAction ''type'' (DString (string_of_rune r))
                    (sendMessage M (KeyMsg KeyRunes [r]) ps d))"
    using Cons.prems by (simp add: trip_inv_recordStageAction trip_inv_sendMessage)
  then show ?case
    using s by (simp add: Let_def Cons.IH trip_inv_run_bg)
qed

lemma trip_inv_WaitForText_loop:
  "trip_inv d \<Longrightarrow> WaitForText_loop M tx ps d = Some d' \<Longrightarrow> trip_inv d'"
  by (induction M tx ps d rule: WaitForText_loop.induct)
     (auto simp: trip_inv_run_bg trip_inv_newStageTrip split: select_case.splits if_splits)

lemma trip_inv_WaitForMode_loop:
  "trip_inv d \<Longrightarrow> WaitForMode_loop M e ps d = Some d' \<Longrightarrow> trip_inv d'"
  by (induction M e ps d rule: WaitForMode_loop.induct)
     (auto simp: trip_inv_run_bg trip_inv_newStageTrip split: select_case.splits if_splits)

lemma trip_inv_WaitForSearchResults_loop:
  "trip_inv d \<Longrightarrow> WaitForSearchResults_loop M ps d = Some d' \<Longrightarrow> trip_inv d'"
  by (induction M ps d rule: WaitForSearchResults_loop.induct)
     (auto simp: Let_def trip_inv_run_bg trip_inv_newStageTrip split: select_case.splits if_splits)

lemma trip_inv_waits:
  "trip_inv d \<Longrightarrow> WaitForText M tx ps d = Some d' \<Longrightarrow> trip_inv d'"
  "trip_inv d \<Longrightarrow> WaitForMode M e ps d = Some d' \<Longrightarrow> trip_inv d'"
  "trip_inv d \<Longrightarrow> WaitForSearchResults M ps d = Some d' \<Longrightarrow> trip_inv d'"
  by (auto simp: WaitForText_def WaitForMode_def WaitForSearchResults_def
           dest: trip_inv_WaitForText_loop trip_inv_WaitForMode_loop
                 trip_inv_WaitForSearchResults_loop split: if_splits)

lemma trip_inv_waitForProgramReady:
  "trip_inv d \<Longrightarrow> waitForProgramReady M n polls d = Some (e, d') \<Longrightarrow> trip_inv d'"
  by (induction M n polls d rule: waitForProgramReady.induct)
     (auto simp: trip_inv_run_bg split: select_case.splits if_splits)

lemma trip_inv_started: "trip_inv (d\<lparr>started := b\<rparr>) = trip_inv d"
  by (simp add: trip_inv_def split: option.splits)

lemma trip_inv_snapshots: "trip_inv (d\<lparr>snapshots := b\<rparr>) = trip_inv d"
  by (simp add: trip_inv_def split: option.splits)

lemma trip_inv_Start: "trip_inv d \<Longrightarrow> Start M polls d = Some d' \<Longrightarrow> trip_inv d'"
proof -
  assume i: "trip_inv d" and s: "Start M polls d = Some d'"
  show ?thesis
  proof (cases "started d")
    case True
    with i s show ?thesis by (simp add: Start_def)
  next
    case False
    let ?d1 = "d\<lparr>program := Some \<lparr>pmodel = Some \<lparr>wrapped = dmodel d, director = True\<rparr>,
                                      sent = [], handled = 0, quit = False\<rparr>\<rparr>"
    have i1: "trip_inv ?d1"
      using i by (simp only: trip_inv_program)
    from s False obtain e d2 where w: "waitForProgramReady M 50 polls ?d1 = Some (e, d2)"
      by (auto simp: Start_def Let_def split: option.splits)
    from i1 w have i2: "trip_inv d2"
      by (rule trip_inv_waitForProgramReady)
    show ?thesis
    proof (cases e)
      case None
      with s False w have "d' = (let d3 = d2\<lparr>started := True\<rparr> in
                 if CaptureViews (config d3)
                 then d3\<lparr>snapshots := snapshots d3 @
                            [\<lparr>SView = getCurrentView M d3, SMode = getCurrentMode M d3,
                              SInput = getCurrentInput M d3\<rparr>]\<rparr>
                 else d3)"
        by (simp add: Start_def Let_def)
      with i2 show ?thesis
        by (simp add: Let_def trip_inv_started trip_inv_snapshots)
    next
      case (Some err)
      with s False w have "d' = recordTrip (newStageTrip ''STARTUP_FAILED'' err
                                   [''error'' \<mapsto> CtxString err]) d2"
        by (simp add: Start_def Let_def)
      then show ?thesis
        by (simp only: trip_inv_newStageTrip)
    qed
  qed
qed

lemma trip_inv_Stop: "trip_inv d \<Longrightarrow> trip_inv (snd (Stop M d))"
  by (simp add: Stop_def Let_def trip_inv_def split: option.splits)

lemma trip_inv_asserts:
  "trip_inv d \<Longrightarrow> trip_inv (AssertViewContains M text d)"
  "trip_inv d \<Longrightarrow> trip_inv (AssertMode M e d)"
  "trip_inv d \<Longrightarrow> trip_inv (AssertInputEquals M e d)"
  by (simp_all add: AssertViewContains_def AssertMode_def AssertInputEquals_def Let_def
        trip_inv_newStageTrip trip_inv_recordStageAction)

lemma trip_inv_AssertNoSearchResults:
  "trip_inv d \<Longrightarrow> AssertNoSearchResults M d = Some d' \<Longrightarrow> trip_inv d'"
  by (auto simp: AssertNoSearchResults_def trip_inv_newStageTrip trip_inv_recordStageAction
           split: option.splits)

lemma trip_inv_Record: "trip_inv d \<Longrightarrow> trip_inv (d\<lparr>tripHandler := Record t (tripHandler d)\<rparr>)"
  by (simp add: trip_inv_def Record_def split: option.splits)

lemma trip_inv_exec:
  "package_call c \<Longrightarrow> trip_inv d \<Longrightarrow> exec M c d = Some d' \<Longrightarrow> trip_inv d'"
  by (cases c)
     (auto simp: trip_inv_asserts trip_inv_Stop trip_inv_recordTrip trip_inv_run_bg
        trip_inv_Type_loop Type_text_def PressEnter_def PressTab_def PressArrowDown_def
        PressArrowUp_def PressEscape_def PressBackspace_def Wait_def trip_inv_recordStageAction
        trip_inv_sendMessage trip_inv_captureSnapshot trip_inv_Record
        dest: trip_inv_Start trip_inv_AssertNoSearchResults trip_inv_waits)

lemma trip_inv_session:
  "list_all package_call cs \<Longrightarrow> trip_inv d \<Longrightarrow> session M cs d = Some d' \<Longrightarrow> trip_inv d'"
proof (induction cs arbitrary: d)
  case Nil
  then show ?case by simp
next
  case (Cons c cs)
  then show ?case
    by (auto split: option.splits dest: trip_inv_exec)
qed

lemma trip_inv_new: "trip_inv (NewStageDirectorWithConfig m cfg)"
  by (simp add: trip_inv_def NewStageDirectorWithConfig_def)

lemma not_stumble: "(s \<noteq> Stumble) = (s = Error \<or> s = Fall)"
  by (cases s) simp_all

text \<open>
  Claim C4. Take any session of a new director in which the package records its trips
  as it does, none of them a \<open>Stumble\<close> given to \<open>recordTrip\<close>; stumbles may be recorded
  in the handler. When the session has run, \<open>Stop\<close> reports success exactly when
  \<open>failed\<close> is not set; \<open>failed\<close> is set exactly when there is a last trip, which then
  has severity \<open>Error\<close> or \<open>Fall\<close> and is among the trips of the handler; and a session
  whose handler holds no such trip, whatever stumbles it holds, ends in success.
\<close>

theorem C4_success_iff_not_failed:
  assumes "list_all package_call cs"
    and "session M cs (NewStageDirectorWithConfig m cfg) = Some d'"
  shows "Success (fst (Stop M d')) = (\<not> failed d') \<and>
         failed d' = (\<exists>t. lastTrip d' = Some t \<and> (Severity t = Error \<or> Severity t = Fall) \<and>
                         t \<in> set (trips (tripHandler d'))) \<and>
         (trips (tripHandler d') = [] \<longrightarrow> Success (fst (Stop M d')))"
proof -
  from assms(1) trip_inv_new assms(2) have i: "trip_inv d'"
    by (rule trip_inv_session)
  show ?thesis
  proof (cases "lastTrip d'")
    case None
    with i show ?thesis
      by (simp add: trip_inv_def Stop_Success)
  next
    case (Some t)
    with i show ?thesis
      by (auto simp: trip_inv_def Stop_Success not_stumble)
  qed
qed

theorem C4_success_iff_not_failed_witness:
  "list_all package_call
     [Call_Start [quiet_pass],
      Call_Record (NewStumble ''visual'' ''Screenshot capture failed'' Map.empty)] \<and>
   session MockREPL_model
     [Call_Start [quiet_pass],
      Call_Record (NewStumble ''visual'' ''Screenshot capture failed'' Map.empty)]
     (NewStageDirectorWithConfig NewMockREPL DefaultStageConfig)
     = Some (started_mock
              \<lparr>tripHandler := (tripHandler started_mock)
                 \<lparr>stumbles := [NewStumble ''visual'' ''Screenshot capture failed'' Map.empty]\<rparr>\<rparr>) \<and>
   Success (fst (Stop MockREPL_model
     (started_mock
        \<lparr>tripHandler := (tripHandler started_mock)
           \<lparr>stumbles := [NewStumble ''visual'' ''Screenshot capture failed'' Map.empty]\<rparr>\<rparr>))) \<and>
   list_all package_call [Call_Start [quiet_pass], Call_AssertMode ''typing''] \<and>
   session MockREPL_model [Call_Start [quiet_pass], Call_AssertMode ''typing'']
     (NewStageDirectorWithConfig NewMockREPL DefaultStageConfig)
     = Some (AssertMode MockREPL_model ''typing'' started_mock) \<and>
   \<not> Success (fst (Stop MockREPL_model (AssertMode MockREPL_model ''typing'' started_mock))) \<and>
   failed (AssertMode MockREPL_model ''typing'' started_mock)"
proof -
  let ?t = "NewStumble ''visual'' ''Screenshot capture failed'' Map.empty"
  let ?cs1 = "[Call_Start [quiet_pass], Call_Record ?t]"
  let ?d1 = "started_mock\<lparr>tripHandler := (tripHandler started_mock)\<lparr>stumbles := [?t]\<rparr>\<rparr>"
  let ?cs2 = "[Call_Start [quiet_pass], Call_AssertMode ''typing'']"
  let ?d2 = "AssertMode MockREPL_model ''typing'' started_mock"
  have p1: "list_all package_call ?cs1" and p2: "list_all package_call ?cs2"
    by simp_all
  have h: "tripHandler started_mock = NewHandler ''stage_director'' (Some DefaultPolicy)"
    by (simp add: started_mock_def NewStageDirectorWithConfig_def)
  have r: "Record ?t (tripHandler started_mock) = (tripHandler started_mock)\<lparr>stumbles := [?t]\<rparr>"
    by (simp add: h Record_def NewStumble_def NewHandler_def)
  have s1: "session MockREPL_model ?cs1 (NewStageDirectorWithConfig NewMockREPL DefaultStageConfig)
              = Some ?d1"
    by (simp only: session.simps exec.simps mock_Start_started option.case r)
  have s2: "session MockREPL_model ?cs2 (NewStageDirectorWithConfig NewMockREPL DefaultStageConfig)
              = Some ?d2"
    by (simp only: session.simps exec.simps mock_Start_started option.case)
  have e1: "trips (tripHandler ?d1) = []"
    by (simp add: h NewHandler_def)
  have m: "getCurrentMode MockREPL_model started_mock = ''initial''"
    by (simp add: getCurrentMode_def started_mock_def NewStageDirectorWithConfig_def
          MockREPL_model_def NewMockREPL_def)
  have f2: "failed ?d2"
    by (simp add: AssertMode_def m newStageTrip_eq recordTrip_error Let_def)
  note a = C4_success_iff_not_failed [OF p1 s1]
  note b = C4_success_iff_not_failed [OF p2 s2]
  from a e1 have "Success (fst (Stop MockREPL_model ?d1))"
    by blast
  moreover from b f2 have "\<not> Success (fst (Stop MockREPL_model ?d2))"
    by blast
  ultimately show ?thesis
    using p1 p2 s1 s2 f2 by (intro conjI)
qed

section \<open>The fail-fast paths\<close>

lemma handleModelPanic_trip:
  "lastTrip (handleModelPanic M r msg d) =
     Some \<lparr>Type = ''MODEL_PANIC'', Message = ''Model panic during Update: '' @ r,
           Context = [''panic_value'' \<mapsto> CtxPanicValue r, ''tea_msg'' \<mapsto> CtxFormattedMsg msg,
                      ''model_type'' \<mapsto> CtxModelType, ''timestamp'' \<mapsto> CtxTime],
           Attempt = 0, Severity = Error\<rparr>"
  "failed (handleModelPanic M r msg d)"
  "cancelled (handleModelPanic M r msg d)"
  "t_errors (handleModelPanic M r msg d) = t_errors d"
  "length (snapshots (handleModelPanic M r msg d)) = length (snapshots d) + 1"
  by (simp_all add: handleModelPanic_def Let_def recordTrip_error newStageTrip_eq
        captureErrorSnapshot_def)

lemma handleInvalidModelState_trip:
  "lastTrip (handleInvalidModelState M reason msg d) =
     Some \<lparr>Type = ''INVALID_MODEL_STATE'', Message = reason,
           Context = [''tea_msg'' \<mapsto> CtxFormattedMsg msg,
                      ''model_type'' \<mapsto> CtxModelType, ''timestamp'' \<mapsto> CtxTime],
           Attempt = 0, Severity = Error\<rparr>"
  "failed (handleInvalidModelState M reason msg d)"
  "cancelled (handleInvalidModelState M reason msg d)"
  "t_errors (handleInvalidModelState M reason msg d) = t_errors d"
  "length (snapshots (handleInvalidModelState M reason msg d)) = length (snapshots d) + 1"
  by (simp_all add: handleInvalidModelState_def Let_def recordTrip_error newStageTrip_eq
        captureErrorSnapshot_def)

text \<open>
  Claim C5, as the code has it. When \<open>Update\<close> of the wrapped model panics, the wrapper
  recovers and hands nil back to bubbletea; when it returns nil, or a model that is no
  \<open>REPLModel\<close>, the wrapper hands back itself. In each case, if the wrapper has its
  director, the director gets the error snapshot, one more trip in its handler, which
  is also its last trip, the \<open>failed\<close> flag and a cancelled context, and nothing else
  changes; in particular nothing is reported through \<open>d.t.Error\<close>. The trip has type
  \<open>MODEL_PANIC\<close>, or \<open>INVALID_MODEL_STATE\<close>, and severity \<open>Error\<close>.
\<close>

theorem C5_fail_fast_trip:
  "(director w \<and> Update M (wrapped w) msg = Panics r \<longrightarrow>
      Update_wrapper M w msg d =
        (None,
         d\<lparr>snapshots := snapshots d @
              [\<lparr>SView = ''ERROR STATE (model_panic)'' @ [CHR 0x0A] @ ''Panic: '' @ r
                        @ [CHR 0x0A, CHR 0x0A] @ ''Last View:'' @ [CHR 0x0A] @ getCurrentView M d,
                SMode = ''error_model_panic'', SInput = getCurrentInput M d\<rparr>],
            tripHandler := (tripHandler d)
              \<lparr>trips := trips (tripHandler d) @
                 [\<lparr>Type = ''MODEL_PANIC'', Message = ''Model panic during Update: '' @ r,
                   Context = [''panic_value'' \<mapsto> CtxPanicValue r,
                              ''tea_msg'' \<mapsto> CtxFormattedMsg msg,
                              ''model_type'' \<mapsto> CtxModelType, ''timestamp'' \<mapsto> CtxTime],
                   Attempt = 0, Severity = Error\<rparr>]\<rparr>,
            lastTrip :=
              Some \<lparr>Type = ''MODEL_PANIC'', Message = ''Model panic during Update: '' @ r,
                    Context = [''panic_value'' \<mapsto> CtxPanicValue r,
                               ''tea_msg'' \<mapsto> CtxFormattedMsg msg,
                               ''model_type'' \<mapsto> CtxModelType, ''timestamp'' \<mapsto> CtxTime],
                    Attempt = 0, Severity = Error\<rparr>,
            failed := True, cancelled := True\<rparr>)) \<and>
   (director w \<and> Update M (wrapped w) msg = ReturnsNil \<longrightarrow>
      Update_wrapper M w msg d =
        (Some w,
         d\<lparr>snapshots := snapshots d @
              [\<lparr>SView = ''ERROR STATE (invalid_model_state)'' @ [CHR 0x0A]
                        @ ''Update returned nil model''
                        @ [CHR 0x0A, CHR 0x0A] @ ''Last View:'' @ [CHR 0x0A] @ getCurrentView M d,
                SMode = ''error_invalid_model_state'', SInput = getCurrentInput M d\<rparr>],
            tripHandler := (tripHandler d)
              \<lparr>trips := trips (tripHandler d) @
                 [\<lparr>Type = ''INVALID_MODEL_STATE'', Message = ''Update returned nil model'',
                   Context = [''tea_msg'' \<mapsto> CtxFormattedMsg msg,
                              ''model_type'' \<mapsto> CtxModelType, ''timestamp'' \<mapsto> CtxTime],
                   Attempt = 0, Severity = Error\<rparr>]\<rparr>,
            lastTrip :=
              Some \<lparr>Type = ''INVALID_MODEL_STATE'', Message = ''Update returned nil model'',
                    Context = [''tea_msg'' \<mapsto> CtxFormattedMsg msg,
                               ''model_type'' \<mapsto> CtxModelType, ''timestamp'' \<mapsto> CtxTime],
                    Attempt = 0, Severity = Error\<rparr>,
            failed := True, cancelled := True\<rparr>)) \<and>
   (director w \<and> Update M (wrapped w) msg = ReturnsNonREPLModel \<longrightarrow>
      Update_wrapper M w msg d =
        (Some w,
         d\<lparr>snapshots := snapshots d @
              [\<lparr>SView = ''ERROR STATE (invalid_model_state)'' @ [CHR 0x0A]
                        @ ''Update returned non-REPLModel''
                        @ [CHR 0x0A, CHR 0x0A] @ ''Last View:'' @ [CHR 0x0A] @ getCurrentView M d,
                SMode = ''error_invalid_model_state'', SInput = getCurrentInput M d\<rparr>],
            tripHandler := (tripHandler d)
              \<lparr>trips := trips (tripHandler d) @
                 [\<lparr>Type = ''INVALID_MODEL_STATE'', Message = ''Update returned non-REPLModel'',
                   Context = [''tea_msg'' \<mapsto> CtxFormattedMsg msg,
                              ''model_type'' \<mapsto> CtxModelType, ''timestamp'' \<mapsto> CtxTime],
                   Attempt = 0, Severity = Error\<rparr>]\<rparr>,
            lastTrip :=
              Some \<lparr>Type = ''INVALID_MODEL_STATE'', Message = ''Update returned non-REPLModel'',
                    Context = [''tea_msg'' \<mapsto> CtxFormattedMsg msg,
                               ''model_type'' \<mapsto> CtxModelType, ''timestamp'' \<mapsto> CtxTime],
                    Attempt = 0, Severity = Error\<rparr>,
            failed := True, cancelled := True\<rparr>))"
proof (intro conjI impI)
  assume "director w \<and> Update M (wrapped w) msg = Panics r"
  then show "Update_wrapper M w msg d =
        (None,
         d\<lparr>snapshots := snapshots d @
              [\<lparr>SView = ''ERROR STATE (model_panic)'' @ [CHR 0x0A] @ ''Panic: '' @ r
                        @ [CHR 0x0A, CHR 0x0A] @ ''Last View:'' @ [CHR 0x0A] @ getCurrentView M d,
                SMode = ''error_model_panic'', SInput = getCurrentInput M d\<rparr>],
            tripHandler := (tripHandler d)
              \<lparr>trips := trips (tripHandler d) @
                 [\<lparr>Type = ''MODEL_PANIC'', Message = ''Model panic during Update: '' @ r,
                   Context = [''panic_value'' \<mapsto> CtxPanicValue r,
                              ''tea_msg'' \<mapsto> CtxFormattedMsg msg,
                              ''model_type'' \<mapsto> CtxModelType, ''timestamp'' \<mapsto> CtxTime],
                   Attempt = 0, Severity = Error\<rparr>]\<rparr>,
            lastTrip :=
              Some \<lparr>Type = ''MODEL_PANIC'', Message = ''Model panic during Update: '' @ r,
                    Context = [''panic_value'' \<mapsto> CtxPanicValue r,
                               ''tea_msg'' \<mapsto> CtxFormattedMsg msg,
                               ''model_type'' \<mapsto> CtxModelType, ''timestamp'' \<mapsto> CtxTime],
                    Attempt = 0, Severity = Error\<rparr>,
            failed := True, cancelled := True\<rparr>)"
    by (simp add: Update_wrapper_def handleModelPanic_def Let_def captureErrorSnapshot_def
          newStageTrip_eq recordTrip_error)
next
  assume "director w \<and> Update M (wrapped w) msg = ReturnsNil"
  then show "Update_wrapper M w msg d =
        (Some w,
         d\<lparr>snapshots := snapshots d @
              [\<lparr>SView = ''ERROR STATE (invalid_model_state)'' @ [CHR 0x0A]
                        @ ''Update returned nil model''
                        @ [CHR 0x0A, CHR 0x0A] @ ''Last View:'' @ [CHR 0x0A] @ getCurrentView M d,
                SMode = ''error_invalid_model_state'', SInput = getCurrentInput M d\<rparr>],
            tripHandler := (tripHandler d)
              \<lparr>trips := trips (tripHandler d) @
                 [\<lparr>Type = ''INVALID_MODEL_STATE'', Message = ''Update returned nil model'',
                   Context = [''tea_msg'' \<mapsto> CtxFormattedMsg msg,
                              ''model_type'' \<mapsto> CtxModelType, ''timestamp'' \<mapsto> CtxTime],
                   Attempt = 0, Severity = Error\<rparr>]\<rparr>,
            lastTrip :=
              Some \<lparr>Type = ''INVALID_MODEL_STATE'', Message = ''Update returned nil model'',
                    Context = [''tea_msg'' \<mapsto> CtxFormattedMsg msg,
                               ''model_type'' \<mapsto> CtxModelType, ''timestamp'' \<mapsto> CtxTime],
                    Attempt = 0, Severity = Error\<rparr>,
            failed := True, cancelled := True\<rparr>)"
    by (simp add: Update_wrapper_def handleInvalidModelState_def Let_def captureErrorSnapshot_def
          newStageTrip_eq recordTrip_error)
next
  assume "director w \<and> Update M (wrapped w) msg = ReturnsNonREPLModel"
  then show "Update_wrapper M w msg d =
        (Some w,
         d\<lparr>snapshots := snapshots d @
              [\<lparr>SView = ''ERROR STATE (invalid_model_state)'' @ [CHR 0x0A]
                        @ ''Update returned non-REPLModel''
                        @ [CHR 0x0A, CHR 0x0A] @ ''Last View:'' @ [CHR 0x0A] @ getCurrentView M d,
                SMode = ''error_invalid_model_state'', SInput = getCurrentInput M d\<rparr>],
            tripHandler := (tripHandler d)
              \<lparr>trips := trips (tripHandler d) @
                 [\<lparr>Type = ''INVALID_MODEL_STATE'', Message = ''Update returned non-REPLModel'',
                   Context = [''tea_msg'' \<mapsto> CtxFormattedMsg msg,
                              ''model_type'' \<mapsto> CtxModelType, ''timestamp'' \<mapsto> CtxTime],
                   Attempt = 0, Severity = Error\<rparr>]\<rparr>,
            lastTrip :=
              Some \<lparr>Type = ''INVALID_MODEL_STATE'', Message = ''Update returned non-REPLModel'',
                    Context = [''tea_msg'' \<mapsto> CtxFormattedMsg msg,
                               ''model_type'' \<mapsto> CtxModelType, ''timestamp'' \<mapsto> CtxTime],
                    Attempt = 0, Severity = Error\<rparr>,
            failed := True, cancelled := True\<rparr>)"
    by (simp add: Update_wrapper_def handleInvalidModelState_def Let_def captureErrorSnapshot_def
          newStageTrip_eq recordTrip_error)
qed

theorem C5_fail_fast_trip_witness:
  "fst (Update_wrapper PanickingREPL_model \<lparr>wrapped = NewMockREPL, director = True\<rparr>
          (KeyMsg KeyEnter []) (NewStageDirectorWithConfig NewMockREPL DefaultStageConfig)) = None \<and>
   map_option Type (lastTrip (snd (Update_wrapper PanickingREPL_model
      \<lparr>wrapped = NewMockREPL, director = True\<rparr> (KeyMsg KeyEnter [])
      (NewStageDirectorWithConfig NewMockREPL DefaultStageConfig)))) = Some ''MODEL_PANIC'' \<and>
   map_option Severity (lastTrip (snd (Update_wrapper PanickingREPL_model
      \<lparr>wrapped = NewMockREPL, director = True\<rparr> (KeyMsg KeyEnter [])
      (NewStageDirectorWithConfig NewMockREPL DefaultStageConfig)))) = Some Error \<and>
   failed (snd (Update_wrapper PanickingREPL_model
      \<lparr>wrapped = NewMockREPL, director = True\<rparr> (KeyMsg KeyEnter [])
      (NewStageDirectorWithConfig NewMockREPL DefaultStageConfig))) \<and>
   cancelled (snd (Update_wrapper PanickingREPL_model
      \<lparr>wrapped = NewMockREPL, director = True\<rparr> (KeyMsg KeyEnter [])
      (NewStageDirectorWithConfig NewMockREPL DefaultStageConfig))) \<and>
   map SMode (snapshots (snd (Update_wrapper PanickingREPL_model
      \<lparr>wrapped = NewMockREPL, director = True\<rparr> (KeyMsg KeyEnter [])
      (NewStageDirectorWithConfig NewMockREPL DefaultStageConfig)))) = [''error_model_panic''] \<and>
   map_option Type (lastTrip (snd (Update_wrapper NilREPL_model
      \<lparr>wrapped = NewMockREPL, director = True\<rparr> (KeyMsg KeyEnter [])
      (NewStageDirectorWithConfig NewMockREPL DefaultStageConfig)))) = Some ''INVALID_MODEL_STATE'' \<and>
   map_option Message (lastTrip (snd (Update_wrapper
      (MockREPL_model\<lparr>Update := (\<lambda>m msg. ReturnsNonREPLModel)\<rparr>)
      \<lparr>wrapped = NewMockREPL, director = True\<rparr> (KeyMsg KeyEnter [])
      (NewStageDirectorWithConfig NewMockREPL DefaultStageConfig))))
     = Some ''Update returned non-REPLModel''"
proof -
  let ?w = "\<lparr>wrapped = NewMockREPL, director = True\<rparr>"
  let ?d = "NewStageDirectorWithConfig NewMockREPL DefaultStageConfig"
  let ?N = "MockREPL_model\<lparr>Update := (\<lambda>m msg. ReturnsNonREPLModel)\<rparr>"
  have p: "director ?w \<and> Update PanickingREPL_model (wrapped ?w) (KeyMsg KeyEnter []) = Panics ''boom''"
    by (simp add: PanickingREPL_model_def)
  have n: "director ?w \<and> Update NilREPL_model (wrapped ?w) (KeyMsg KeyEnter []) = ReturnsNil"
    by (simp add: NilREPL_model_def)
  have o: "director ?w \<and> Update ?N (wrapped ?w) (KeyMsg KeyEnter []) = ReturnsNonREPLModel"
    by simp
  note a = C5_fail_fast_trip [of ?w PanickingREPL_model "KeyMsg KeyEnter []" "''boom''" ?d,
                              THEN conjunct1, THEN mp, OF p]
  note b = C5_fail_fast_trip [of ?w NilREPL_model "KeyMsg KeyEnter []" "''boom''" ?d,
                              THEN conjunct2, THEN conjunct1, THEN mp, OF n]
  note c = C5_fail_fast_trip [of ?w ?N "KeyMsg KeyEnter []" "''boom''" ?d,
                              THEN conjunct2, THEN conjunct2, THEN mp, OF o]
  have e: "snapshots ?d = []"
    by (simp add: NewStageDirectorWithConfig_def)
  show ?thesis
    by (simp only: a b c) (simp add: e)
qed

text \<open>
  Claim C5 as stated fails: the trip recorded for a panicking \<open>Update\<close>, and for one
  that returns nil, does not have severity \<open>Fall\<close>, and it is not reported through
  \<open>d.t.Error\<close>.
\<close>

theorem C5_severity_counterexample:
  "map_option Type (lastTrip (snd (Update_wrapper PanickingREPL_model
      \<lparr>wrapped = NewMockREPL, director = True\<rparr> (KeyMsg KeyEnter [])
      (NewStageDirectorWithConfig NewMockREPL DefaultStageConfig)))) = Some ''MODEL_PANIC'' \<and>
   map_option Severity (lastTrip (snd (Update_wrapper PanickingREPL_model
      \<lparr>wrapped = NewMockREPL, director = True\<rparr> (KeyMsg KeyEnter [])
      (NewStageDirectorWithConfig NewMockREPL DefaultStageConfig)))) = Some Error \<and>
   t_errors (snd (Update_wrapper PanickingREPL_model
      \<lparr>wrapped = NewMockREPL, director = True\<rparr> (KeyMsg KeyEnter [])
      (NewStageDirectorWithConfig NewMockREPL DefaultStageConfig))) = [] \<and>
   map_option Type (lastTrip (snd (Update_wrapper NilREPL_model
      \<lparr>wrapped = NewMockREPL, director = True\<rparr> (KeyMsg KeyEnter [])
      (NewStageDirectorWithConfig NewMockREPL DefaultStageConfig)))) = Some ''INVALID_MODEL_STATE'' \<and>
   map_option Severity (lastTrip (snd (Update_wrapper NilREPL_model
      \<lparr>wrapped = NewMockREPL, director = True\<rparr> (KeyMsg KeyEnter [])
      (NewStageDirectorWithConfig NewMockREPL DefaultStageConfig)))) = Some Error \<and>
   Error \<noteq> Fall"
proof -
  have p: "Update PanickingREPL_model NewMockREPL (KeyMsg KeyEnter []) = Panics ''boom''"
    by (simp add: PanickingREPL_model_def)
  have n: "Update NilREPL_model NewMockREPL (KeyMsg KeyEnter []) = ReturnsNil"
    by (simp add: NilREPL_model_def)
  have e: "t_errors (NewStageDirectorWithConfig NewMockREPL DefaultStageConfig) = []"
    by (simp add: NewStageDirectorWithConfig_def)
  show ?thesis
    by (simp add: Update_wrapper_def p n handleModelPanic_trip handleInvalidModelState_trip e)
qed

section \<open>Stopping a director that was never started\<close>

text \<open>
  Claim C8 says that \<open>Stop\<close> on a harness that was never started returns a failure
  with a message that it was never started, and leaves the harness as it was. The code
  of \<open>StageDirector.Stop\<close> at that input: on a new director it returns \<open>Success = true\<close>
  with an empty message, and it cancels the session context.
\<close>

theorem C8_stop_unstarted_stage_director:
  "\<not> started (NewStageDirectorWithConfig NewMockREPL DefaultStageConfig) \<and>
   \<not> cancelled (NewStageDirectorWithConfig NewMockREPL DefaultStageConfig) \<and>
   fst (Stop MockREPL_model (NewStageDirectorWithConfig NewMockREPL DefaultStageConfig))
     = \<lparr>Actions = [], Snapshots = [], Success = True, ErrorMessage = [], Error_of = None\<rparr> \<and>
   cancelled (snd (Stop MockREPL_model (NewStageDirectorWithConfig NewMockREPL DefaultStageConfig)))"
  by (simp add: Stop_def Let_def NewStageDirectorWithConfig_def getErrorMessage_def getError_def)

text \<open>
  The \<open>Stop\<close> of the earlier director does have the guard.
\<close>

lemma InteractiveTestDirector_Stop_unstarted:
  "\<not> itd_started d \<Longrightarrow>
   InteractiveTestDirector_Stop d =
     (\<lparr>Actions = [], Snapshots = [], Success = False,
       ErrorMessage = ''Test director was never started'', Error_of = None\<rparr>, d)"
  by (simp add: InteractiveTestDirector_Stop_def)

section \<open>Typing\<close>

subsection \<open>What every call of Type sends and records\<close>

lemma recordTrip_keeps:
  "program (recordTrip t d) = program d"
  "interactions (recordTrip t d) = interactions d"
  by (simp_all add: recordTrip_def Let_def)

lemma captureErrorSnapshot_keeps:
  "program (captureErrorSnapshot M a b d) = program d"
  "interactions (captureErrorSnapshot M a b d) = interactions d"
  by (simp_all add: captureErrorSnapshot_def Let_def)

lemma handleModelPanic_keeps:
  "program (handleModelPanic M r msg d) = program d"
  "interactions (handleModelPanic M r msg d) = interactions d"
  by (simp_all add: handleModelPanic_def Let_def recordTrip_keeps captureErrorSnapshot_keeps)

lemma handleInvalidModelState_keeps:
  "program (handleInvalidModelState M r msg d) = program d"
  "interactions (handleInvalidModelState M r msg d) = interactions d"
  by (simp_all add: handleInvalidModelState_def Let_def recordTrip_keeps captureErrorSnapshot_keeps)

lemma Update_wrapper_keeps:
  "program (snd (Update_wrapper M w msg d)) = program d"
  "interactions (snd (Update_wrapper M w msg d)) = interactions d"
  by (simp_all add: Update_wrapper_def Let_def handleModelPanic_keeps handleInvalidModelState_keeps
        split: update_result.splits option.splits)

lemma program_step_cases:
  "program_step M d = d \<or>
   (\<exists>p w. program d = Some p \<and> pmodel p = Some w \<and>
      program_step M d =
        (snd (Update_wrapper M w (sent p ! handled p) d))
          \<lparr>program := Some (p\<lparr>pmodel := fst (Update_wrapper M w (sent p ! handled p) d),
                               handled := handled p + 1\<rparr>)\<rparr>)"
  by (simp add: program_step_def split: option.splits prod.splits)

lemma program_step_keeps:
  "sent_messages (program_step M d) = sent_messages d"
  "interactions (program_step M d) = interactions d"
  "(program (program_step M d) = None) = (program d = None)"
  using program_step_cases [of M d]
  by (auto simp: sent_messages_def Update_wrapper_keeps)

lemma syncModelUpdates_step_keeps:
  "program (syncModelUpdates_step u d) = program d"
  "interactions (syncModelUpdates_step u d) = interactions d"
  by (simp_all add: syncModelUpdates_step_def Let_def)

lemma consumer_step_keeps:
  "program (consumer_step d) = program d"
  "interactions (consumer_step d) = interactions d"
  by (simp_all add: consumer_step_def syncModelUpdates_step_keeps split: option.splits list.splits)

lemma consumer_step_sent: "sent_messages (consumer_step d) = sent_messages d"
  by (simp add: sent_messages_def consumer_step_keeps)

lemma run_bg_sent: "sent_messages (run_bg M bs d) = sent_messages d"
  by (induction M bs d rule: run_bg.induct)
     (simp_all add: program_step_keeps consumer_step_sent)

lemma run_bg_interactions: "interactions (run_bg M bs d) = interactions d"
  by (induction M bs d rule: run_bg.induct)
     (simp_all add: program_step_keeps consumer_step_keeps)

lemma run_bg_program: "(program (run_bg M bs d) = None) = (program d = None)"
  by (induction M bs d rule: run_bg.induct)
     (simp_all add: program_step_keeps consumer_step_keeps)

lemma captureSnapshot_keeps:
  "program (captureSnapshot M r d) = program d"
  "interactions (captureSnapshot M r d) = interactions d"
  "sent_messages (captureSnapshot M r d) = sent_messages d"
  by (simp_all add: captureSnapshot_def sent_messages_def)

lemma waitForViewChange_sent: "sent_messages (waitForViewChange M v ps d) = sent_messages d"
  by (induction M v ps d rule: waitForViewChange.induct)
     (simp_all add: Let_def run_bg_sent split: select_case.splits)

lemma waitForViewChange_interactions: "interactions (waitForViewChange M v ps d) = interactions d"
  by (induction M v ps d rule: waitForViewChange.induct)
     (simp_all add: Let_def run_bg_interactions split: select_case.splits)

lemma waitForViewChange_program: "(program (waitForViewChange M v ps d) = None) = (program d = None)"
  by (induction M v ps d rule: waitForViewChange.induct)
     (simp_all add: Let_def run_bg_program split: select_case.splits)

lemma sendMessage_eq:
  "program d = Some p \<Longrightarrow>
   sendMessage M msg ps d =
     captureSnapshot M ''interaction''
       (waitForViewChange M (getCurrentView M d) ps (d\<lparr>program := Some (Send msg p)\<rparr>))"
  by (simp add: sendMessage_def Let_def)

lemma sendMessage_sent:
  assumes "program d \<noteq> None"
  shows "sent_messages (sendMessage M msg ps d) = sent_messages d @ [msg]"
    and "interactions (sendMessage M msg ps d) = interactions d"
    and "program (sendMessage M msg ps d) \<noteq> None"
proof -
  from assms obtain p where p: "program d = Some p"
    by blast
  let ?d1 = "d\<lparr>program := Some (Send msg p)\<rparr>"
  note s = sendMessage_eq [OF p, of M msg ps]
  have "sent_messages ?d1 = sent_messages d @ [msg]"
    by (simp add: sent_messages_def p Send_def)
  then show "sent_messages (sendMessage M msg ps d) = sent_messages d @ [msg]"
    by (simp add: s captureSnapshot_keeps waitForViewChange_sent)
  show "interactions (sendMessage M msg ps d) = interactions d"
    by (simp add: s captureSnapshot_keeps waitForViewChange_interactions)
  have "program ?d1 \<noteq> None"
    by simp
  then show "program (sendMessage M msg ps d) \<noteq> None"
    by (simp only: s captureSnapshot_keeps waitForViewChange_program not_False_eq_True)
qed

lemma recordStageAction_keeps:
  "program (recordStageAction a x d) = program d"
  "sent_messages (recordStageAction a x d) = sent_messages d"
  "interactions (recordStageAction a x d) = interactions d @ [\<lparr>ActionType = a, Details = x, Result = None\<rparr>]"
  "config (recordStageAction a x d) = config d"
  by (simp_all add: recordStageAction_def sent_messages_def)

lemma Type_loop_sends:
  "program d \<noteq> None \<Longrightarrow>
   sent_messages (Type_loop M rs sched d) = sent_messages d @ map (\<lambda>r. KeyMsg KeyRunes [r]) rs \<and>
   interactions (Type_loop M rs sched d) =
     interactions d @ map (\<lambda>r. \<lparr>ActionType = ''type'', Details = DString (string_of_rune r),
                                  Result = None\<rparr>) rs \<and>
   program (Type_loop M rs sched d) \<noteq> None"
proof (induction rs arbitrary: sched d)
  case Nil
  then show ?case by simp
next
  case (Cons r rs)
  obtain mw asl where s: "(case sched of [] \<Rightarrow> ([], []) | s # _ \<Rightarrow> s) = (mw, asl)"
    by (cases "case sched of [] \<Rightarrow> ([], []) | s # _ \<Rightarrow> s")
  let ?d1 = "sendMessage M (KeyMsg KeyRunes [r]) mw d"
  let ?d2 = "recordStageAction ''type'' (DString (string_of_rune r)) ?d1"
  let ?d3 = "if TypingSpeed (config ?d2) > 0 then run_bg M asl ?d2 else ?d2"
  have t: "Type_loop M (r # rs) sched d = Type_loop M rs (tl sched) ?d3"
    by (simp add: s Let_def)
  note sm = sendMessage_sent [OF Cons.prems, of M "KeyMsg KeyRunes [r]" mw]
  have a: "sent_messages ?d3 = sent_messages d @ [KeyMsg KeyRunes [r]]"
    by (simp add: run_bg_sent recordStageAction_keeps sm)
  have b: "interactions ?d3 = interactions d @
             [\<lparr>ActionType = ''type'', Details = DString (string_of_rune r), Result = None\<rparr>]"
    by (simp add: run_bg_interactions recordStageAction_keeps sm)
  have "program ?d2 \<noteq> None"
    using sm(3) by (simp only: recordStageAction_keeps simp_thms)
  then have c: "program ?d3 \<noteq> None"
    using run_bg_program [of M asl ?d2] by (cases "TypingSpeed (config ?d2) > 0") simp_all
  from Cons.IH [OF c, of "tl sched"] show ?case
    by (simp only: t a b) simp
qed

subsection \<open>One keystroke when program and consumer keep up\<close>

text \<open>
  Three states of a keystroke: \<open>a\<close>, in which the message waits for the program;
  \<open>b\<close>, in which the program has handled it and its update waits in the queue; and
  \<open>c\<close>, in which the consumer has applied the update. Steps that have nothing to do
  change nothing.
\<close>

lemma run_bg_fixed:
  assumes "program_step M c = c" and "consumer_step c = c"
  shows "run_bg M bs c = c"
proof (induction bs)
  case Nil
  show ?case by simp
next
  case (Cons x bs)
  with assms show ?case by (cases x) simp_all
qed

lemma run_bg_published:
  assumes "program_step M b = b" and "consumer_step b = c"
    and "program_step M c = c" and "consumer_step c = c"
  shows "run_bg M bs b = (if ConsumerStep \<in> set bs then c else b)"
proof (induction bs)
  case Nil
  show ?case by simp
next
  case (Cons x bs)
  show ?case
  proof (cases x)
    case ProgramStep
    with Cons assms(1) show ?thesis by simp
  next
    case ConsumerStep
    with assms(2) run_bg_fixed [OF assms(3,4), of bs] show ?thesis by simp
  qed
qed

lemma caught_up_simps:
  "caught_up [] = False"
  "caught_up (ProgramStep # bs) = (ConsumerStep \<in> set bs)"
  "caught_up (ConsumerStep # bs) = caught_up bs"
  by (simp_all add: caught_up_def)

lemma run_bg_pending:
  assumes "consumer_step a = a" and "program_step M a = b"
    and "program_step M b = b" and "consumer_step b = c"
    and "program_step M c = c" and "consumer_step c = c"
  shows "run_bg M bs a = (if ProgramStep \<in> set bs then (if caught_up bs then c else b) else a)"
proof (induction bs)
  case Nil
  show ?case by simp
next
  case (Cons x bs)
  show ?case
  proof (cases x)
    case ProgramStep
    with assms(2) run_bg_published [OF assms(3,4,5,6), of bs] show ?thesis
      by (simp add: caught_up_simps)
  next
    case ConsumerStep
    with assms(1) Cons show ?thesis
      by (simp add: caught_up_simps)
  qed
qed

lemma waitForViewChange_fixed:
  assumes "program_step M c = c" and "consumer_step c = c"
  shows "waitForViewChange M v ps c = c"
  by (induction ps) (simp_all add: Let_def run_bg_fixed [OF assms] split: select_case.splits)

lemma select_of_default:
  "\<not> timer_fired p \<Longrightarrow> \<not> ctx_expired p \<Longrightarrow> \<not> cancelled d \<Longrightarrow> select_of p d = DefaultCase"
  by (simp add: select_of_def)

lemma wait_published:
  assumes "program_step M b = b" and "consumer_step b = c"
    and "program_step M c = c" and "consumer_step c = c"
    and "getCurrentView M b = v" and "\<not> cancelled b"
  shows "keeps_up True ps \<Longrightarrow> waitForViewChange M v ps b = c"
proof (induction ps)
  case Nil
  then show ?case by simp
next
  case (Cons p ps)
  from Cons.prems have q: "\<not> timer_fired p" "\<not> ctx_expired p"
    and k: "ConsumerStep \<in> set (during_sleep p) \<or> keeps_up True ps"
    by simp_all
  have s: "select_of p b = DefaultCase"
    using q assms(6) by (rule select_of_default)
  have w: "waitForViewChange M v (p # ps) b = waitForViewChange M v ps (run_bg M (during_sleep p) b)"
    by (simp add: s assms(5))
  note r = run_bg_published [OF assms(1,2,3,4), of "during_sleep p"]
  show ?case
  proof (cases "ConsumerStep \<in> set (during_sleep p)")
    case True
    with r w show ?thesis
      by (simp add: waitForViewChange_fixed [OF assms(3,4)])
  next
    case False
    with k have "keeps_up True ps" by simp
    with False r w Cons.IH show ?thesis by simp
  qed
qed

lemma caught_up_program: "caught_up bs \<Longrightarrow> ProgramStep \<in> set bs"
proof (induction bs)
  case Nil
  then show ?case by (simp add: caught_up_simps)
next
  case (Cons x bs)
  then show ?case by (cases x) (simp_all add: caught_up_simps)
qed

lemma wait_pending:
  assumes "consumer_step a = a" and "program_step M a = b"
    and "program_step M b = b" and "consumer_step b = c"
    and "program_step M c = c" and "consumer_step c = c"
    and "getCurrentView M a = v" and "\<not> cancelled a"
    and "getCurrentView M b = v" and "\<not> cancelled b"
  shows "keeps_up False ps \<Longrightarrow> waitForViewChange M v ps a = c"
proof (induction ps)
  case Nil
  then show ?case by simp
next
  case (Cons p ps)
  from Cons.prems have q: "\<not> timer_fired p" "\<not> ctx_expired p"
    and k: "caught_up (during_sleep p) \<or> keeps_up (ProgramStep \<in> set (during_sleep p)) ps"
    by simp_all
  have s: "select_of p a = DefaultCase"
    using q assms(8) by (rule select_of_default)
  have w: "waitForViewChange M v (p # ps) a = waitForViewChange M v ps (run_bg M (during_sleep p) a)"
    by (simp add: s assms(7))
  note r = run_bg_pending [OF assms(1,2,3,4,5,6), of "during_sleep p"]
  show ?case
  proof (cases "caught_up (during_sleep p)")
    case True
    then have "ProgramStep \<in> set (during_sleep p)" by (rule caught_up_program)
    with True r w show ?thesis
      by (simp add: waitForViewChange_fixed [OF assms(5,6)])
  next
    case False
    note nc = False
    show ?thesis
    proof (cases "ProgramStep \<in> set (during_sleep p)")
      case True
      with k nc have "keeps_up True ps" by simp
      then have "waitForViewChange M v ps b = c"
        by (rule wait_published [OF assms(3,4,5,6,9,10)])
      with True nc r w show ?thesis by simp
    next
      case False
      with k nc have "keeps_up False ps" by simp
      with False r w Cons.IH show ?thesis by simp
    qed
  qed
qed

lemma sint_succ_bound:
  fixes a :: int64
  assumes "sint a < 2 ^ 63 - 1"
  shows "sint (a + 1) = sint a + 1"
proof -
  have "- (2 ^ 63) \<le> sint a"
    using sint_ge [of a] by simp
  with assms have "- (2 ^ 63) \<le> sint a + 1" and "sint a + 1 < 2 ^ 63"
    by linarith+
  then have "signed_take_bit 63 (sint a + 1) = sint a + 1"
    by (simp add: signed_take_bit_int_eq_self)
  then show ?thesis
    by (simp add: sint_word_add)
qed

lemma program_step_publish:
  assumes "program d = Some p" and "\<not> quit p" and "handled p < length (sent p)"
    and "pmodel p = Some w" and "director w"
    and "Update M (wrapped w) (sent p ! handled p) = Returns m'"
    and "modelChan d = Some ch" and "length (buf ch) < cap ch"
  shows "program_step M d =
           d\<lparr>updateSeq := updateSeq d + 1,
             modelChan := Some (ch\<lparr>buf := buf ch @ [\<lparr>model = m', sequence = updateSeq d + 1\<rparr>]\<rparr>),
             updatesSent := updatesSent d + 1,
             program := Some (p\<lparr>pmodel := Some \<lparr>wrapped = m', director = True\<rparr>,
                                 handled := handled p + 1\<rparr>)\<rparr>"
  using assms by (simp add: program_step_def Update_wrapper_def Let_def)

lemma consumer_step_apply:
  assumes "modelChan d = Some ch" and "buf ch = u # rest"
    and "sint (lastProcessedSeq d) < sint (sequence u)"
  shows "latestModel (consumer_step d) = Some (model u)"
    and "lastProcessedSeq (consumer_step d) = sequence u"
    and "modelChan (consumer_step d) = Some (ch\<lparr>buf := rest\<rparr>)"
    and "program (consumer_step d) = program d"
    and "updateSeq (consumer_step d) = updateSeq d"
    and "config (consumer_step d) = config d"
  using assms
  by (simp_all add: consumer_step_def syncModelUpdates_step_def Let_def word_sle_eq)

lemma in_sync_fields:
  assumes "in_sync d"
  obtains p w ch where "program d = Some p" "pmodel p = Some w" "modelChan d = Some ch"
    "\<not> quit p" "handled p = length (sent p)" "buf ch = []" "0 < cap ch" "director w"
    "latestModel d = Some (wrapped w)" "sint (lastProcessedSeq d) \<le> sint (updateSeq d)"
  using assms
  by (auto simp: in_sync_def word_sle_eq split: option.splits)

lemma in_sync_intro:
  assumes "program d = Some p" "pmodel p = Some w" "modelChan d = Some ch"
    "\<not> quit p" "handled p = length (sent p)" "buf ch = []" "0 < cap ch" "director w"
    "latestModel d = Some (wrapped w)" "sint (lastProcessedSeq d) \<le> sint (updateSeq d)"
  shows "in_sync d"
  using assms by (simp add: in_sync_def word_sle_eq)

lemma in_sync_program_step: "in_sync d \<Longrightarrow> program_step M d = d"
  by (erule in_sync_fields) (simp add: program_step_def)

lemma in_sync_consumer_step: "in_sync d \<Longrightarrow> consumer_step d = d"
  by (erule in_sync_fields) (simp add: consumer_step_def)

lemma in_sync_run_bg: "in_sync d \<Longrightarrow> run_bg M bs d = d"
  by (induction M bs d rule: run_bg.induct)
     (simp_all add: in_sync_program_step in_sync_consumer_step)


lemma captureSnapshot_sync:
  "in_sync (captureSnapshot M r d) = in_sync d"
  "getCurrentInput M (captureSnapshot M r d) = getCurrentInput M d"
  "updateSeq (captureSnapshot M r d) = updateSeq d"
  "config (captureSnapshot M r d) = config d"
  by (simp_all add: captureSnapshot_def in_sync_def getCurrentInput_def split: option.splits)

lemma consumer_step_cancelled: "cancelled (consumer_step d) = cancelled d"
  by (simp add: consumer_step_def syncModelUpdates_step_def Let_def split: option.splits list.splits)

lemma captureSnapshot_cancelled: "cancelled (captureSnapshot M r d) = cancelled d"
  by (simp add: captureSnapshot_def)

lemma keystroke_in_sync:
  assumes app: "\<forall>m rs. \<exists>m'. Update M m (KeyMsg KeyRunes rs) = Returns m' \<and>
                          CurrentInput M m' = CurrentInput M m @ string_of_runes rs"
    and sync: "in_sync d"
    and nc: "\<not> cancelled d"
    and nowrap: "sint (updateSeq d) < 2 ^ 63 - 1"
    and keeps: "keeps_up False ps"
  shows "in_sync (sendMessage M (KeyMsg KeyRunes [r]) ps d)"
    and "getCurrentInput M (sendMessage M (KeyMsg KeyRunes [r]) ps d)
           = getCurrentInput M d @ string_of_rune r"
    and "sint (updateSeq (sendMessage M (KeyMsg KeyRunes [r]) ps d))
           = sint (updateSeq d) + 1"
    and "config (sendMessage M (KeyMsg KeyRunes [r]) ps d) = config d"
    and "\<not> cancelled (sendMessage M (KeyMsg KeyRunes [r]) ps d)"
proof -
  let ?msg = "KeyMsg KeyRunes [r]"
  from sync obtain p w ch where f: "program d = Some p" "pmodel p = Some w" "modelChan d = Some ch"
    "\<not> quit p" "handled p = length (sent p)" "buf ch = []" "0 < cap ch" "director w"
    "latestModel d = Some (wrapped w)" "sint (lastProcessedSeq d) \<le> sint (updateSeq d)"
    by (rule in_sync_fields)
  from app obtain m' where m': "Update M (wrapped w) ?msg = Returns m'"
    "CurrentInput M m' = CurrentInput M (wrapped w) @ string_of_runes [r]"
    by blast
  let ?p1 = "Send ?msg p"
  let ?d1 = "d\<lparr>program := Some ?p1\<rparr>"
  let ?u = "\<lparr>model = m', sequence = updateSeq d + 1\<rparr>"
  let ?p2 = "?p1\<lparr>pmodel := Some \<lparr>wrapped = m', director = True\<rparr>, handled := handled ?p1 + 1\<rparr>"
  let ?d2 = "?d1\<lparr>updateSeq := updateSeq ?d1 + 1,
                 modelChan := Some (ch\<lparr>buf := buf ch @ [\<lparr>model = m', sequence = updateSeq ?d1 + 1\<rparr>]\<rparr>),
                 updatesSent := updatesSent ?d1 + 1,
                 program := Some ?p2\<rparr>"
  have nth: "sent ?p1 ! handled ?p1 = ?msg"
    by (simp add: Send_def f(5))
  have ps: "program_step M ?d1 = ?d2"
  proof (rule program_step_publish)
    show "program ?d1 = Some ?p1" by simp
    show "\<not> quit ?p1" by (simp add: Send_def f(4))
    show "handled ?p1 < length (sent ?p1)" by (simp add: Send_def f(5))
    show "pmodel ?p1 = Some w" by (simp add: Send_def f(2))
    show "director w" by (rule f(8))
    show "Update M (wrapped w) (sent ?p1 ! handled ?p1) = Returns m'" by (simp only: nth m'(1))
    show "modelChan ?d1 = Some ch" by (simp add: f(3))
    show "length (buf ch) < cap ch" by (simp add: f(6) f(7))
  qed
  let ?ch2 = "ch\<lparr>buf := buf ch @ [\<lparr>model = m', sequence = updateSeq ?d1 + 1\<rparr>]\<rparr>"
  have c2: "modelChan ?d2 = Some ?ch2" by simp
  have b2: "buf ?ch2 = ?u # []" by (simp add: f(6))
  have seq: "sint (updateSeq d + 1) = sint (updateSeq d) + 1"
    using nowrap by (rule sint_succ_bound)
  have newer: "sint (lastProcessedSeq ?d2) < sint (sequence ?u)"
    using f(10) seq by simp
  note cs = consumer_step_apply [OF c2 b2 newer]
  let ?d3 = "consumer_step ?d2"
  have lat: "latestModel ?d3 = Some m'" using cs(1) by simp
  have lst: "lastProcessedSeq ?d3 = updateSeq d + 1" using cs(2) by simp
  have chn: "modelChan ?d3 = Some (ch\<lparr>buf := []\<rparr>)" using cs(3) by simp
  have prg: "program ?d3 = Some ?p2" using cs(4) by simp
  have usq: "updateSeq ?d3 = updateSeq d + 1" using cs(5) by simp
  have cfg: "config ?d3 = config d" using cs(6) by simp
  have sync3: "in_sync ?d3"
  proof (rule in_sync_intro)
    show "program ?d3 = Some ?p2" by (rule prg)
    show "pmodel ?p2 = Some \<lparr>wrapped = m', director = True\<rparr>" by simp
    show "modelChan ?d3 = Some (ch\<lparr>buf := []\<rparr>)" by (rule chn)
    show "\<not> quit ?p2" by (simp add: Send_def f(4))
    show "handled ?p2 = length (sent ?p2)" by (simp add: Send_def f(5))
    show "buf (ch\<lparr>buf := []\<rparr>) = []" by simp
    show "0 < cap (ch\<lparr>buf := []\<rparr>)" by (simp add: f(7))
    show "director \<lparr>wrapped = m', director = True\<rparr>" by simp
    show "latestModel ?d3 = Some (wrapped \<lparr>wrapped = m', director = True\<rparr>)" by (simp only: lat stageModelWrapper.simps)
    show "sint (lastProcessedSeq ?d3) \<le> sint (updateSeq ?d3)" by (simp only: lst usq)
  qed
  have a1: "consumer_step ?d1 = ?d1"
    by (simp add: consumer_step_def f(3) f(6))
  have b1: "program_step M ?d2 = ?d2"
    by (simp add: program_step_def Send_def f(5))
  have va: "getCurrentView M ?d1 = getCurrentView M d"
    by (simp add: getCurrentView_def)
  have vb: "getCurrentView M ?d2 = getCurrentView M d"
    by (simp add: getCurrentView_def)
  have na: "\<not> cancelled ?d1" using nc by simp
  have nb: "\<not> cancelled ?d2" using nc by simp
  have wv: "waitForViewChange M (getCurrentView M d) ps ?d1 = ?d3"
    using keeps
    by (rule wait_pending [OF a1 ps b1 refl in_sync_program_step [OF sync3]
                              in_sync_consumer_step [OF sync3] va na vb nb])
  have sm: "sendMessage M ?msg ps d = captureSnapshot M ''interaction'' ?d3"
    by (simp only: sendMessage_eq [OF f(1)] wv)
  have one: "string_of_runes [r] = string_of_rune r"
    by (simp add: string_of_runes_def)
  have inp3: "getCurrentInput M ?d3 = getCurrentInput M d @ string_of_rune r"
    by (simp only: getCurrentInput_def lat f(9) option.case m'(2) one)
  have nc3: "\<not> cancelled ?d3"
    using nb by (simp only: consumer_step_cancelled simp_thms)
  show "in_sync (sendMessage M ?msg ps d)"
    using sync3 by (simp only: sm captureSnapshot_sync)
  show "getCurrentInput M (sendMessage M ?msg ps d)
           = getCurrentInput M d @ string_of_rune r"
    using inp3 by (simp only: sm captureSnapshot_sync)
  show "sint (updateSeq (sendMessage M ?msg ps d))
           = sint (updateSeq d) + 1"
    by (simp only: sm captureSnapshot_sync usq seq)
  show "config (sendMessage M ?msg ps d) = config d"
    by (simp only: sm captureSnapshot_sync cfg)
  show "\<not> cancelled (sendMessage M ?msg ps d)"
    using nc3 by (simp only: sm captureSnapshot_cancelled simp_thms)
qed

subsection \<open>Decoding what was encoded\<close>

lemma byte_id: "0 \<le> (x::int) \<Longrightarrow> x < 256 \<Longrightarrow> of_char (char_of x) = x"
  by (simp add: of_char_of)

lemma cont_mod: "0 \<le> (b::int) \<Longrightarrow> b < 64 \<Longrightarrow> (128 + b) mod 64 = b"
proof -
  assume a: "0 \<le> b" "b < 64"
  have "(128 + b) mod 64 = (b + 2 * 64) mod 64" by (simp add: add.commute)
  also have "\<dots> = b mod 64" by (simp only: mod_mult_self1)
  also have "\<dots> = b" using a by simp
  finally show ?thesis .
qed

lemma lead_mod:
  fixes a :: int
  assumes "0 \<le> a" "a < k" "0 < k"
  shows "(n * k + a) mod k = a"
  using assms by simp

lemma lead2: "0 \<le> (a::int) \<Longrightarrow> a < 32 \<Longrightarrow> (192 + a) mod 32 = a"
  using lead_mod [of a 32 6] by (simp add: add.commute)

lemma lead3: "0 \<le> (a::int) \<Longrightarrow> a < 16 \<Longrightarrow> (224 + a) mod 16 = a"
  using lead_mod [of a 16 14] by (simp add: add.commute)

lemma lead4: "0 \<le> (a::int) \<Longrightarrow> a < 8 \<Longrightarrow> (240 + a) mod 8 = a"
  using lead_mod [of a 8 30] by (simp add: add.commute)

lemma decode1_digits:
  assumes "0 \<le> r" "r < 0x80"
  shows "DecodeRune (char_of r # rest) = (r, 1)"
proof -
  have b: "of_char (char_of r) = r"
    using assms by (intro byte_id) simp_all
  show ?thesis
    using assms by (simp add: DecodeRune_def b)
qed

lemma decode2_digits:
  assumes "2 \<le> A" "A < 32" "0 \<le> B" "B < 64"
  shows "DecodeRune (char_of (0xC0 + A) # char_of (0x80 + B) # rest) = (A * 64 + B, 2)"
proof -
  have b0: "of_char (char_of (0xC0 + A)) = 0xC0 + A"
    using assms by (intro byte_id) simp_all
  have b1: "of_char (char_of (0x80 + B)) = 0x80 + B"
    using assms by (intro byte_id) simp_all
  have m0: "(192 + A) mod 32 = A"
    using assms by (intro lead2) simp_all
  have m1: "(128 + B) mod 64 = B"
    using assms by (intro cont_mod) simp_all
  show ?thesis
    using assms by (simp add: DecodeRune_def Let_def b0 b1 m0 m1 is_cont_def)
qed

lemma decode3_digits:
  assumes "0 \<le> A" "A < 16" "0 \<le> B" "B < 64" "0 \<le> C" "C < 64"
    and "A = 0 \<longrightarrow> 32 \<le> B" and "A = 13 \<longrightarrow> B < 32"
  shows "DecodeRune (char_of (0xE0 + A) # char_of (0x80 + B) # char_of (0x80 + C) # rest)
           = (A * 4096 + B * 64 + C, 3)"
proof -
  have b0: "of_char (char_of (0xE0 + A)) = 0xE0 + A"
    using assms by (intro byte_id) simp_all
  have b1: "of_char (char_of (0x80 + B)) = 0x80 + B"
    using assms by (intro byte_id) simp_all
  have b2: "of_char (char_of (0x80 + C)) = 0x80 + C"
    using assms by (intro byte_id) simp_all
  have m0: "(224 + A) mod 16 = A"
    using assms by (intro lead3) simp_all
  have m1: "(128 + B) mod 64 = B"
    using assms by (intro cont_mod) simp_all
  have m2: "(128 + C) mod 64 = C"
    using assms by (intro cont_mod) simp_all
  show ?thesis
    using assms by (auto simp: DecodeRune_def Let_def b0 b1 b2 m0 m1 m2 is_cont_def)
qed

lemma decode4_digits:
  assumes "0 \<le> A" "A \<le> 4" "0 \<le> B" "B < 64" "0 \<le> C" "C < 64" "0 \<le> D" "D < 64"
    and "A = 0 \<longrightarrow> 16 \<le> B" and "A = 4 \<longrightarrow> B < 16"
  shows "DecodeRune (char_of (0xF0 + A) # char_of (0x80 + B) # char_of (0x80 + C)
                       # char_of (0x80 + D) # rest)
           = (A * 262144 + B * 4096 + C * 64 + D, 4)"
proof -
  have b0: "of_char (char_of (0xF0 + A)) = 0xF0 + A"
    using assms by (intro byte_id) simp_all
  have b1: "of_char (char_of (0x80 + B)) = 0x80 + B"
    using assms by (intro byte_id) simp_all
  have b2: "of_char (char_of (0x80 + C)) = 0x80 + C"
    using assms by (intro byte_id) simp_all
  have b3: "of_char (char_of (0x80 + D)) = 0x80 + D"
    using assms by (intro byte_id) simp_all
  have m0: "(240 + A) mod 8 = A"
    using assms by (intro lead4) simp_all
  have m1: "(128 + B) mod 64 = B"
    using assms by (intro cont_mod) simp_all
  have m2: "(128 + C) mod 64 = C"
    using assms by (intro cont_mod) simp_all
  have m3: "(128 + D) mod 64 = D"
    using assms by (intro cont_mod) simp_all
  show ?thesis
    using assms by (auto simp: DecodeRune_def Let_def b0 b1 b2 b3 m0 m1 m2 m3 is_cont_def)
qed


lemma digits64: "(q::int) div 64 * 64 + q mod 64 = q"
  by simp

lemma encode2:
  assumes "0x80 \<le> r" "r < 0x800"
  shows "\<exists>A B. string_of_rune r = [char_of (0xC0 + A), char_of (0x80 + B)] \<and> r = A * 64 + B
               \<and> 2 \<le> A \<and> A < 32 \<and> 0 \<le> B \<and> B < 64"
proof -
  have lo: "0x80 div 64 \<le> r div 64"
    using assms(1) by (intro zdiv_mono1) simp_all
  have hi: "r div 64 \<le> 0x7FF div 64"
    using assms(2) by (intro zdiv_mono1) simp_all
  have "string_of_rune r = [char_of (0xC0 + r div 64), char_of (0x80 + r mod 64)]"
    using assms by (simp add: string_of_rune_def)
  moreover have "r = r div 64 * 64 + r mod 64"
    by simp
  moreover have "2 \<le> r div 64" "r div 64 < 32"
    using lo hi by simp_all
  moreover have "0 \<le> r mod 64" "r mod 64 < 64"
    by simp_all
  ultimately show ?thesis
    by blast
qed

lemma encode3:
  assumes "0x800 \<le> r" "r < 0x10000" "\<not> (0xD800 \<le> r \<and> r \<le> 0xDFFF)"
  shows "\<exists>A B C. string_of_rune r = [char_of (0xE0 + A), char_of (0x80 + B), char_of (0x80 + C)]
               \<and> r = A * 4096 + B * 64 + C
               \<and> 0 \<le> A \<and> A < 16 \<and> 0 \<le> B \<and> B < 64 \<and> 0 \<le> C \<and> C < 64
               \<and> (A = 0 \<longrightarrow> 32 \<le> B) \<and> (A = 13 \<longrightarrow> B < 32)"
proof -
  define Q where "Q = r div 64"
  define A where "A = Q div 64"
  define B where "B = Q mod 64"
  define C where "C = r mod 64"
  have rq: "r = Q * 64 + C"
    by (simp add: Q_def C_def)
  have qa: "Q = A * 64 + B"
    by (simp add: A_def B_def)
  have a: "r div 4096 = A"
    using zdiv_zmult2_eq [of 64 r 64] by (simp add: A_def Q_def)
  have bnd: "0 \<le> B" "B < 64" "0 \<le> C" "C < 64"
    by (simp_all add: B_def C_def)
  have s: "string_of_rune r = [char_of (0xE0 + A), char_of (0x80 + B), char_of (0x80 + C)]"
    using assms by (auto simp: string_of_rune_def a B_def C_def Q_def)
  have r: "r = A * 4096 + B * 64 + C"
    using rq qa by simp
  have A: "0 \<le> A" "A < 16"
    using r bnd assms by linarith+
  have e0: "A = 0 \<longrightarrow> 32 \<le> B"
    using r bnd assms by linarith
  have e13: "A = 13 \<longrightarrow> B < 32"
    using r bnd assms by linarith
  from s r A bnd e0 e13 show ?thesis
    by blast
qed

lemma encode4:
  assumes "0x10000 \<le> r" "r \<le> 0x10FFFF"
  shows "\<exists>A B C D. string_of_rune r = [char_of (0xF0 + A), char_of (0x80 + B), char_of (0x80 + C),
                                       char_of (0x80 + D)]
               \<and> r = A * 262144 + B * 4096 + C * 64 + D
               \<and> 0 \<le> A \<and> A \<le> 4 \<and> 0 \<le> B \<and> B < 64 \<and> 0 \<le> C \<and> C < 64 \<and> 0 \<le> D \<and> D < 64
               \<and> (A = 0 \<longrightarrow> 16 \<le> B) \<and> (A = 4 \<longrightarrow> B < 16)"
proof -
  define Q where "Q = r div 64"
  define P where "P = Q div 64"
  define A where "A = P div 64"
  define B where "B = P mod 64"
  define C where "C = Q mod 64"
  define D where "D = r mod 64"
  have rq: "r = Q * 64 + D"
    by (simp add: Q_def D_def)
  have qp: "Q = P * 64 + C"
    by (simp add: P_def C_def)
  have pa: "P = A * 64 + B"
    by (simp add: A_def B_def)
  have p: "r div 4096 = P"
    using zdiv_zmult2_eq [of 64 r 64] by (simp add: P_def Q_def)
  have a: "r div 262144 = A"
    using zdiv_zmult2_eq [of 64 r 4096] p by (simp add: A_def)
  have bnd: "0 \<le> B" "B < 64" "0 \<le> C" "C < 64" "0 \<le> D" "D < 64"
    by (simp_all add: B_def C_def D_def)
  have s: "string_of_rune r = [char_of (0xF0 + A), char_of (0x80 + B), char_of (0x80 + C),
                               char_of (0x80 + D)]"
    using assms by (simp add: string_of_rune_def a p B_def C_def D_def Q_def)
  have r: "r = A * 262144 + B * 4096 + C * 64 + D"
    using rq qp pa by simp
  have A: "0 \<le> A" "A \<le> 4"
    using r bnd assms by linarith+
  have e0: "A = 0 \<longrightarrow> 16 \<le> B"
    using r bnd assms by linarith
  have e4: "A = 4 \<longrightarrow> B < 16"
    using r bnd assms by linarith
  from s r A bnd e0 e4 show ?thesis
    by blast
qed

lemma DecodeRune_string_of_rune:
  assumes "valid_rune r"
  shows "DecodeRune (string_of_rune r @ rest) = (r, length (string_of_rune r))"
proof -
  from assms have v: "0 \<le> r" "r \<le> 0x10FFFF" "\<not> (0xD800 \<le> r \<and> r \<le> 0xDFFF)"
    by (simp_all add: valid_rune_def)
  consider "r < 0x80" | "0x80 \<le> r" "r < 0x800" | "0x800 \<le> r" "r < 0x10000" | "0x10000 \<le> r"
    by linarith
  then show ?thesis
  proof cases
    case 1
    then have "string_of_rune r = [char_of r]"
      using v by (simp add: string_of_rune_def)
    then show ?thesis
      using decode1_digits [OF v(1) 1] by simp
  next
    case 2
    from encode2 [OF 2] obtain A B where
      "string_of_rune r = [char_of (0xC0 + A), char_of (0x80 + B)]" "r = A * 64 + B"
      "2 \<le> A" "A < 32" "0 \<le> B" "B < 64"
      by blast
    then show ?thesis
      using decode2_digits [of A B rest] by simp
  next
    case 3
    from encode3 [OF 3 v(3)] obtain A B C where
      "string_of_rune r = [char_of (0xE0 + A), char_of (0x80 + B), char_of (0x80 + C)]"
      "r = A * 4096 + B * 64 + C"
      "0 \<le> A" "A < 16" "0 \<le> B" "B < 64" "0 \<le> C" "C < 64"
      "A = 0 \<longrightarrow> 32 \<le> B" "A = 13 \<longrightarrow> B < 32"
      by blast
    then show ?thesis
      using decode3_digits [of A B C rest] by simp
  next
    case 4
    from encode4 [OF 4 v(2)] obtain A B C D where
      "string_of_rune r = [char_of (0xF0 + A), char_of (0x80 + B), char_of (0x80 + C),
                           char_of (0x80 + D)]"
      "r = A * 262144 + B * 4096 + C * 64 + D"
      "0 \<le> A" "A \<le> 4" "0 \<le> B" "B < 64" "0 \<le> C" "C < 64" "0 \<le> D" "D < 64"
      "A = 0 \<longrightarrow> 16 \<le> B" "A = 4 \<longrightarrow> B < 16"
      by blast
    then show ?thesis
      using decode4_digits [of A B C D rest] by simp
  qed
qed

lemma string_of_rune_nonempty: "string_of_rune r \<noteq> []"
  by (simp add: string_of_rune_def)

lemma runes_of_string_of_rune:
  assumes "valid_rune r"
  shows "runes_of (string_of_rune r @ rest) = r # runes_of rest"
proof -
  obtain c cs where s: "string_of_rune r = c # cs"
    using string_of_rune_nonempty [of r] by (cases "string_of_rune r") simp_all
  have d: "DecodeRune (c # cs @ rest) = (r, Suc (length cs))"
    using DecodeRune_string_of_rune [OF assms, of rest] s by simp
  show ?thesis
    by (simp add: s d)
qed

lemma runes_of_string_of_runes:
  "\<forall>r\<in>set rs. valid_rune r \<Longrightarrow> runes_of (string_of_runes rs) = rs"
  by (induction rs) (simp_all add: string_of_runes_def runes_of_string_of_rune)


subsection \<open>The round trip\<close>

lemma recordStageAction_sync:
  "in_sync (recordStageAction a x d) = in_sync d"
  "getCurrentInput M (recordStageAction a x d) = getCurrentInput M d"
  "updateSeq (recordStageAction a x d) = updateSeq d"
  by (simp_all add: recordStageAction_def in_sync_def getCurrentInput_def split: option.splits)

lemma recordStageAction_cancelled: "cancelled (recordStageAction a x d) = cancelled d"
  by (simp add: recordStageAction_def)

lemma Type_loop_sync:
  assumes app: "\<forall>m rs. \<exists>m'. Update M m (KeyMsg KeyRunes rs) = Returns m' \<and>
                          CurrentInput M m' = CurrentInput M m @ string_of_runes rs"
  shows "in_sync d \<Longrightarrow> \<not> cancelled d \<Longrightarrow> \<forall>s\<in>set sched. keeps_up False (fst s) \<Longrightarrow>
         length rs \<le> length sched \<Longrightarrow> sint (updateSeq d) + int (length rs) < 2 ^ 63 \<Longrightarrow>
         getCurrentInput M (Type_loop M rs sched d) = getCurrentInput M d @ string_of_runes rs"
proof (induction rs arbitrary: sched d)
  case Nil
  then show ?case by (simp add: string_of_runes_def)
next
  case (Cons r rs)
  from Cons.prems(4) obtain s sched' where sc: "sched = s # sched'"
    by (cases sched) simp_all
  obtain ps asl where s: "s = (ps, asl)"
    by (cases s)
  from Cons.prems(3) sc s have ku: "keeps_up False ps"
    by simp
  from Cons.prems(5) have nw: "sint (updateSeq d) < 2 ^ 63 - 1"
    by simp
  let ?d1 = "sendMessage M (KeyMsg KeyRunes [r]) ps d"
  let ?d2 = "recordStageAction ''type'' (DString (string_of_rune r)) ?d1"
  note k = keystroke_in_sync [OF app Cons.prems(1) Cons.prems(2) nw ku, of r]
  have sy2: "in_sync ?d2"
    using k(1) by (simp only: recordStageAction_sync)
  have in2: "getCurrentInput M ?d2 = getCurrentInput M d @ string_of_rune r"
    using k(2) by (simp only: recordStageAction_sync)
  have us2: "sint (updateSeq ?d2) = sint (updateSeq d) + 1"
    using k(3) by (simp only: recordStageAction_sync)
  have nc2: "\<not> cancelled ?d2"
    using k(5) by (simp only: recordStageAction_cancelled simp_thms)
  have d3: "(if TypingSpeed (config ?d2) > 0 then run_bg M asl ?d2 else ?d2) = ?d2"
    using in_sync_run_bg [OF sy2] by simp
  have t: "Type_loop M (r # rs) sched d = Type_loop M rs sched' ?d2"
    by (simp add: sc s Let_def d3)
  have "getCurrentInput M (Type_loop M rs sched' ?d2) = getCurrentInput M ?d2 @ string_of_runes rs"
  proof (rule Cons.IH [OF sy2 nc2])
    show "\<forall>s\<in>set sched'. keeps_up False (fst s)"
      using Cons.prems(3) sc by simp
    show "length rs \<le> length sched'"
      using Cons.prems(4) sc by simp
    show "sint (updateSeq ?d2) + int (length rs) < 2 ^ 63"
      using Cons.prems(5) us2 by simp
  qed
  then show ?case
    by (simp only: t in2) (simp add: string_of_runes_def)
qed

text \<open>
  Claim C9, as the code has it. On a director that has a program, \<open>Type\<close> sends one key
  message holding a single rune for each rune that \<open>range\<close> decodes from the text, in
  order, and appends one \<open>type\<close> action for each, carrying the string of that rune;
  this holds for every text and whatever the background does. The text that was typed
  is appended to the current input under these conditions: the text is valid UTF-8
  (the encoding of Unicode scalar values); the driven program appends the runes it
  receives to its input; when \<open>Type\<close> is called the director is in agreement with the
  program and its context is not cancelled; the sequence counter does not wrap; and the
  background keeps up with every keystroke. Then the runes are those of the text, and
  on an empty input the current input after typing is the text.
\<close>

theorem C9_typing_round_trip:
  "(program d \<noteq> None \<longrightarrow>
      sent_messages (Type_text M text sched d)
        = sent_messages d @ map (\<lambda>r. KeyMsg KeyRunes [r]) (runes_of text) \<and>
      interactions (Type_text M text sched d)
        = interactions d @
            map (\<lambda>r. \<lparr>ActionType = ''type'', Details = DString (string_of_rune r), Result = None\<rparr>)
              (runes_of text)) \<and>
   ((\<forall>m rs'. \<exists>m'. Update M m (KeyMsg KeyRunes rs') = Returns m' \<and>
                    CurrentInput M m' = CurrentInput M m @ string_of_runes rs') \<and>
    in_sync d \<and> \<not> cancelled d \<and>
    (\<forall>r\<in>set rs. valid_rune r) \<and> text = string_of_runes rs \<and>
    length rs \<le> length sched \<and> (\<forall>s\<in>set sched. keeps_up False (fst s)) \<and>
    sint (updateSeq d) + int (length rs) < 2 ^ 63 \<longrightarrow>
      runes_of text = rs \<and>
      getCurrentInput M (Type_text M text sched d) = getCurrentInput M d @ text)"
proof (intro conjI impI)
  assume "program d \<noteq> None"
  then show "sent_messages (Type_text M text sched d)
        = sent_messages d @ map (\<lambda>r. KeyMsg KeyRunes [r]) (runes_of text)"
    and "interactions (Type_text M text sched d)
        = interactions d @
            map (\<lambda>r. \<lparr>ActionType = ''type'', Details = DString (string_of_rune r), Result = None\<rparr>)
              (runes_of text)"
    using Type_loop_sends [of d M "runes_of text" sched] by (simp_all add: Type_text_def)
next
  assume h: "(\<forall>m rs'. \<exists>m'. Update M m (KeyMsg KeyRunes rs') = Returns m' \<and>
                    CurrentInput M m' = CurrentInput M m @ string_of_runes rs') \<and>
    in_sync d \<and> \<not> cancelled d \<and>
    (\<forall>r\<in>set rs. valid_rune r) \<and> text = string_of_runes rs \<and>
    length rs \<le> length sched \<and> (\<forall>s\<in>set sched. keeps_up False (fst s)) \<and>
    sint (updateSeq d) + int (length rs) < 2 ^ 63"
  then show r: "runes_of text = rs"
    by (simp add: runes_of_string_of_runes)
  from h have app: "\<forall>m rs'. \<exists>m'. Update M m (KeyMsg KeyRunes rs') = Returns m' \<and>
                    CurrentInput M m' = CurrentInput M m @ string_of_runes rs'"
    and a: "in_sync d" "\<not> cancelled d" "\<forall>s\<in>set sched. keeps_up False (fst s)"
           "length rs \<le> length sched" "sint (updateSeq d) + int (length rs) < 2 ^ 63"
    and t: "text = string_of_runes rs"
    by blast+
  from Type_loop_sync [OF app a] t r
  show "getCurrentInput M (Type_text M text sched d) = getCurrentInput M d @ text"
    by (simp add: Type_text_def)
qed

lemma started_simple_in_sync: "in_sync started_simple"
  by (simp add: in_sync_def started_simple_def NewStageDirectorWithConfig_def)

lemma started_simple_fields:
  "getCurrentInput SimpleREPL_model started_simple = []"
  "updateSeq started_simple = 0"
  "\<not> cancelled started_simple"
  "program started_simple \<noteq> None"
  "interactions started_simple = []"
  "sent_messages started_simple = []"
  by (simp_all add: getCurrentInput_def started_simple_def NewStageDirectorWithConfig_def
        SimpleREPL_model_def NewSimpleREPL_def sent_messages_def)

lemma simple_Start_started:
  "Start SimpleREPL_model [quiet_pass] (NewStageDirectorWithConfig NewSimpleREPL DefaultStageConfig)
     = Some started_simple"
  by (simp add: Start_def Let_def select_of_def quiet_pass_def getCurrentView_def getCurrentMode_def
        getCurrentInput_def NewStageDirectorWithConfig_def SimpleREPL_model_def SimpleREPL_View_def
        NewSimpleREPL_def DefaultStageConfig_def started_simple_def eval_nat_numeral)

lemma SimpleREPL_appends:
  "\<forall>m rs. \<exists>m'. Update SimpleREPL_model m (KeyMsg KeyRunes rs) = Returns m' \<and>
              CurrentInput SimpleREPL_model m' = CurrentInput SimpleREPL_model m @ string_of_runes rs"
  by (simp add: SimpleREPL_model_def SimpleREPL_Update_def)

lemma hello_runes: "string_of_runes [0x68, 0x65, 0x6C, 0x6C, 0x6F] = ''hello''"
  by (simp add: string_of_runes_def string_of_rune_def char_of_def)

lemma two_passes_keep_up:
  "keeps_up False [quiet_pass\<lparr>during_sleep := [ProgramStep]\<rparr>,
                   quiet_pass\<lparr>during_sleep := [ConsumerStep]\<rparr>]"
  by (simp add: quiet_pass_def caught_up_def)

theorem C9_typing_round_trip_witness:
  "getCurrentInput SimpleREPL_model
     (Type_text SimpleREPL_model ''hello''
        (replicate 5 ([quiet_pass\<lparr>during_sleep := [ProgramStep]\<rparr>,
                       quiet_pass\<lparr>during_sleep := [ConsumerStep]\<rparr>], []))
        started_simple)
     = ''hello'' \<and>
   interactions
     (Type_text SimpleREPL_model ''hello''
        (replicate 5 ([quiet_pass\<lparr>during_sleep := [ProgramStep]\<rparr>,
                       quiet_pass\<lparr>during_sleep := [ConsumerStep]\<rparr>], []))
        started_simple)
     = [\<lparr>ActionType = ''type'', Details = DString ''h'', Result = None\<rparr>,
        \<lparr>ActionType = ''type'', Details = DString ''e'', Result = None\<rparr>,
        \<lparr>ActionType = ''type'', Details = DString ''l'', Result = None\<rparr>,
        \<lparr>ActionType = ''type'', Details = DString ''l'', Result = None\<rparr>,
        \<lparr>ActionType = ''type'', Details = DString ''o'', Result = None\<rparr>] \<and>
   sent_messages
     (Type_text SimpleREPL_model ''hello''
        (replicate 5 ([quiet_pass\<lparr>during_sleep := [ProgramStep]\<rparr>,
                       quiet_pass\<lparr>during_sleep := [ConsumerStep]\<rparr>], []))
        started_simple)
     = [KeyMsg KeyRunes [0x68], KeyMsg KeyRunes [0x65], KeyMsg KeyRunes [0x6C],
        KeyMsg KeyRunes [0x6C], KeyMsg KeyRunes [0x6F]]"
proof -
  let ?sched = "replicate 5 ([quiet_pass\<lparr>during_sleep := [ProgramStep]\<rparr>,
                              quiet_pass\<lparr>during_sleep := [ConsumerStep]\<rparr>], [] :: bg list)"
  have v: "\<forall>r\<in>set [0x68, 0x65, 0x6C, 0x6C, 0x6F]. valid_rune r"
    by (simp add: valid_rune_def)
  have l: "length [0x68 :: rune, 0x65, 0x6C, 0x6C, 0x6F] \<le> length ?sched"
    by simp
  have s: "\<forall>s\<in>set ?sched. keeps_up False (fst s)"
    using two_passes_keep_up by simp
  have n: "sint (updateSeq started_simple) + int (length [0x68 :: rune, 0x65, 0x6C, 0x6C, 0x6F]) < 2 ^ 63"
    by (simp add: started_simple_fields)
  note t = C9_typing_round_trip [of started_simple SimpleREPL_model "''hello''" ?sched
             "[0x68, 0x65, 0x6C, 0x6C, 0x6F]"]
  have hyp: "(\<forall>m rs'. \<exists>m'. Update SimpleREPL_model m (KeyMsg KeyRunes rs') = Returns m' \<and>
                    CurrentInput SimpleREPL_model m' = CurrentInput SimpleREPL_model m @ string_of_runes rs') \<and>
    in_sync started_simple \<and> \<not> cancelled started_simple \<and>
    (\<forall>r\<in>set [0x68, 0x65, 0x6C, 0x6C, 0x6F]. valid_rune r) \<and>
    ''hello'' = string_of_runes [0x68, 0x65, 0x6C, 0x6C, 0x6F] \<and>
    length [0x68 :: rune, 0x65, 0x6C, 0x6C, 0x6F] \<le> length ?sched \<and>
    (\<forall>s\<in>set ?sched. keeps_up False (fst s)) \<and>
    sint (updateSeq started_simple) + int (length [0x68 :: rune, 0x65, 0x6C, 0x6C, 0x6F]) < 2 ^ 63"
    using SimpleREPL_appends started_simple_in_sync started_simple_fields(3) v
      hello_runes [symmetric] l s n
    by (intro conjI)
  note tB = t [THEN conjunct2, THEN mp, OF hyp]
  note tA = t [THEN conjunct1, THEN mp, OF started_simple_fields(4)]
  have r: "runes_of ''hello'' = [0x68, 0x65, 0x6C, 0x6C, 0x6F]"
    by (rule tB [THEN conjunct1])
  have g: "getCurrentInput SimpleREPL_model (Type_text SimpleREPL_model ''hello'' ?sched started_simple)
              = getCurrentInput SimpleREPL_model started_simple @ ''hello''"
    by (rule tB [THEN conjunct2])
  have a: "sent_messages (Type_text SimpleREPL_model ''hello'' ?sched started_simple)
       = sent_messages started_simple @ map (\<lambda>r. KeyMsg KeyRunes [r]) (runes_of ''hello'')"
    by (rule tA [THEN conjunct1])
  have b: "interactions (Type_text SimpleREPL_model ''hello'' ?sched started_simple)
       = interactions started_simple @
            map (\<lambda>r. \<lparr>ActionType = ''type'', Details = DString (string_of_rune r), Result = None\<rparr>)
              (runes_of ''hello'')"
    by (rule tA [THEN conjunct2])
  have sr1: "string_of_rune 0x68 = ''h''" "string_of_rune 0x65 = ''e''"
    "string_of_rune 0x6C = ''l''" "string_of_rune 0x6F = ''o''"
    by (simp_all add: string_of_rune_def char_of_def)
  show ?thesis
    by (simp only: g a b r started_simple_fields sr1 append_Nil list.map simp_thms)
qed

lemma invalid_byte_runes: "runes_of [CHR 0xFF] = [0xFFFD]"
  by (simp add: DecodeRune_def)

lemma replacement_string: "string_of_runes [0xFFFD] = [CHR 0xEF, CHR 0xBF, CHR 0xBD]"
  by (simp add: string_of_runes_def string_of_rune_def char_of_def)

lemma waitForViewChange_idle:
  "\<forall>p\<in>set ps. during_sleep p = [] \<Longrightarrow> waitForViewChange M v ps d = d"
  by (induction ps) (simp_all add: Let_def split: select_case.splits)

lemma sendMessage_idle:
  "\<forall>p\<in>set ps. during_sleep p = [] \<Longrightarrow> latestModel (sendMessage M msg ps d) = latestModel d"
  by (simp add: sendMessage_def Let_def waitForViewChange_idle captureSnapshot_def
           split: option.splits)

lemma Type_loop_idle:
  "\<forall>s\<in>set sched. (\<forall>p\<in>set (fst s). during_sleep p = []) \<and> snd s = [] \<Longrightarrow>
   latestModel (Type_loop M rs sched d) = latestModel d"
proof (induction rs arbitrary: sched d)
  case Nil
  show ?case by simp
next
  case (Cons r rs)
  obtain ps asl where s: "(case sched of [] \<Rightarrow> ([], []) | s # _ \<Rightarrow> s) = (ps, asl)"
    by (cases "case sched of [] \<Rightarrow> ([], []) | s # _ \<Rightarrow> s")
  from Cons.prems s have i: "\<forall>p\<in>set ps. during_sleep p = []" and e: "asl = []"
    by (cases sched; auto)+
  from Cons.prems have tl: "\<forall>s\<in>set (tl sched). (\<forall>p\<in>set (fst s). during_sleep p = []) \<and> snd s = []"
    by (cases sched) simp_all
  let ?d2 = "recordStageAction ''type'' (DString (string_of_rune r))
               (sendMessage M (KeyMsg KeyRunes [r]) ps d)"
  have t: "Type_loop M (r # rs) sched d = Type_loop M rs (tl sched) ?d2"
    by (simp add: s e Let_def)
  have "latestModel ?d2 = latestModel d"
    by (simp add: recordStageAction_def sendMessage_idle [OF i])
  with Cons.IH [OF tl, of ?d2] show ?case
    by (simp only: t)
qed

text \<open>
  Claim C9 as stated fails in two ways. A text that is no valid UTF-8 is not what
  arrives: the byte \<open>0xFF\<close> is decoded as U+FFFD, the program receives that rune, and
  the input becomes the three bytes of its encoding, also when the background keeps up.
  And a valid text does not arrive when the program is slow: if it has handled no
  keystroke when the timer of each wait for a view change fires, here after 500 passes
  of two milliseconds, \<open>Type\<close> returns all the same and the current input is still
  empty.
\<close>

theorem C9_round_trip_counterexample:
  "getCurrentInput SimpleREPL_model
     (Type_text SimpleREPL_model [CHR 0xFF]
        [([quiet_pass\<lparr>during_sleep := [ProgramStep]\<rparr>,
           quiet_pass\<lparr>during_sleep := [ConsumerStep]\<rparr>], [])]
        started_simple)
     = [CHR 0xEF, CHR 0xBF, CHR 0xBD] \<and>
   [CHR 0xEF, CHR 0xBF, CHR 0xBD] \<noteq> [CHR 0xFF] \<and>
   getCurrentInput SimpleREPL_model
     (Type_text SimpleREPL_model ''hello'' (replicate 5 (replicate 500 quiet_pass, []))
        started_simple)
     = [] \<and>
   [] \<noteq> ''hello''"
proof -
  let ?sched = "[([quiet_pass\<lparr>during_sleep := [ProgramStep]\<rparr>,
                   quiet_pass\<lparr>during_sleep := [ConsumerStep]\<rparr>], [] :: bg list)]"
  have "getCurrentInput SimpleREPL_model (Type_loop SimpleREPL_model [0xFFFD] ?sched started_simple)
          = getCurrentInput SimpleREPL_model started_simple @ string_of_runes [0xFFFD]"
  proof (rule Type_loop_sync [OF SimpleREPL_appends started_simple_in_sync started_simple_fields(3)])
    show "\<forall>s\<in>set ?sched. keeps_up False (fst s)"
      using two_passes_keep_up by simp
    show "length [0xFFFD :: rune] \<le> length ?sched"
      by simp
    show "sint (updateSeq started_simple) + int (length [0xFFFD :: rune]) < 2 ^ 63"
      by (simp add: started_simple_fields)
  qed
  then have a: "getCurrentInput SimpleREPL_model
                  (Type_text SimpleREPL_model [CHR 0xFF] ?sched started_simple)
                  = [CHR 0xEF, CHR 0xBF, CHR 0xBD]"
    by (simp only: Type_text_def invalid_byte_runes started_simple_fields replacement_string
          append_Nil)
  have "latestModel (Type_loop SimpleREPL_model (runes_of ''hello'')
                       (replicate 5 (replicate 500 quiet_pass, [])) started_simple)
          = latestModel started_simple"
    by (rule Type_loop_idle) (simp add: quiet_pass_def)
  then have b: "getCurrentInput SimpleREPL_model
                  (Type_text SimpleREPL_model ''hello'' (replicate 5 (replicate 500 quiet_pass, []))
                     started_simple) = []"
    using started_simple_fields(1) by (simp add: getCurrentInput_def Type_text_def)
  from a b show ?thesis
    by simp
qed

end
